(* ===== verification/Ocypode_Prelude.thy ===== *)
theory Ocypode_Prelude
  imports Main "HOL-Library.Word" "HOL-Library.Multiset" "HOL-Library.AList"
begin

text \<open>
  Shared material of the ocypode development: the names of the machine types, the Rust
  standard-library operations the server uses (\<open>slice::split\<close>, \<open>Iterator::position\<close>,
  \<open>Iterator::try_for_each\<close>, \<open>Result::and_then\<close>,
  \<open>HashMap\<close> as an association list) and the generic lemmas on them.

  A Rust \<open>Result<T, E>\<close> is the sum type \<open>E + T\<close>: \<open>Err\<close> is the left injection and
  \<open>Ok\<close> the right one. A \<open>usize\<close> that counts bytes or elements held in memory is a
  \<open>nat\<close>; the places where a width matters (\<open>u8\<close>, \<open>u32\<close>, \<open>u64\<close>) use words.
\<close>

section \<open>Machine types and results\<close>

type_synonym u8 = "8 word"
type_synonym u32 = "32 word"
type_synonym u64 = "64 word"
type_synonym bytes = "8 word list"

abbreviation Ok :: "'a \<Rightarrow> 'e + 'a" where
  "Ok \<equiv> Inr"

abbreviation Err :: "'e \<Rightarrow> 'e + 'a" where
  "Err \<equiv> Inl"

named_theorems result_simps \<open>evaluation rules of the Result combinators\<close>
named_theorems rust_std \<open>facts on the standard-library operations\<close>

text \<open>\<open>Result::and_then\<close>, which is also what the \<open>?\<close> operator does in a function body.\<close>

fun and_then :: "'e + 'a \<Rightarrow> ('a \<Rightarrow> 'e + 'b) \<Rightarrow> 'e + 'b" where
  "and_then (Err e) f = Err e"
| "and_then (Ok x) f = f x"

text \<open>\<open>Result::map_err\<close> and \<open>From::from\<close> under \<open>?\<close>: the error is converted, the value kept.\<close>

fun map_err :: "('e \<Rightarrow> 'f) \<Rightarrow> 'e + 'a \<Rightarrow> 'f + 'a" where
  "map_err g (Err e) = Err (g e)"
| "map_err g (Ok x) = Ok x"

fun map_ok :: "('a \<Rightarrow> 'b) \<Rightarrow> 'e + 'a \<Rightarrow> 'e + 'b" where
  "map_ok g (Err e) = Err e"
| "map_ok g (Ok x) = Ok (g x)"

lemma and_then_Ok_iff [result_simps]:
  "and_then r f = Ok y \<longleftrightarrow> (\<exists>x. r = Ok x \<and> f x = Ok y)"
  by (cases r) auto

lemma and_then_Err_iff [result_simps]:
  "and_then r f = Err e \<longleftrightarrow> r = Err e \<or> (\<exists>x. r = Ok x \<and> f x = Err e)"
  by (cases r) auto

lemma map_err_Ok_iff [result_simps]: "map_err g r = Ok y \<longleftrightarrow> r = Ok y"
  by (cases r) auto

lemma map_err_Err_iff [result_simps]: "map_err g r = Err e \<longleftrightarrow> (\<exists>e'. r = Err e' \<and> e = g e')"
  by (cases r) auto

lemma map_ok_Ok_iff [result_simps]: "map_ok g r = Ok y \<longleftrightarrow> (\<exists>x. r = Ok x \<and> y = g x)"
  by (cases r) auto

lemma map_ok_Err_iff [result_simps]: "map_ok g r = Err e \<longleftrightarrow> r = Err e"
  by (cases r) auto

text \<open>
  \<open>Result::unwrap\<close> and \<open>expect\<close>: \<open>None\<close> is the panic. A test that panics has failed, so an assertion on
  an unwrapped value holds only when there is one.
\<close>

fun unwrap :: "'e + 'a \<Rightarrow> 'a option" where
  "unwrap (Err e) = None"
| "unwrap (Ok x) = Some x"

fun is_ok :: "'e + 'a \<Rightarrow> bool" where
  "is_ok (Err e) \<longleftrightarrow> False"
| "is_ok (Ok x) \<longleftrightarrow> True"

fun asserting :: "'a option \<Rightarrow> ('a \<Rightarrow> bool) \<Rightarrow> bool" where
  "asserting None P \<longleftrightarrow> False"
| "asserting (Some x) P \<longleftrightarrow> P x"

lemma unwrap_Some_iff [result_simps]: "unwrap r = Some x \<longleftrightarrow> r = Ok x"
  by (cases r) auto

lemma is_ok_iff [result_simps]: "is_ok r \<longleftrightarrow> (\<exists>x. r = Ok x)"
  by (cases r) auto

lemma asserting_iff [result_simps]: "asserting v P \<longleftrightarrow> (\<exists>x. v = Some x \<and> P x)"
  by (cases v) auto

section \<open>Iterators and slices\<close>

text \<open>\<open>Iterator::try_for_each\<close> stops at the first error.\<close>

fun try_for_each :: "('a \<Rightarrow> 'e + unit) \<Rightarrow> 'a list \<Rightarrow> 'e + unit" where
  "try_for_each f [] = Ok ()"
| "try_for_each f (x # xs) = (case f x of Err e \<Rightarrow> Err e | Ok _ \<Rightarrow> try_for_each f xs)"

lemma try_for_each_Ok_iff [result_simps]:
  "try_for_each f xs = Ok u \<longleftrightarrow> (\<forall>x \<in> set xs. f x = Ok ())"
  by (induction xs) (auto split: sum.splits)

text \<open>The error is the one of the first element that fails.\<close>

lemma try_for_each_find:
  "try_for_each f xs =
     (case find (\<lambda>x. f x \<noteq> Ok ()) xs of None \<Rightarrow> Ok () | Some x \<Rightarrow> f x)"
  by (induction xs) (auto split: sum.splits)

lemma try_for_each_ErrD [dest]: "try_for_each f xs = Err e \<Longrightarrow> \<exists>x \<in> set xs. f x = Err e"
  by (induction xs) (auto split: sum.splits)

lemma ball_enumerate [rust_std]:
  "(\<forall>x \<in> set (enumerate 0 xs). P x) \<longleftrightarrow> (\<forall>i < length xs. P (i, xs ! i))"
proof -
  have "set (enumerate 0 xs) = (\<lambda>i. (i, xs ! i)) ` {..<length xs}"
    by (auto simp: in_set_enumerate_eq image_iff)
  then show ?thesis by auto
qed

lemma ex_split_Cons:
  "(\<exists>pre s post. a # xs = pre @ s # post \<and> (\<forall>x \<in> set pre. P x) \<and> Q s post) \<longleftrightarrow>
     Q a xs \<or> P a \<and> (\<exists>pre s post. xs = pre @ s # post \<and> (\<forall>x \<in> set pre. P x) \<and> Q s post)"
  (is "?l \<longleftrightarrow> ?r")
proof
  assume ?l
  then obtain pre s post where "a # xs = pre @ s # post" "\<forall>x \<in> set pre. P x" "Q s post" by blast
  then show ?r by (cases pre) auto
next
  assume ?r
  then show ?l
  proof
    assume "Q a xs"
    then have "a # xs = [] @ a # xs \<and> (\<forall>x \<in> set []. P x) \<and> Q a xs" by simp
    then show ?l by blast
  next
    assume "P a \<and> (\<exists>pre s post. xs = pre @ s # post \<and> (\<forall>x \<in> set pre. P x) \<and> Q s post)"
    then obtain pre s post where "P a" "xs = pre @ s # post" "\<forall>x \<in> set pre. P x" "Q s post"
      by blast
    then have "a # xs = (a # pre) @ s # post \<and> (\<forall>x \<in> set (a # pre). P x) \<and> Q s post" by simp
    then show ?l by blast
  qed
qed

text \<open>\<open>Iterator::position\<close>: the index of the first element that satisfies the predicate.\<close>

fun position :: "('a \<Rightarrow> bool) \<Rightarrow> 'a list \<Rightarrow> nat option" where
  "position P [] = None"
| "position P (x # xs) = (if P x then Some 0 else map_option Suc (position P xs))"

lemma position_None_iff [rust_std]: "position P xs = None \<longleftrightarrow> (\<forall>x \<in> set xs. \<not> P x)"
  by (induction xs) auto

lemma position_SomeD [rust_std]:
  "position P xs = Some i \<Longrightarrow> i < length xs \<and> P (xs ! i) \<and> (\<forall>j < i. \<not> P (xs ! j))"
proof (induction xs arbitrary: i)
  case Nil
  then show ?case by simp
next
  case (Cons a xs)
  then show ?case by (auto simp: less_Suc_eq_0_disj split: if_splits)
qed

lemma position_cong_map:
  "map f xs = map f ys \<Longrightarrow> position (\<lambda>x. f x = v) xs = position (\<lambda>y. f y = v) ys"
proof (induction xs arbitrary: ys)
  case Nil
  then show ?case by simp
next
  case (Cons x xs)
  then show ?case by (cases ys) auto
qed

lemma position_append_Some: "position P xs = Some i \<Longrightarrow> position P (xs @ ys) = Some i"
  by (induction xs arbitrary: i) auto

lemma position_snoc: "position P xs = None \<Longrightarrow> P y \<Longrightarrow> position P (xs @ [y]) = Some (length xs)"
  by (induction xs) (auto split: if_splits)

text \<open>\<open>Vec::remove(i)\<close> for an index in range.\<close>

definition vec_remove :: "nat \<Rightarrow> 'a list \<Rightarrow> 'a list" where
  "vec_remove i xs = take i xs @ drop (Suc i) xs"

lemma distinct_map_imp: "distinct (map f xs) \<Longrightarrow> distinct xs"
  by (simp add: distinct_map)

lemma vec_remove_snoc [simp]: "vec_remove (length xs) (xs @ [x]) = xs"
  by (simp add: vec_remove_def)

lemma set_vec_remove_subset: "set (vec_remove i xs) \<subseteq> set xs"
  by (auto simp: vec_remove_def dest: in_set_takeD in_set_dropD)

lemma map_vec_remove: "map f (vec_remove i xs) = vec_remove i (map f xs)"
  by (simp add: vec_remove_def take_map drop_map)

lemma distinct_vec_remove: "distinct xs \<Longrightarrow> distinct (vec_remove i xs)"
  unfolding vec_remove_def
  by (auto dest: in_set_takeD in_set_dropD simp: set_take_disj_set_drop_if_distinct)

lemma mset_vec_remove: "i < length xs \<Longrightarrow> mset xs = add_mset (xs ! i) (mset (vec_remove i xs))"
proof -
  assume "i < length xs"
  then have "xs = take i xs @ xs ! i # drop (Suc i) xs" by (simp add: id_take_nth_drop)
  then have "mset xs = mset (take i xs @ xs ! i # drop (Suc i) xs)" by simp
  then show ?thesis by (simp add: vec_remove_def)
qed

lemma set_conv_vec_remove: "i < length xs \<Longrightarrow> set xs = insert (xs ! i) (set (vec_remove i xs))"
  using mset_vec_remove [of i xs] by (metis set_mset_add_mset_insert set_mset_mset)

lemma set_list_update_vec_remove:
  "i < length xs \<Longrightarrow> set (xs[i := x]) = insert x (set (vec_remove i xs))"
  by (simp add: vec_remove_def upd_conv_take_nth_drop)

lemma distinct_map_vec_remove:
  "distinct (map f xs) \<Longrightarrow> i < length xs \<Longrightarrow> f (xs ! i) \<notin> f ` set (vec_remove i xs)"
proof -
  assume d: "distinct (map f xs)" and i: "i < length xs"
  have "map f xs = map f (take i xs) @ f (xs ! i) # map f (drop (Suc i) xs)"
    using i by (metis id_take_nth_drop list.simps(9) map_append)
  with d have "distinct (map f (take i xs) @ f (xs ! i) # map f (drop (Suc i) xs))" by metis
  then show ?thesis by (auto simp: vec_remove_def)
qed

text \<open>
  \<open>slice::split\<close>: the maximal runs between the elements that satisfy the predicate, so the
  empty slice splits into one empty run.
\<close>

fun slice_split :: "('a \<Rightarrow> bool) \<Rightarrow> 'a list \<Rightarrow> 'a list list" where
  "slice_split P [] = [[]]"
| "slice_split P (x # xs) =
     (if P x then [] # slice_split P xs
      else (x # hd (slice_split P xs)) # tl (slice_split P xs))"

lemma slice_split_not_Nil [simp, rust_std]: "slice_split P xs \<noteq> []"
  by (induction xs) auto

lemma slice_split_no_sep: "s \<in> set (slice_split P xs) \<Longrightarrow> x \<in> set s \<Longrightarrow> \<not> P x"
proof (induction xs arbitrary: s x)
  case Nil
  then show ?case by simp
next
  case (Cons a xs)
  show ?case
  proof (cases "P a")
    case True
    with Cons show ?thesis by auto
  next
    case False
    have hd: "hd (slice_split P xs) \<in> set (slice_split P xs)" by simp
    from Cons.prems False have "s = a # hd (slice_split P xs) \<or> s \<in> set (tl (slice_split P xs))"
      by simp
    then show ?thesis
      using Cons.IH [OF hd] Cons.IH [OF list.set_sel(2) [OF slice_split_not_Nil]] False
        Cons.prems(2) by auto
  qed
qed

text \<open>Joining segments with a separator, the inverse of \<open>slice_split\<close>.\<close>

fun join_with :: "'a \<Rightarrow> 'a list list \<Rightarrow> 'a list" where
  "join_with c [] = []"
| "join_with c [s] = s"
| "join_with c (s # t # ss) = s @ c # join_with c (t # ss)"

lemma join_with_Cons: "ss \<noteq> [] \<Longrightarrow> join_with c (s # ss) = s @ c # join_with c ss"
  by (cases ss) auto

lemma join_with_hd: "ss \<noteq> [] \<Longrightarrow> join_with c ((x # hd ss) # tl ss) = x # join_with c ss"
  by (cases ss rule: list.exhaust; cases "tl ss") auto

lemma join_slice_split [rust_std]: "join_with c (slice_split (\<lambda>b. b = c) xs) = xs"
  by (induction xs) (auto simp: join_with_Cons join_with_hd)

lemma slice_split_append_sep:
  "\<forall>x \<in> set s. \<not> P x \<Longrightarrow> P c \<Longrightarrow> slice_split P (s @ c # xs) = s # slice_split P xs"
  by (induction s) auto

lemma slice_split_single: "\<forall>x \<in> set s. \<not> P x \<Longrightarrow> slice_split P s = [s]"
  by (induction s) auto

lemma slice_split_join [rust_std]:
  "ss \<noteq> [] \<Longrightarrow> \<forall>s \<in> set ss. c \<notin> set s \<Longrightarrow> slice_split (\<lambda>b. b = c) (join_with c ss) = ss"
proof (induction c ss rule: join_with.induct)
  case (3 c s t ss)
  then have "\<forall>x \<in> set s. x \<noteq> c" by auto
  with 3 show ?case using slice_split_append_sep [of s "\<lambda>b. b = c" c] by simp
qed (auto intro: slice_split_single)

lemma set_join_with: "set (join_with c ss) \<subseteq> insert c (\<Union> (set ` set ss))"
  by (induction c ss rule: join_with.induct) auto

lemma set_slice_split: "(\<Union>s \<in> set (slice_split P xs). set s) = {x \<in> set xs. \<not> P x}"
proof (induction xs)
  case Nil
  then show ?case by simp
next
  case (Cons a xs)
  have "set (slice_split P xs) = insert (hd (slice_split P xs)) (set (tl (slice_split P xs)))"
    by (metis slice_split_not_Nil list.collapse list.simps(15))
  with Cons.IH show ?case by auto
qed

lemma hd_slice_split_Nil_iff: "hd (slice_split P xs) = [] \<longleftrightarrow> xs = [] \<or> P (hd xs)"
  by (cases xs) auto

lemma slice_split_snoc:
  "slice_split P (xs @ [x]) =
     (if P x then slice_split P xs @ [[]]
      else butlast (slice_split P xs) @ [last (slice_split P xs) @ [x]])"
proof (induction xs)
  case Nil
  then show ?case by simp
next
  case (Cons a xs)
  have "slice_split P xs \<noteq> []" by simp
  with Cons.IH show ?case by (cases "slice_split P xs") auto
qed

lemma last_slice_split_Nil_iff: "last (slice_split P xs) = [] \<longleftrightarrow> xs = [] \<or> P (last xs)"
  by (cases xs rule: rev_cases) (auto simp: slice_split_snoc)

text \<open>The same function with the current part in an accumulator: each byte is looked at once.\<close>

fun split_acc :: "('a \<Rightarrow> bool) \<Rightarrow> 'a list \<Rightarrow> 'a list \<Rightarrow> 'a list list" where
  "split_acc P acc [] = [rev acc]"
| "split_acc P acc (x # xs) = (if P x then rev acc # split_acc P [] xs else split_acc P (x # acc) xs)"

lemma split_acc_slice_split:
  "split_acc P acc xs = (rev acc @ hd (slice_split P xs)) # tl (slice_split P xs)"
  by (induction P acc xs rule: split_acc.induct) auto

lemma slice_split_eval: "slice_split P xs = split_acc P [] xs"
  by (simp add: split_acc_slice_split)

section \<open>Text: decimal numbers, byte slices and UTF-8\<close>

text \<open>Decimal \<open>Display\<close> of an unsigned integer.\<close>

fun show_nat :: "nat \<Rightarrow> string" where
  "show_nat n =
     (if n < 10 then [char_of (48 + n)] else show_nat (n div 10) @ [char_of (48 + n mod 10)])"

declare show_nat.simps [simp del]

text \<open>\<open>Debug\<close> of a byte slice: the decimal bytes between brackets.\<close>

fun join_strings :: "string \<Rightarrow> string list \<Rightarrow> string" where
  "join_strings sep [] = []"
| "join_strings sep [s] = s"
| "join_strings sep (s # t # ss) = s @ sep @ join_strings sep (t # ss)"

definition debug_bytes :: "bytes \<Rightarrow> string" where
  "debug_bytes bs = ''['' @ join_strings '', '' (map (\<lambda>b. show_nat (unat b)) bs) @ '']''"

text \<open>
  A Rust \<open>String\<close> is its sequence of UTF-8 bytes; HOL's \<open>char\<close> is one byte, so a \<open>string\<close>
  holds exactly those bytes.
\<close>

definition string_bytes :: "string \<Rightarrow> bytes" where
  "string_bytes s = map (\<lambda>c. of_char c) s"

definition bytes_string :: "bytes \<Rightarrow> string" where
  "bytes_string bs = map (\<lambda>b. char_of (unat b)) bs"

definition utf8_cont :: "u8 \<Rightarrow> bool" where
  "utf8_cont b \<longleftrightarrow> 0x80 \<le> b \<and> b \<le> 0xBF"

text \<open>The well-formed byte sequences \<open>std::str::from_utf8\<close> accepts.\<close>

fun utf8_valid :: "bytes \<Rightarrow> bool" where
  "utf8_valid [] = True"
| "utf8_valid (a # r) =
     (if a \<le> 0x7F then utf8_valid r
      else if 0xC2 \<le> a \<and> a \<le> 0xDF then
        (case r of b # r1 \<Rightarrow> utf8_cont b \<and> utf8_valid r1 | [] \<Rightarrow> False)
      else if 0xE0 \<le> a \<and> a \<le> 0xEF then
        (case r of b # c # r2 \<Rightarrow>
           utf8_cont b \<and> (a = 0xE0 \<longrightarrow> 0xA0 \<le> b) \<and> (a = 0xED \<longrightarrow> b \<le> 0x9F)
             \<and> utf8_cont c \<and> utf8_valid r2
         | _ \<Rightarrow> False)
      else if 0xF0 \<le> a \<and> a \<le> 0xF4 then
        (case r of b # c # d # r3 \<Rightarrow>
           utf8_cont b \<and> (a = 0xF0 \<longrightarrow> 0x90 \<le> b) \<and> (a = 0xF4 \<longrightarrow> b \<le> 0x8F)
             \<and> utf8_cont c \<and> utf8_cont d \<and> utf8_valid r3
         | _ \<Rightarrow> False)
      else False)"

lemma bytes_string_inverse [simp]: "bytes_string (string_bytes s) = s"
proof -
  have "char_of (unat (of_char c :: u8)) = c" for c
    by (subst of_nat_of_char [symmetric], subst unat_of_nat) simp
  then show ?thesis by (simp add: bytes_string_def string_bytes_def o_def)
qed

lemma utf8_valid_ascii: "\<forall>b \<in> set bs. b \<le> 0x7F \<Longrightarrow> utf8_valid bs"
  by (induction bs) auto

section \<open>Association lists as hash maps\<close>

text \<open>
  A \<open>HashMap<K, V>\<close> is an association list with distinct keys; the order of the list stands
  for one iteration order. \<open>insert\<close> is \<open>AList.update\<close>, \<open>remove\<close> is \<open>AList.delete\<close>.
\<close>

lemma delete_update_fresh:
  "k \<notin> fst ` set m \<Longrightarrow> AList.delete k (AList.update k v m) = m"
  by (induction m) (auto simp: AList.delete_eq filter_id_conv)

lemma set_AList_delete: "set (AList.delete k m) = {e \<in> set m. fst e \<noteq> k}"
  by (auto simp: AList.delete_eq)

lemma set_AList_update:
  "distinct (map fst m) \<Longrightarrow> set (AList.update k v m) = insert (k, v) {e \<in> set m. fst e \<noteq> k}"
proof (induction m)
  case Nil
  then show ?case by simp
next
  case (Cons e m)
  then show ?case by (cases e) (auto simp: image_iff)
qed

lemma AList_update_not_Nil [simp]: "AList.update k v m \<noteq> []"
  by (cases m) auto

end
