(* ===== verification/Ocypode_Error.thy ===== *)
theory Ocypode_Error
  imports Ocypode_Prelude
begin

text \<open>
  The error types of \<open>crates/server/src/error.rs\<close>. A variant keeps its name, prefixed with the
  enum's name where two enums share it. \<open>prost::EncodeError\<close> and \<open>prost::DecodeError\<close> are
  opaque values of the protobuf library; they are represented by their message.
  \<open>io::Error\<close> is a kind and a message.
\<close>

datatype TopicError =
    Empty
  | TooLong nat
  | LeadingSlash
  | TrailingSlash
  | EmptyLayer
  | TooManyLayers nat
  | ReservedSysPrefix
  | GlobalPrefixWithoutTopic
  | WildcardInPublishTopic
  | MultiWildcardNotTerminal
  | InvalidWildcardUsage

type_synonym EncodeError = string
type_synonym DecodeError = string

datatype ErrorKind = NotFound | OtherKind string

datatype io_error = IoError (io_kind: ErrorKind) (io_message: string)

datatype CodecError =
    CodecError_Error
  | InvalidCommand
  | Encode EncodeError
  | Decode DecodeError
  | InvalidSizeBytes nat
  | InvalidVersion string

datatype ServerCodecError =
    ServerCodecError_Codec CodecError
  | ServerCodecError_Io io_error

datatype ClientCodecError =
    ClientCodecError_Codec CodecError
  | ClientCodecError_Io io_error

text \<open>The \<open>Display\<close> texts that the \<open>#[error(...)]\<close> attributes give.\<close>

fun TopicError_display :: "TopicError \<Rightarrow> string" where
  "TopicError_display Empty = ''topic is empty''"
| "TopicError_display (TooLong len) = ''topic is too long: '' @ show_nat len @ '' bytes''"
| "TopicError_display LeadingSlash = ''topic has a leading slash''"
| "TopicError_display TrailingSlash = ''topic has a trailing slash''"
| "TopicError_display EmptyLayer = ''topic contains an empty layer (consecutive slashes)''"
| "TopicError_display (TooManyLayers n) = ''topic has too many layers: '' @ show_nat n"
| "TopicError_display ReservedSysPrefix = ''topic starts with the reserved $SYS prefix''"
| "TopicError_display GlobalPrefixWithoutTopic =
     ''$G prefix must be followed by at least one topic layer''"
| "TopicError_display WildcardInPublishTopic = ''wildcards are not allowed in publish topics''"
| "TopicError_display MultiWildcardNotTerminal =
     ''multi-level wildcard '' @ [CHR 0x27] @ ''#'' @ [CHR 0x27] @ '' must be the last segment''"
| "TopicError_display InvalidWildcardUsage =
     ''wildcard characters must occupy an entire segment''"

fun CodecError_display :: "CodecError \<Rightarrow> string" where
  "CodecError_display CodecError_Error = ''Error''"
| "CodecError_display InvalidCommand = ''Invalid command''"
| "CodecError_display (Encode e) = ''Encode error: '' @ e"
| "CodecError_display (Decode e) = ''Decode error: '' @ e"
| "CodecError_display (InvalidSizeBytes n) = ''Invalid size bytes: '' @ show_nat n"
| "CodecError_display (InvalidVersion v) = ''Invalid version: '' @ v"

end
