(* ===== verification/Topic.thy ===== *)
theory Topic
  imports Ocypode_Error
begin

text \<open>
  \<open>crates/server/src/topic.rs\<close>: validation of publish topics and subscription filters. A
  \<open>Topic\<close> or \<open>TopicFilter\<close> is a wrapper around its bytes. The theory ends with a declarative
  reading of what the two constructors accept, and the facts the router relies on.
\<close>

section \<open>Constants\<close>

definition MAX_LAYERS :: nat where "MAX_LAYERS = 8"

definition MAX_TOPIC_LENGTH :: nat where "MAX_TOPIC_LENGTH = 256"

definition WILDCARD_SINGLE_BYTE :: u8 where "WILDCARD_SINGLE_BYTE = 0x2B"

definition WILDCARD_SINGLE :: bytes where "WILDCARD_SINGLE = [0x2B]"

definition WILDCARD_MULTI_BYTE :: u8 where "WILDCARD_MULTI_BYTE = 0x23"

definition WILDCARD_MULTI :: bytes where "WILDCARD_MULTI = [0x23]"

text \<open>\<open>$SYS\<close>\<close>
definition SYS_PREFIX :: bytes where "SYS_PREFIX = [0x24, 0x53, 0x59, 0x53]"

text \<open>\<open>$G\<close>\<close>
definition GLOBAL_PREFIX :: bytes where "GLOBAL_PREFIX = [0x24, 0x47]"

definition SEP_BYTE :: u8 where "SEP_BYTE = 0x2F"

lemmas topic_consts = MAX_LAYERS_def MAX_TOPIC_LENGTH_def WILDCARD_SINGLE_BYTE_def
  WILDCARD_SINGLE_def WILDCARD_MULTI_BYTE_def WILDCARD_MULTI_def SYS_PREFIX_def
  GLOBAL_PREFIX_def SEP_BYTE_def

section \<open>Validation\<close>

datatype Topic = Topic (Topic_as_bytes: bytes)

datatype TopicFilter = TopicFilter (TopicFilter_as_bytes: bytes)

definition validate_raw :: "bytes \<Rightarrow> TopicError + bytes" where
  "validate_raw raw =
     (if raw = [] then Err Empty
      else if length raw > MAX_TOPIC_LENGTH then Err (TooLong (length raw))
      else if raw ! 0 = SEP_BYTE then Err LeadingSlash
      else if raw ! (length raw - 1) = SEP_BYTE then Err TrailingSlash
      else Ok raw)"

definition validate_segments :: "bytes \<Rightarrow> TopicError + bytes list" where
  "validate_segments raw0 =
     and_then (validate_raw raw0) (\<lambda>raw.
       let segments = slice_split (\<lambda>byte. byte = SEP_BYTE) raw in
       if (\<exists>s \<in> set segments. s = []) then Err EmptyLayer
       else if length segments > MAX_LAYERS then Err (TooManyLayers (length segments))
       else if segments ! 0 = SYS_PREFIX then Err ReservedSysPrefix
       else if segments ! 0 = GLOBAL_PREFIX \<and> length segments < 2
         then Err GlobalPrefixWithoutTopic
       else Ok segments)"

definition has_wildcard :: "bytes \<Rightarrow> bool" where
  "has_wildcard seg \<longleftrightarrow> WILDCARD_SINGLE_BYTE \<in> set seg \<or> WILDCARD_MULTI_BYTE \<in> set seg"

definition matchable_segments :: "bytes list \<Rightarrow> bytes list" where
  "matchable_segments segments =
     (if segments ! 0 = GLOBAL_PREFIX then drop 1 segments else segments)"

definition validate_no_wildcards :: "bytes list \<Rightarrow> TopicError + unit" where
  "validate_no_wildcards segments =
     try_for_each (\<lambda>seg. if has_wildcard seg then Err WildcardInPublishTopic else Ok ())
       (matchable_segments segments)"

definition validate_wildcard_placement :: "bytes list \<Rightarrow> TopicError + unit" where
  "validate_wildcard_placement segments =
     (let matchable = matchable_segments segments in
      try_for_each (\<lambda>(i, seg).
          if seg = WILDCARD_SINGLE \<or> seg = WILDCARD_MULTI then
            (if seg = WILDCARD_MULTI \<and> i \<noteq> length matchable - 1
             then Err MultiWildcardNotTerminal else Ok ())
          else if has_wildcard seg then Err InvalidWildcardUsage
          else Ok ())
        (enumerate 0 matchable))"

definition Topic_new :: "bytes \<Rightarrow> TopicError + Topic" where
  "Topic_new bs =
     and_then (and_then (validate_segments bs) validate_no_wildcards) (\<lambda>_. Ok (Topic bs))"

definition TopicFilter_new :: "bytes \<Rightarrow> TopicError + TopicFilter" where
  "TopicFilter_new bs =
     and_then (and_then (validate_segments bs) validate_wildcard_placement)
       (\<lambda>_. Ok (TopicFilter bs))"

definition Topic_segments :: "Topic \<Rightarrow> bytes list" where
  "Topic_segments t =
     filter (\<lambda>s. s \<noteq> []) (slice_split (\<lambda>byte. byte = SEP_BYTE) (Topic_as_bytes t))"

definition TopicFilter_segments :: "TopicFilter \<Rightarrow> bytes list" where
  "TopicFilter_segments f =
     filter (\<lambda>s. s \<noteq> []) (slice_split (\<lambda>byte. byte = SEP_BYTE) (TopicFilter_as_bytes f))"

text \<open>\<open>From<Bytes>\<close> and \<open>From<&'static [u8]>\<close> wrap without validating.\<close>

definition Topic_from_bytes :: "bytes \<Rightarrow> Topic" where
  "Topic_from_bytes bs = Topic bs"

definition Topic_from_static :: "bytes \<Rightarrow> Topic" where
  "Topic_from_static bs = Topic bs"

definition display_bytes :: "bytes \<Rightarrow> string" where
  "display_bytes bs = (if utf8_valid bs then bytes_string bs else debug_bytes bs)"

definition Topic_fmt :: "Topic \<Rightarrow> string" where
  "Topic_fmt t = display_bytes (Topic_as_bytes t)"

definition TopicFilter_fmt :: "TopicFilter \<Rightarrow> string" where
  "TopicFilter_fmt f = display_bytes (TopicFilter_as_bytes f)"

section \<open>What the constructors accept\<close>

text \<open>The layers of a byte string: its parts between slashes.\<close>

definition layers :: "bytes \<Rightarrow> bytes list" where
  "layers bs = slice_split (\<lambda>byte. byte = SEP_BYTE) bs"

text \<open>
  A well-layered name: at most \<open>MAX_TOPIC_LENGTH\<close> bytes and \<open>MAX_LAYERS\<close> layers, no layer
  empty, the first layer not \<open>$SYS\<close>, and \<open>$G\<close> followed by something.
\<close>

definition layered :: "bytes \<Rightarrow> bool" where
  "layered bs \<longleftrightarrow> length bs \<le> MAX_TOPIC_LENGTH \<and> [] \<notin> set (layers bs)
     \<and> length (layers bs) \<le> MAX_LAYERS \<and> hd (layers bs) \<noteq> SYS_PREFIX
     \<and> layers bs \<noteq> [GLOBAL_PREFIX]"

text \<open>A publish topic has no wildcard byte at all.\<close>

definition topic_spec :: "bytes \<Rightarrow> bool" where
  "topic_spec bs \<longleftrightarrow> layered bs \<and> WILDCARD_SINGLE_BYTE \<notin> set bs \<and> WILDCARD_MULTI_BYTE \<notin> set bs"

text \<open>
  In a filter every layer is \<open>+\<close>, or \<open>#\<close> in the last place, or free of wildcard bytes.
\<close>

definition filter_spec :: "bytes \<Rightarrow> bool" where
  "filter_spec bs \<longleftrightarrow> layered bs
     \<and> (\<forall>s \<in> set (layers bs). s = WILDCARD_SINGLE \<or> s = WILDCARD_MULTI \<or> \<not> has_wildcard s)
     \<and> WILDCARD_MULTI \<notin> set (butlast (layers bs))"

section \<open>Lemmas\<close>

text \<open>Evaluation of the constructors and the segment iterators on a concrete name.\<close>

lemmas name_evals = Topic_new_def TopicFilter_new_def validate_segments_def validate_raw_def
  validate_no_wildcards_def validate_wildcard_placement_def matchable_segments_def has_wildcard_def
  Topic_segments_def TopicFilter_segments_def string_bytes_def topic_consts slice_split_eval

named_theorems topic_simps \<open>unfolding rules of the topic functions\<close>

lemma layers_not_Nil [simp]: "layers bs \<noteq> []"
  by (simp add: layers_def)

lemma layers_nth_0: "layers bs ! 0 = hd (layers bs)"
  by (simp add: hd_conv_nth)

lemma has_wildcard_consts [simp]:
  "has_wildcard WILDCARD_SINGLE" "has_wildcard WILDCARD_MULTI"
  "\<not> has_wildcard GLOBAL_PREFIX" "\<not> has_wildcard SYS_PREFIX"
  by (simp_all add: has_wildcard_def topic_consts)

lemma wildcard_consts_distinct [simp]:
  "WILDCARD_SINGLE \<noteq> WILDCARD_MULTI" "WILDCARD_MULTI \<noteq> WILDCARD_SINGLE"
  "GLOBAL_PREFIX \<noteq> WILDCARD_SINGLE" "GLOBAL_PREFIX \<noteq> WILDCARD_MULTI"
  "WILDCARD_SINGLE \<noteq> GLOBAL_PREFIX" "WILDCARD_MULTI \<noteq> GLOBAL_PREFIX"
  "WILDCARD_SINGLE \<noteq> []" "WILDCARD_MULTI \<noteq> []"
  by (simp_all add: topic_consts)

lemma layers_leading: "bs \<noteq> [] \<Longrightarrow> bs ! 0 = SEP_BYTE \<Longrightarrow> [] \<in> set (layers bs)"
  using hd_slice_split_Nil_iff [of "\<lambda>byte. byte = SEP_BYTE" bs] list.set_sel(1) [OF layers_not_Nil]
  by (metis hd_conv_nth layers_def)

lemma layers_trailing: "bs \<noteq> [] \<Longrightarrow> last bs = SEP_BYTE \<Longrightarrow> [] \<in> set (layers bs)"
  using last_slice_split_Nil_iff [of "\<lambda>byte. byte = SEP_BYTE" bs] last_in_set [OF layers_not_Nil]
  by (metis layers_def)

lemma layers_Nil [simp]: "layers [] = [[]]"
  by (simp add: layers_def)

lemma validate_segments_Ok_iff [topic_simps]:
  "validate_segments bs = Ok segs \<longleftrightarrow> layered bs \<and> segs = layers bs"
proof -
  have "length (layers bs) < 2 \<longleftrightarrow> layers bs = [hd (layers bs)]"
    by (cases "layers bs") (auto simp: less_Suc_eq)
  then have g: "(hd (layers bs) = GLOBAL_PREFIX \<and> length (layers bs) < 2) = (layers bs = [GLOBAL_PREFIX])"
    by auto
  show ?thesis
    using layers_leading [of bs] layers_trailing [of bs] layers_Nil
    by (auto simp: validate_segments_def validate_raw_def layered_def Let_def g last_conv_nth
        layers_nth_0 not_less simp flip: layers_def split: if_splits)
qed

lemma matchable_layers:
  "layered bs \<Longrightarrow> set (matchable_segments (layers bs)) \<union> {GLOBAL_PREFIX} = set (layers bs) \<union> {GLOBAL_PREFIX}"
  by (cases "layers bs") (auto simp: matchable_segments_def layered_def)

lemma wildcard_byte_layers:
  "(\<exists>s \<in> set (layers bs). has_wildcard s) \<longleftrightarrow>
     WILDCARD_SINGLE_BYTE \<in> set bs \<or> WILDCARD_MULTI_BYTE \<in> set bs"
proof -
  have "(\<exists>s \<in> set (layers bs). b \<in> set s) \<longleftrightarrow> b \<in> set bs \<and> b \<noteq> SEP_BYTE" for b
    using set_slice_split [of "\<lambda>byte. byte = SEP_BYTE" bs] unfolding layers_def by blast
  from this [of WILDCARD_SINGLE_BYTE] this [of WILDCARD_MULTI_BYTE] show ?thesis
    unfolding has_wildcard_def by (auto simp: topic_consts)
qed

lemma validate_no_wildcards_Ok_iff:
  assumes "layered bs"
  shows "validate_no_wildcards (layers bs) = Ok u \<longleftrightarrow> (\<forall>s \<in> set (layers bs). \<not> has_wildcard s)"
proof -
  have "(\<forall>s \<in> set (matchable_segments (layers bs)). \<not> has_wildcard s) \<longleftrightarrow>
        (\<forall>s \<in> set (layers bs). \<not> has_wildcard s)"
    using matchable_layers [OF assms] has_wildcard_consts(3) by blast
  then show ?thesis
    by (simp add: validate_no_wildcards_def try_for_each_Ok_iff)
qed

lemma Topic_new_Ok_iff [topic_simps]: "Topic_new bs = Ok t \<longleftrightarrow> topic_spec bs \<and> t = Topic bs"
  using wildcard_byte_layers [of bs]
  by (auto simp: Topic_new_def and_then_Ok_iff validate_segments_Ok_iff
      validate_no_wildcards_Ok_iff topic_spec_def)

lemma hash_not_before_last:
  "(\<forall>i < length xs. xs ! i = v \<longrightarrow> i = length xs - 1) \<longleftrightarrow> v \<notin> set (butlast xs)"
proof
  assume l: "\<forall>i < length xs. xs ! i = v \<longrightarrow> i = length xs - 1"
  show "v \<notin> set (butlast xs)"
  proof
    assume "v \<in> set (butlast xs)"
    then obtain i where "i < length xs - 1" "xs ! i = v"
      by (auto simp: in_set_conv_nth nth_butlast)
    with l have "i = length xs - 1" by simp
    with \<open>i < length xs - 1\<close> show False by simp
  qed
next
  assume r: "v \<notin> set (butlast xs)"
  show "\<forall>i < length xs. xs ! i = v \<longrightarrow> i = length xs - 1"
  proof (intro allI impI)
    fix i assume i: "i < length xs" "xs ! i = v"
    show "i = length xs - 1"
    proof (rule ccontr)
      assume "i \<noteq> length xs - 1"
      with i have "i < length (butlast xs)" "butlast xs ! i = v" by (auto simp: nth_butlast)
      with r show False by (metis nth_mem)
    qed
  qed
qed

lemma validate_wildcard_placement_Ok_iff:
  assumes "layered bs"
  shows "validate_wildcard_placement (layers bs) = Ok u \<longleftrightarrow>
    (\<forall>s \<in> set (layers bs). s = WILDCARD_SINGLE \<or> s = WILDCARD_MULTI \<or> \<not> has_wildcard s)
    \<and> WILDCARD_MULTI \<notin> set (butlast (layers bs))"
proof -
  let ?m = "matchable_segments (layers bs)"
  let ?fine = "\<lambda>s. s = WILDCARD_SINGLE \<or> s = WILDCARD_MULTI \<or> \<not> has_wildcard s"
  have set_fine: "(\<forall>s \<in> set ?m. ?fine s) \<longleftrightarrow> (\<forall>s \<in> set (layers bs). ?fine s)"
    using matchable_layers [OF assms] has_wildcard_consts(3) by blast
  have last_only: "WILDCARD_MULTI \<notin> set (butlast ?m) \<longleftrightarrow> WILDCARD_MULTI \<notin> set (butlast (layers bs))"
    using assms by (cases "layers bs") (auto simp: matchable_segments_def layered_def)
  have "validate_wildcard_placement (layers bs) = Ok u \<longleftrightarrow>
      (\<forall>i < length ?m. ?fine (?m ! i) \<and> (?m ! i = WILDCARD_MULTI \<longrightarrow> i = length ?m - 1))"
    unfolding validate_wildcard_placement_def Let_def try_for_each_Ok_iff ball_enumerate
    by (intro arg_cong [where f = All] ext imp_cong refl) auto
  also have "\<dots> \<longleftrightarrow> (\<forall>s \<in> set ?m. ?fine s) \<and> WILDCARD_MULTI \<notin> set (butlast ?m)"
    using hash_not_before_last [of ?m WILDCARD_MULTI] by (auto simp: all_set_conv_all_nth)
  finally show ?thesis using set_fine last_only by blast
qed

lemma TopicFilter_new_Ok_iff [topic_simps]:
  "TopicFilter_new bs = Ok f \<longleftrightarrow> filter_spec bs \<and> f = TopicFilter bs"
  by (auto simp: TopicFilter_new_def and_then_Ok_iff validate_segments_Ok_iff
      validate_wildcard_placement_Ok_iff filter_spec_def)

lemma topic_spec_filter_spec: "topic_spec bs \<Longrightarrow> filter_spec bs"
  using wildcard_byte_layers [of bs] has_wildcard_consts(2) in_set_butlastD
  unfolding topic_spec_def filter_spec_def by metis

lemma layered_segments:
  "layered bs \<Longrightarrow> filter (\<lambda>s. s \<noteq> []) (slice_split (\<lambda>byte. byte = SEP_BYTE) bs) = layers bs"
  by (auto simp: layered_def layers_def filter_id_conv)

lemma Topic_segments_layers [topic_simps]: "topic_spec bs \<Longrightarrow> Topic_segments (Topic bs) = layers bs"
  by (simp add: Topic_segments_def topic_spec_def layered_segments)

lemma TopicFilter_segments_layers [topic_simps]:
  "filter_spec bs \<Longrightarrow> TopicFilter_segments (TopicFilter bs) = layers bs"
  by (simp add: TopicFilter_segments_def filter_spec_def layered_segments)

lemma join_layers: "join_with SEP_BYTE (layers bs) = bs"
  by (simp add: layers_def join_slice_split)

lemma topic_segments_no_wildcard:
  "topic_spec bs \<Longrightarrow> s \<in> set (Topic_segments (Topic bs)) \<Longrightarrow> \<not> has_wildcard s"
  using wildcard_byte_layers [of bs] by (auto simp: Topic_segments_layers topic_spec_def)

text \<open>The first layer that breaks the wildcard rules decides the error of a filter.\<close>

definition wildcard_fault :: "bytes \<Rightarrow> bytes list \<Rightarrow> TopicError \<Rightarrow> bool" where
  "wildcard_fault s post e \<longleftrightarrow>
     s = WILDCARD_MULTI \<and> post \<noteq> [] \<and> e = MultiWildcardNotTerminal
   \<or> s \<noteq> WILDCARD_SINGLE \<and> s \<noteq> WILDCARD_MULTI \<and> has_wildcard s \<and> e = InvalidWildcardUsage"

definition wildcard_fine :: "bytes \<Rightarrow> bool" where
  "wildcard_fine s \<longleftrightarrow> s = WILDCARD_SINGLE \<or> \<not> has_wildcard s"

lemma wildcard_loop_first_fault:
  "n + length xs = N \<Longrightarrow>
   try_for_each (\<lambda>(i, seg).
       if seg = WILDCARD_SINGLE \<or> seg = WILDCARD_MULTI then
         (if seg = WILDCARD_MULTI \<and> i \<noteq> N - 1 then Err MultiWildcardNotTerminal else Ok ())
       else if has_wildcard seg then Err InvalidWildcardUsage
       else Ok ()) (enumerate n xs) = Err e \<longleftrightarrow>
   (\<exists>pre s post. xs = pre @ s # post \<and> (\<forall>x \<in> set pre. wildcard_fine x) \<and> wildcard_fault s post e)"
proof (induction xs arbitrary: n)
  case Nil
  then show ?case by simp
next
  case (Cons a xs)
  let ?E = "\<exists>pre s post. xs = pre @ s # post \<and> (\<forall>x \<in> set pre. wildcard_fine x)
              \<and> wildcard_fault s post e"
  from Cons.prems have IH: "try_for_each (\<lambda>(i, seg).
       if seg = WILDCARD_SINGLE \<or> seg = WILDCARD_MULTI then
         (if seg = WILDCARD_MULTI \<and> i \<noteq> N - 1 then Err MultiWildcardNotTerminal else Ok ())
       else if has_wildcard seg then Err InvalidWildcardUsage
       else Ok ()) (enumerate (Suc n) xs) = Err e \<longleftrightarrow> ?E"
    by (intro Cons.IH) simp
  consider (fine) "wildcard_fine a" | (last) "a = WILDCARD_MULTI" "xs = []"
    | (inner) "a = WILDCARD_MULTI" "xs \<noteq> []"
    | (mixed) "\<not> wildcard_fine a" "a \<noteq> WILDCARD_MULTI"
    by blast
  then show ?case
  proof cases
    case fine
    then have "\<not> wildcard_fault a xs e" and "a \<noteq> WILDCARD_MULTI"
      by (auto simp: wildcard_fault_def wildcard_fine_def)
    with fine IH show ?thesis by (simp add: ex_split_Cons) (auto simp: wildcard_fine_def)
  next
    case last
    with Cons.prems show ?thesis by (auto simp: ex_split_Cons wildcard_fault_def)
  next
    case inner
    with Cons.prems show ?thesis
      by (cases xs) (auto simp: ex_split_Cons wildcard_fault_def wildcard_fine_def)
  next
    case mixed
    then show ?thesis by (auto simp: ex_split_Cons wildcard_fault_def wildcard_fine_def)
  qed
qed

lemma validate_wildcard_placement_Err_iff:
  assumes "layered bs"
  shows "validate_wildcard_placement (layers bs) = Err e \<longleftrightarrow>
    (\<exists>pre s post. layers bs = pre @ s # post \<and> (\<forall>x \<in> set pre. wildcard_fine x)
       \<and> wildcard_fault s post e)"
proof -
  let ?m = "matchable_segments (layers bs)"
  have "validate_wildcard_placement (layers bs) = Err e \<longleftrightarrow>
      (\<exists>pre s post. ?m = pre @ s # post \<and> (\<forall>x \<in> set pre. wildcard_fine x) \<and> wildcard_fault s post e)"
    unfolding validate_wildcard_placement_def Let_def
    by (rule wildcard_loop_first_fault) simp
  moreover have "wildcard_fine GLOBAL_PREFIX" "\<not> wildcard_fault GLOBAL_PREFIX xs e" for xs
    by (simp_all add: wildcard_fine_def wildcard_fault_def)
  ultimately show ?thesis
    by (cases "layers bs") (auto simp: matchable_segments_def ex_split_Cons)
qed

section \<open>The checklist of errors\<close>

text \<open>
  The checks of the two constructors as a list, in the order in which they are reported: the first
  that applies is the error.
\<close>

definition layer_checks :: "bytes \<Rightarrow> (bool \<times> TopicError) list" where
  "layer_checks bs =
     [(bs = [], Empty),
      (256 < length bs, TooLong (length bs)),
      (hd bs = 0x2F, LeadingSlash),
      (last bs = 0x2F, TrailingSlash),
      ([] \<in> set (layers bs), EmptyLayer),
      (8 < length (layers bs), TooManyLayers (length (layers bs))),
      (hd (layers bs) = SYS_PREFIX, ReservedSysPrefix),
      (layers bs = [GLOBAL_PREFIX], GlobalPrefixWithoutTopic)]"

text \<open>The wildcard faults of the layers of a filter, one entry per layer.\<close>

fun wildcard_checks :: "bytes list \<Rightarrow> (bool \<times> TopicError) list" where
  "wildcard_checks [] = []"
| "wildcard_checks (s # ss) =
     [(s = WILDCARD_MULTI \<and> ss \<noteq> [], MultiWildcardNotTerminal),
      (s \<noteq> WILDCARD_SINGLE \<and> s \<noteq> WILDCARD_MULTI \<and> has_wildcard s, InvalidWildcardUsage)] @ wildcard_checks ss"

fun first_applicable :: "'v \<Rightarrow> (bool \<times> 'e) list \<Rightarrow> 'e + 'v" where
  "first_applicable v [] = Ok v"
| "first_applicable v ((c, e) # cs) = (if c then Err e else first_applicable v cs)"

lemma first_applicable_append:
  "first_applicable v (cs @ ds) = and_then (first_applicable v cs) (\<lambda>v. first_applicable v ds)"
  by (induction v cs rule: first_applicable.induct) auto

lemma validate_segments_checks: "validate_segments bs = first_applicable (layers bs) (layer_checks bs)"
proof (cases "bs = []")
  case True
  then show ?thesis by (simp add: validate_segments_def validate_raw_def layer_checks_def)
next
  case False
  have "length (layers bs) < 2 \<longleftrightarrow> layers bs = [hd (layers bs)]"
    by (cases "layers bs") (auto simp: less_Suc_eq)
  then have "(hd (layers bs) = GLOBAL_PREFIX \<and> length (layers bs) < 2) = (layers bs = [GLOBAL_PREFIX])"
    by auto
  moreover have "(\<exists>s \<in> set (layers bs). s = []) = ([] \<in> set (layers bs))" by blast
  ultimately show ?thesis
    using False
    by (simp add: validate_segments_def validate_raw_def layer_checks_def Let_def layers_nth_0
        hd_conv_nth [OF False] last_conv_nth [OF False] MAX_LAYERS_def MAX_TOPIC_LENGTH_def SEP_BYTE_def
        flip: layers_def [unfolded SEP_BYTE_def])
qed

lemma first_applicable_value: "first_applicable v cs = map_ok (\<lambda>_. v) (first_applicable w cs)"
  by (induction w cs rule: first_applicable.induct) auto

lemma first_applicable_other:
  "first_applicable w cs = Err e \<Longrightarrow> first_applicable v cs = Err e"
  "first_applicable w cs = Ok x \<Longrightarrow> first_applicable v cs = Ok v"
  "and_then (first_applicable () cs) (\<lambda>_. Ok v) = first_applicable v cs"
  using first_applicable_value [of v cs w] first_applicable_value [of v cs "()"]
  by (auto simp: result_simps) (cases "first_applicable () cs"; simp)

lemma validate_no_wildcards_checks:
  assumes "layered bs"
  shows "validate_no_wildcards (layers bs)
    = first_applicable () [(0x2B \<in> set bs \<or> 0x23 \<in> set bs, WildcardInPublishTopic)]"
proof -
  have w: "(\<exists>s \<in> set (layers bs). has_wildcard s) \<longleftrightarrow> 0x2B \<in> set bs \<or> 0x23 \<in> set bs"
    using wildcard_byte_layers [of bs] by (simp add: WILDCARD_SINGLE_BYTE_def WILDCARD_MULTI_BYTE_def)
  show ?thesis
  proof (cases "validate_no_wildcards (layers bs)")
    case (Inl e)
    then have "e = WildcardInPublishTopic"
      unfolding validate_no_wildcards_def by (auto dest!: try_for_each_ErrD split: if_splits)
    with Inl w validate_no_wildcards_Ok_iff [OF assms] show ?thesis by fastforce
  next
    case (Inr u)
    with w validate_no_wildcards_Ok_iff [OF assms, of u] show ?thesis by auto
  qed
qed

lemma wildcard_loop_checks:
  "n + length xs = N \<Longrightarrow>
   try_for_each (\<lambda>(i, seg).
       if seg = WILDCARD_SINGLE \<or> seg = WILDCARD_MULTI then
         (if seg = WILDCARD_MULTI \<and> i \<noteq> N - 1 then Err MultiWildcardNotTerminal else Ok ())
       else if has_wildcard seg then Err InvalidWildcardUsage
       else Ok ()) (enumerate n xs) = first_applicable () (wildcard_checks xs)"
proof (induction xs arbitrary: n)
  case (Cons a xs)
  then have "n = N - 1 \<longleftrightarrow> xs = []" by auto
  with Cons.IH [of "Suc n"] Cons.prems show ?case by auto
qed simp

lemma validate_wildcard_placement_checks:
  "validate_wildcard_placement (layers bs) = first_applicable () (wildcard_checks (layers bs))"
proof -
  have "first_applicable () (wildcard_checks (matchable_segments (layers bs)))
      = first_applicable () (wildcard_checks (layers bs))"
    by (cases "layers bs") (auto simp: matchable_segments_def)
  then show ?thesis
    unfolding validate_wildcard_placement_def Let_def
    using wildcard_loop_checks [of 0 "matchable_segments (layers bs)"] by simp
qed

section \<open>Properties\<close>

text \<open>
  C4: \<open>Topic::new\<close> accepts exactly the byte strings of at most 256 bytes and 8 layers, with no
  empty layer (so no leading, trailing or doubled slash), not starting with a \<open>$SYS\<close> layer,
  not \<open>$G\<close> alone, and with no wildcard byte anywhere; it stores them unchanged, and the
  \<open>segments()\<close> iterator of the result yields exactly the layers.
\<close>

theorem Topic_new_characterised:
  "Topic_new bs = Ok t \<longleftrightarrow>
     length bs \<le> 256 \<and> [] \<notin> set (layers bs) \<and> length (layers bs) \<le> 8
     \<and> hd (layers bs) \<noteq> SYS_PREFIX \<and> layers bs \<noteq> [GLOBAL_PREFIX]
     \<and> 0x2B \<notin> set bs \<and> 0x23 \<notin> set bs
     \<and> Topic_as_bytes t = bs \<and> Topic_segments t = layers bs"
proof -
  have "topic_spec bs \<longleftrightarrow> layered bs \<and> 0x2B \<notin> set bs \<and> 0x23 \<notin> set bs"
    by (simp add: topic_spec_def WILDCARD_SINGLE_BYTE_def WILDCARD_MULTI_BYTE_def)
  then show ?thesis
    by (cases t) (auto simp: Topic_new_Ok_iff Topic_segments_layers layered_def
        MAX_LAYERS_def MAX_TOPIC_LENGTH_def)
qed

text \<open>
  C19: \<open>TopicFilter::new\<close> accepts exactly the well-layered byte strings in which every layer is
  \<open>+\<close>, or \<open>#\<close> in the last place, or contains no wildcard byte; \<open>segments()\<close> of the result
  yields exactly the layers.
\<close>

theorem TopicFilter_new_characterised:
  "TopicFilter_new bs = Ok f \<longleftrightarrow>
     layered bs
     \<and> (\<forall>i < length (layers bs). layers bs ! i = WILDCARD_SINGLE
          \<or> layers bs ! i = WILDCARD_MULTI \<and> i = length (layers bs) - 1
          \<or> \<not> has_wildcard (layers bs ! i))
     \<and> TopicFilter_as_bytes f = bs \<and> TopicFilter_segments f = layers bs"
proof -
  have "filter_spec bs \<longleftrightarrow> layered bs \<and> (\<forall>i < length (layers bs). layers bs ! i = WILDCARD_SINGLE
          \<or> layers bs ! i = WILDCARD_MULTI \<and> i = length (layers bs) - 1
          \<or> \<not> has_wildcard (layers bs ! i))"
    unfolding filter_spec_def hash_not_before_last [symmetric] all_set_conv_all_nth
    using has_wildcard_consts(2) wildcard_consts_distinct(2) by metis
  then show ?thesis
    by (cases f) (auto simp: TopicFilter_new_Ok_iff TopicFilter_segments_layers)
qed

theorem TopicFilter_new_characterised_witness:
  "TopicFilter_new [0x61, 0x2F, 0x23] = Ok (TopicFilter [0x61, 0x2F, 0x23])
   \<and> TopicFilter_segments (TopicFilter [0x61, 0x2F, 0x23]) = [[0x61], [0x23]]"
proof -
  have l: "layers [0x61, 0x2F, 0x23] = [[0x61], [0x23]]" by (simp add: layers_def topic_consts)
  show ?thesis
    using TopicFilter_new_characterised [of "[0x61, 0x2F, 0x23]" "TopicFilter [0x61, 0x2F, 0x23]"]
    by (simp add: l layered_def TopicFilter_segments_def has_wildcard_def topic_consts less_Suc_eq)
qed

text \<open>
  Round trip. A list of non-empty, slash-free, wildcard-free segments that fits the limits is
  recovered by joining it with slashes, validating it as a topic and splitting it again.
\<close>

theorem topic_join_segments_roundtrip:
  assumes "ss \<noteq> []" and "\<forall>s \<in> set ss. s \<noteq> [] \<and> SEP_BYTE \<notin> set s \<and> \<not> has_wildcard s"
    and "length (join_with SEP_BYTE ss) \<le> 256" and "length ss \<le> 8"
    and "hd ss \<noteq> SYS_PREFIX" and "ss \<noteq> [GLOBAL_PREFIX]"
  shows "map_ok Topic_segments (Topic_new (join_with SEP_BYTE ss)) = Ok ss"
proof -
  have l: "layers (join_with SEP_BYTE ss) = ss"
    using assms(1,2) by (simp add: layers_def slice_split_join)
  have "topic_spec (join_with SEP_BYTE ss)"
    using assms wildcard_byte_layers [of "join_with SEP_BYTE ss"]
    by (auto simp: topic_spec_def layered_def l MAX_LAYERS_def MAX_TOPIC_LENGTH_def)
  then show ?thesis by (simp add: map_ok_Ok_iff Topic_new_Ok_iff Topic_segments_layers l)
qed

theorem topic_join_segments_roundtrip_witness:
  "map_ok Topic_segments (Topic_new (join_with SEP_BYTE [[0x61], [0x62, 0x63]]))
     = Ok [[0x61], [0x62, 0x63]]"
  by (rule topic_join_segments_roundtrip) (simp_all add: topic_consts has_wildcard_def)

text \<open>
  A well-layered filter is refused with the error of its first faulty layer:
  \<open>MultiWildcardNotTerminal\<close> when that layer is a \<open>#\<close> that is not last,
  \<open>InvalidWildcardUsage\<close> when it mixes a wildcard byte with others.
\<close>

theorem TopicFilter_new_first_fault:
  assumes "layered bs"
  shows "TopicFilter_new bs = Err e \<longleftrightarrow>
    (\<exists>pre s post. layers bs = pre @ s # post
       \<and> (\<forall>x \<in> set pre. x = WILDCARD_SINGLE \<or> \<not> has_wildcard x)
       \<and> (s = WILDCARD_MULTI \<and> post \<noteq> [] \<and> e = MultiWildcardNotTerminal
          \<or> s \<noteq> WILDCARD_SINGLE \<and> s \<noteq> WILDCARD_MULTI \<and> has_wildcard s
             \<and> e = InvalidWildcardUsage))"
proof -
  have "validate_segments bs = Ok (layers bs)" using assms by (simp add: validate_segments_Ok_iff)
  then have "TopicFilter_new bs = Err e \<longleftrightarrow> validate_wildcard_placement (layers bs) = Err e"
    by (auto simp: TopicFilter_new_def and_then_Err_iff)
  then show ?thesis
    by (simp add: validate_wildcard_placement_Err_iff [OF assms] wildcard_fine_def wildcard_fault_def)
qed

theorem TopicFilter_new_first_fault_witness:
  "layered [0x23, 0x2F, 0x62]
   \<and> TopicFilter_new [0x23, 0x2F, 0x62] = Err MultiWildcardNotTerminal"
proof -
  have l: "layered [0x23, 0x2F, 0x62]" by (simp add: layered_def layers_def topic_consts)
  have "layers [0x23, 0x2F, 0x62] = [] @ [0x23] # [[0x62]]" by (simp add: layers_def topic_consts)
  with TopicFilter_new_first_fault [OF l, of MultiWildcardNotTerminal]
  have "TopicFilter_new [0x23, 0x2F, 0x62] = Err MultiWildcardNotTerminal"
    by (metis WILDCARD_MULTI_def list.distinct(1) empty_iff list.set(1))
  with l show ?thesis by simp
qed

text \<open>
  C27: Both constructors report the first applicable error of a fixed checklist, and succeed exactly when
  none applies. The list goes: empty, too long, leading slash, trailing slash, empty layer, too many
  layers, reserved \<open>$SYS\<close>, \<open>$G\<close> alone; then for a topic any wildcard byte, and for a filter, layer by
  layer from the left, a \<open>#\<close> that is not last or a layer that mixes a wildcard with other bytes.
\<close>

theorem topic_errors_by_checklist:
  "Topic_new bs = first_applicable (Topic bs)
     (layer_checks bs @ [(0x2B \<in> set bs \<or> 0x23 \<in> set bs, WildcardInPublishTopic)])
   \<and> TopicFilter_new bs = first_applicable (TopicFilter bs) (layer_checks bs @ wildcard_checks (layers bs))"
proof (cases "validate_segments bs")
  case (Inl e)
  note err = first_applicable_other(1) [OF Inl [unfolded validate_segments_checks]]
  show ?thesis by (simp add: Topic_new_def TopicFilter_new_def Inl first_applicable_append err)
next
  case (Inr segs)
  then have l: "layered bs" "segs = layers bs" by (simp_all add: validate_segments_Ok_iff)
  note ok = first_applicable_other(2) [OF Inr [unfolded validate_segments_checks]]
  show ?thesis
    unfolding Topic_new_def TopicFilter_new_def Inr l(2) and_then.simps validate_no_wildcards_checks [OF l(1)]
      validate_wildcard_placement_checks first_applicable_other(3) first_applicable_append ok by simp
qed

end
