(* ===== verification/Client_Id.thy ===== *)
theory Client_Id
  imports Ocypode_Prelude
begin

text \<open>
  The client identifiers of \<open>crates/server/src/client.rs\<close>: a newtype over \<open>u64\<close>, drawn from
  the process-wide atomic counter. \<open>fetch_add\<close> is one atomic step: it returns the old value
  and stores the successor, modulo \<open>2 ^ 64\<close>.
\<close>

datatype ClientId = ClientId (client_id_value: u64)

definition CLIENT_ID_COUNTER_init :: u64 where
  "CLIENT_ID_COUNTER_init = 1"

definition ClientId_new :: "u64 \<Rightarrow> ClientId \<times> u64" where
  "ClientId_new counter = (ClientId counter, counter + 1)"

definition ClientId_fmt :: "ClientId \<Rightarrow> string" where
  "ClientId_fmt c = show_nat (unat (client_id_value c))"

text \<open>
  A run of the process allocates identifiers one \<open>fetch_add\<close> after another, whichever tasks
  the calls come from: the atomic operations are totally ordered.
\<close>

fun allocate :: "nat \<Rightarrow> u64 \<Rightarrow> ClientId list \<times> u64" where
  "allocate 0 counter = ([], counter)"
| "allocate (Suc n) counter =
     (let (c, counter1) = ClientId_new counter; (cs, counter2) = allocate n counter1
      in (c # cs, counter2))"

lemma allocate_eq:
  "allocate n counter = (map (\<lambda>i. ClientId (counter + of_nat i)) [0..<n], counter + of_nat n)"
proof (induction n arbitrary: counter)
  case 0
  then show ?case by simp
next
  case (Suc n)
  have "map (\<lambda>i. ClientId (counter + of_nat i)) [0..<Suc n]
      = ClientId counter # map (\<lambda>i. ClientId (counter + of_nat i)) (map Suc [0..<n])"
    by (simp add: upt_conv_Cons map_Suc_upt del: upt_Suc)
  also have "map (\<lambda>i. ClientId (counter + of_nat i)) (map Suc [0..<n])
      = map (\<lambda>i. ClientId (counter + 1 + of_nat i)) [0..<n]"
    by (simp add: add.assoc)
  finally show ?case
    using Suc.IH [of "counter + 1"] by (simp add: ClientId_new_def add.assoc)
qed

lemma of_nat_u64_inj: "inj_on (of_nat :: nat \<Rightarrow> u64) {0..<2 ^ 64}"
proof (rule inj_onI)
  fix i j :: nat
  assume "i \<in> {0..<2 ^ 64}" "j \<in> {0..<2 ^ 64}" and "(of_nat i :: u64) = of_nat j"
  then have "unat (of_nat i :: u64) = i" "unat (of_nat j :: u64) = j" and "i mod 2 ^ 64 = j mod 2 ^ 64"
    by (simp_all add: unat_of_nat word_unat_eq_iff)
  with \<open>i \<in> _\<close> \<open>j \<in> _\<close> show "i = j" by simp
qed

text \<open>
  The first \<open>2 ^ 64\<close> identifiers handed out by the process are pairwise distinct, however
  the connections that ask for them interleave, and the first \<open>2 ^ 64 - 1\<close> of them are non-zero
  (what a client checks in the \<open>INFO\<close> message). The counter then wraps to \<open>0\<close>.
\<close>

theorem client_ids_unique_nonzero:
  assumes "n \<le> 2 ^ 64"
  shows "distinct (fst (allocate n CLIENT_ID_COUNTER_init))
    \<and> (\<forall>i < n. fst (allocate n CLIENT_ID_COUNTER_init) ! i = ClientId 0 \<longleftrightarrow> i = 2 ^ 64 - 1)"
proof -
  have inj: "inj_on (of_nat :: nat \<Rightarrow> u64) (set [0..<n])"
    by (rule inj_on_subset [OF of_nat_u64_inj]) (use assms in auto)
  then have "inj_on (\<lambda>i. ClientId (1 + of_nat i)) (set [0..<n])"
    by (auto simp: inj_on_def)
  then have dist: "distinct (fst (allocate n CLIENT_ID_COUNTER_init))"
    by (simp add: allocate_eq CLIENT_ID_COUNTER_init_def distinct_map)
  have "(1 + of_nat i :: u64) = 0 \<longleftrightarrow> i = 2 ^ 64 - 1" if "i < n" for i
  proof -
    have "(1 + of_nat i :: u64) = of_nat (Suc i)" by simp
    then have "(1 + of_nat i :: u64) = 0 \<longleftrightarrow> 2 ^ 64 dvd Suc i"
      by (simp only: word_of_nat_eq_0_iff) simp
    also have "\<dots> \<longleftrightarrow> Suc i = 2 ^ 64"
      using that assms by (metis Suc_leI dvd_imp_le dvd_refl le_antisym le_trans zero_less_Suc)
    also have "\<dots> \<longleftrightarrow> i = 2 ^ 64 - 1" by auto
    finally show ?thesis .
  qed
  then show ?thesis using dist by (simp add: allocate_eq CLIENT_ID_COUNTER_init_def)
qed

theorem client_ids_unique_nonzero_witness:
  "distinct (fst (allocate 3 CLIENT_ID_COUNTER_init))
   \<and> fst (allocate 3 CLIENT_ID_COUNTER_init) = [ClientId 1, ClientId 2, ClientId 3]"
  using client_ids_unique_nonzero [of 3]
  by (simp add: allocate_eq CLIENT_ID_COUNTER_init_def upt_rec)

end
