(* ===== verification/Router.thy ===== *)
theory Router
  imports Topic Client_Id
begin

text \<open>
  \<open>crates/server/src/router.rs\<close>: the subscription trie. A node holds its level, the
  subscriptions that end at it, its queue groups and its children, with two flags that say
  whether a wildcard child exists. This theory holds the data, the operations in the order the
  source has them, and the basic lemmas; \<open>Router_Spec\<close> proves what they implement.

  The channel sender \<open>Sender<Bytes>\<close> is opaque here: the type parameter \<open>'tx\<close>. Hash maps are
  association lists with distinct keys. The \<open>DashMap\<close> from keys to filters is a map.
\<close>

section \<open>Data\<close>

record SubscriptionKey =
  key_client_id :: ClientId
  key_subscription_id :: u32

record 'tx Subscription =
  sub_subscription_id :: u32
  sub_tx :: 'tx

record 'tx SubscriptionResponse =
  subscription_list :: "(ClientId \<times> 'tx Subscription) list"
  queue_group_list :: "(ClientId \<times> 'tx Subscription) list list"

definition SubscriptionKey_new :: "ClientId \<Rightarrow> u32 \<Rightarrow> SubscriptionKey" where
  "SubscriptionKey_new client_id subscription_id =
     \<lparr>key_client_id = client_id, key_subscription_id = subscription_id\<rparr>"

type_synonym 'tx SubscriptionMap = "(SubscriptionKey \<times> 'tx) list"

type_synonym SubscriptionKV = "SubscriptionKey \<rightharpoonup> TopicFilter"

datatype 'tx Node = Node
  (level: bytes)
  (subscription_map: "'tx SubscriptionMap")
  (queue_group_map: "(bytes \<times> 'tx SubscriptionMap) list")
  (children: "'tx Node list option")
  (has_wildcard_single: bool)
  (has_wildcard_multi: bool)

definition Node_default :: "'tx Node" where
  "Node_default = Node [] [] [] None False False"

record 'tx Router =
  root :: "'tx Node"
  subscription_kv :: SubscriptionKV

definition Router_new :: "'tx Router" where
  "Router_new = \<lparr>root = Node_default, subscription_kv = Map.empty\<rparr>"

definition Router_default :: "'tx Router" where
  "Router_default = Router_new"

text \<open>\<open>Router::subscription_kv\<close> hands out the shared map, here its current value.\<close>

definition Router_subscription_kv :: "'tx Router \<Rightarrow> SubscriptionKV" where
  "Router_subscription_kv r = subscription_kv r"

section \<open>Insertion\<close>

text \<open>
  \<open>Node { level: segment, ..Node::default() }\<close>.
\<close>

definition Node_at_level :: "bytes \<Rightarrow> 'tx Node" where
  "Node_at_level segment = Node segment [] [] None False False"

text \<open>
  The descent of \<open>insert\<close>: for each segment set the wildcard flag of the current node, find or
  push the child for the segment and go on there; at the end of the path store the sender.
\<close>

fun insert_path :: "SubscriptionKey \<Rightarrow> 'tx \<Rightarrow> bytes list \<Rightarrow> 'tx Node \<Rightarrow> 'tx Node" where
  "insert_path key tx [] (Node l sm qm ch ws wm) = Node l (AList.update key tx sm) qm ch ws wm"
| "insert_path key tx (segment # rest) (Node l sm qm ch ws wm) =
     (let ws1 = (if segment = WILDCARD_SINGLE then True else ws);
          wm1 = (if segment = WILDCARD_SINGLE then wm
                 else if segment = WILDCARD_MULTI then True else wm);
          children0 = (case ch of Some cs \<Rightarrow> cs | None \<Rightarrow> []);
          (children1, child_idx) =
            (case position (\<lambda>n. level n = segment) children0 of
               Some pos \<Rightarrow> (children0, pos)
             | None \<Rightarrow> (let pushed = children0 @ [Node_at_level segment]
                        in (pushed, length pushed - 1)))
      in Node l sm qm
           (Some (children1[child_idx := insert_path key tx rest (children1 ! child_idx)])) ws1 wm1)"

definition router_insert :: "'tx \<Rightarrow> ClientId \<Rightarrow> u32 \<Rightarrow> TopicFilter \<Rightarrow> 'tx Router \<Rightarrow> 'tx Router" where
  "router_insert tx client_id subscription_id topic r =
     (let key = SubscriptionKey_new client_id subscription_id in
      \<lparr>root = insert_path key tx (TopicFilter_segments topic) (root r),
       subscription_kv = (subscription_kv r)(key \<mapsto> topic)\<rparr>)"

section \<open>Search\<close>

definition to_subscription :: "SubscriptionKey \<times> 'tx \<Rightarrow> ClientId \<times> 'tx Subscription" where
  "to_subscription e =
     (key_client_id (fst e), \<lparr>sub_subscription_id = key_subscription_id (fst e), sub_tx = snd e\<rparr>)"

type_synonym 'tx hits =
  "(ClientId \<times> 'tx Subscription) list \<times> (ClientId \<times> 'tx Subscription) list list"

text \<open>\<open>collect_node\<close> appends the node's subscriptions and queue groups to the two result lists.\<close>

definition collect_node :: "'tx Node \<Rightarrow> 'tx hits \<Rightarrow> 'tx hits" where
  "collect_node node acc =
     (fst acc @ map to_subscription (subscription_map node),
      snd acc @ map (\<lambda>(_, group). map to_subscription group) (queue_group_map node))"

definition multi_child :: "'tx Node \<Rightarrow> 'tx Node option" where
  "multi_child node =
     (if has_wildcard_multi node
      then Option.bind (children node) (find (\<lambda>n. level n = WILDCARD_MULTI)) else None)"

lemma size_children:
  "children node = Some cs \<Longrightarrow> sum_list (map size (filter P cs)) < size node"
proof (cases node)
  case (Node l sm qm ch ws wm)
  assume "children node = Some cs"
  have "sum_list (map size (filter P cs)) \<le> sum_list (map size cs)"
    by (induction cs) auto
  with Node \<open>children node = Some cs\<close> show ?thesis by (simp add: size_list_conv_sum_list)
qed

text \<open>
  The stack of \<open>(node, remaining)\<close> pairs, its top first: pushing the matching children in
  order leaves the last one on top.
\<close>

function search_loop :: "('tx Node \<times> bytes list) list \<Rightarrow> 'tx hits \<Rightarrow> 'tx hits" where
  "search_loop [] acc = acc"
| "search_loop ((node, remaining) # stack) acc =
     (let acc1 = (case multi_child node of Some m \<Rightarrow> collect_node m acc | None \<Rightarrow> acc) in
      case remaining of
        [] \<Rightarrow> search_loop stack (collect_node node acc1)
      | segment # rest \<Rightarrow>
          (case children node of
             None \<Rightarrow> search_loop stack acc1
           | Some cs \<Rightarrow>
               search_loop
                 (rev (map (\<lambda>child. (child, rest))
                        (filter (\<lambda>child. level child = segment \<or> level child = WILDCARD_SINGLE) cs))
                  @ stack) acc1))"
  by pat_completeness auto
termination
proof (relation "measure (\<lambda>(stack, _). sum_list (map (\<lambda>(n, _). size n) stack))", goal_cases)
  case 1
  show ?case by simp
next
  case (2 node remaining stack acc acc1)
  then show ?case by (cases node) auto
next
  case (3 node remaining stack acc acc1 segment rest)
  then show ?case by (cases node) auto
next
  case (4 node remaining stack acc acc1 segment rest cs)
  then show ?case
    using size_children [of node cs "\<lambda>child. level child = segment \<or> level child = WILDCARD_SINGLE"]
    by (simp add: rev_map [symmetric] sum_list_rev o_def del: rev_map)
qed

definition router_search :: "Topic \<Rightarrow> 'tx Router \<Rightarrow> 'tx SubscriptionResponse" where
  "router_search topic r =
     (let (sl, ql) = search_loop [(root r, Topic_segments topic)] ([], [])
      in \<lparr>subscription_list = sl, queue_group_list = ql\<rparr>)"

section \<open>Deletion\<close>

text \<open>
  The first pass of \<open>delete\<close>: the child indices along the filter's segments, \<open>None\<close> for the
  early returns.
\<close>

fun locate :: "'tx Node \<Rightarrow> bytes list \<Rightarrow> nat list option" where
  "locate node [] = Some []"
| "locate node (segment # rest) =
     (case children node of
        None \<Rightarrow> None
      | Some cs \<Rightarrow>
          (case position (\<lambda>n. level n = segment) cs of
             None \<Rightarrow> None
           | Some idx \<Rightarrow> map_option ((#) idx) (locate (cs ! idx) rest)))"

definition set_children :: "'tx Node list option \<Rightarrow> 'tx Node \<Rightarrow> 'tx Node" where
  "set_children ch n = Node (level n) (subscription_map n) (queue_group_map n) ch
     (has_wildcard_single n) (has_wildcard_multi n)"

text \<open>
  Following a path of indices and changing the node at its end.
  \<open>node.children.as_mut().unwrap()[idx]\<close> panics when there are no children or the index is out
  of range: the result is then \<open>None\<close>. The body may return a value beside the new node.
\<close>

fun modify_at :: "nat list \<Rightarrow> ('tx Node \<Rightarrow> ('tx Node \<times> 'a) option) \<Rightarrow> 'tx Node
    \<Rightarrow> ('tx Node \<times> 'a) option" where
  "modify_at [] f node = f node"
| "modify_at (idx # path) f node =
     (case children node of
        None \<Rightarrow> None
      | Some cs \<Rightarrow>
          if idx < length cs
          then map_option (\<lambda>(child, a). (set_children (Some (cs[idx := child])) node, a))
                 (modify_at path f (cs ! idx))
          else None)"

definition remove_subscription :: "SubscriptionKey \<Rightarrow> 'tx Node \<Rightarrow> ('tx Node \<times> unit) option" where
  "remove_subscription key n =
     Some (Node (level n) (AList.delete key (subscription_map n)) (queue_group_map n) (children n)
       (has_wildcard_single n) (has_wildcard_multi n), ())"

definition prunable :: "'tx Node \<Rightarrow> bool" where
  "prunable child \<longleftrightarrow>
     subscription_map child = [] \<and> queue_group_map child = [] \<and> children child = None"

text \<open>
  The body of the third pass at one depth: remove the child if it is empty, refresh the flag of
  its wildcard and drop an empty child vector. The returned flag says whether the loop goes on
  (\<open>False\<close> is the \<open>break\<close>).
\<close>

definition prune_child :: "nat \<Rightarrow> 'tx Node \<Rightarrow> ('tx Node \<times> bool) option" where
  "prune_child idx node =
     (case children node of
        None \<Rightarrow> None
      | Some cs \<Rightarrow>
          if idx < length cs then
            (if prunable (cs ! idx) then
               (let removed = level (cs ! idx);
                    rest = vec_remove idx cs;
                    ws = (if removed = WILDCARD_SINGLE
                          then \<exists>n \<in> set rest. level n = WILDCARD_SINGLE
                          else has_wildcard_single node);
                    wm = (if removed = WILDCARD_SINGLE then has_wildcard_multi node
                          else if removed = WILDCARD_MULTI
                          then \<exists>n \<in> set rest. level n = WILDCARD_MULTI
                          else has_wildcard_multi node)
                in Some (Node (level node) (subscription_map node) (queue_group_map node)
                     (if rest = [] then None else Some rest) ws wm, True))
             else Some (node, False))
          else None)"

text \<open>\<open>for depth in (0..path.len()).rev()\<close>, with the first \<open>d\<close> depths still to do.\<close>

fun prune_loop :: "nat list \<Rightarrow> nat \<Rightarrow> 'tx Node \<Rightarrow> 'tx Node option" where
  "prune_loop path 0 node = Some node"
| "prune_loop path (Suc depth) node =
     (case modify_at (take depth path) (prune_child (path ! depth)) node of
        None \<Rightarrow> None
      | Some (node1, True) \<Rightarrow> prune_loop path depth node1
      | Some (node1, False) \<Rightarrow> Some node1)"

text \<open>\<open>Router::delete\<close>; \<open>None\<close> is a panic.\<close>

definition router_delete :: "SubscriptionKey \<Rightarrow> 'tx Router \<Rightarrow> 'tx Router option" where
  "router_delete key r =
     (case subscription_kv r key of
        None \<Rightarrow> Some r
      | Some topic \<Rightarrow>
          (case locate (root r) (TopicFilter_segments topic) of
             None \<Rightarrow> Some r
           | Some path \<Rightarrow>
               (case modify_at path (remove_subscription key) (root r) of
                  None \<Rightarrow> None
                | Some (root1, _) \<Rightarrow>
                    (case prune_loop path (length path) root1 of
                       None \<Rightarrow> None
                     | Some root2 \<Rightarrow>
                         Some \<lparr>root = root2,
                               subscription_kv = (subscription_kv r)(key := None)\<rparr>))))"

end
