(* ===== verification/Router_Spec.thy ===== *)
theory Router_Spec
  imports Router
begin

text \<open>
  What the subscription trie implements. \<open>entries\<close> reads a node as the list of its
  subscriptions with the filter segments they were made under; \<open>filter_matches\<close> is the matching
  rule between filter segments and topic segments; \<open>wf_node\<close> is the shape every operation keeps
  (distinct levels, exact wildcard flags, no dead branches). The theory proves the effect of
  insertion, deletion and search on \<open>entries\<close>, node by node.
\<close>

section \<open>Reading a trie\<close>

definition child_list :: "'tx Node \<Rightarrow> 'tx Node list" where
  "child_list n = (case children n of None \<Rightarrow> [] | Some cs \<Rightarrow> cs)"

fun entries :: "'tx Node \<Rightarrow> (bytes list \<times> SubscriptionKey \<times> 'tx) list" where
  "entries (Node l sm qm ch ws wm) =
     map (Pair []) sm @
     (case ch of None \<Rightarrow> []
      | Some cs \<Rightarrow> concat (map (\<lambda>c. map (\<lambda>(p, e). (level c # p, e)) (entries c)) cs))"

text \<open>
  A filter matches a topic when the segments agree one by one, \<open>+\<close> standing for any segment, up
  to a final \<open>#\<close>, which stands for any number of remaining segments, zero included.
\<close>

fun filter_matches :: "bytes list \<Rightarrow> bytes list \<Rightarrow> bool" where
  "filter_matches [] ts \<longleftrightarrow> ts = []"
| "filter_matches (f # fs) ts \<longleftrightarrow>
     (f = WILDCARD_MULTI \<and> fs = [])
     \<or> (case ts of [] \<Rightarrow> False | t # ts' \<Rightarrow> (f = t \<or> f = WILDCARD_SINGLE) \<and> filter_matches fs ts')"

fun wf_node :: "'tx Node \<Rightarrow> bool" where
  "wf_node (Node l sm qm ch ws wm) \<longleftrightarrow>
     distinct (map fst sm) \<and> qm = []
     \<and> (case ch of
          None \<Rightarrow> \<not> ws \<and> \<not> wm
        | Some cs \<Rightarrow> cs \<noteq> [] \<and> distinct (map level cs)
            \<and> (ws \<longleftrightarrow> WILDCARD_SINGLE \<in> level ` set cs) \<and> (wm \<longleftrightarrow> WILDCARD_MULTI \<in> level ` set cs)
            \<and> (\<forall>c \<in> set cs. wf_node c \<and> \<not> prunable c))"

text \<open>The recursive reading of the two mutating passes of \<open>delete\<close>.\<close>

fun delete_path :: "SubscriptionKey \<Rightarrow> bytes list \<Rightarrow> 'tx Node \<Rightarrow> 'tx Node" where
  "delete_path key [] n = fst (the (remove_subscription key n))"
| "delete_path key (segment # rest) n =
     (case position (\<lambda>c. level c = segment) (child_list n) of
        None \<Rightarrow> n
      | Some i \<Rightarrow>
          fst (the (prune_child i (set_children
            (Some ((child_list n)[i := delete_path key rest (child_list n ! i)])) n))))"

section \<open>Basic facts\<close>

named_theorems node_simps \<open>projections of updated nodes\<close>

lemma set_children_simps [simp, node_simps]:
  "level (set_children ch n) = level n"
  "subscription_map (set_children ch n) = subscription_map n"
  "queue_group_map (set_children ch n) = queue_group_map n"
  "children (set_children ch n) = ch"
  "has_wildcard_single (set_children ch n) = has_wildcard_single n"
  "has_wildcard_multi (set_children ch n) = has_wildcard_multi n"
  "set_children ch (set_children ch' n) = set_children ch n"
  by (simp_all add: set_children_def)

lemma set_children_same [simp]: "children n = ch \<Longrightarrow> set_children ch n = n"
  by (cases n) (simp add: set_children_def)

lemma child_list_simps [simp]:
  "children n = Some cs \<Longrightarrow> child_list n = cs" "children n = None \<Longrightarrow> child_list n = []"
  by (simp_all add: child_list_def)

lemma child_list_set_children [simp]: "child_list (set_children (Some cs) n) = cs"
  by (simp add: child_list_def)

lemma child_list_Node [simp]:
  "child_list (Node l sm qm (Some cs) ws wm) = cs"
  "child_list (Node l sm qm None ws wm) = []"
  "child_list (Node l sm qm (children n) ws wm) = child_list n"
  by (simp_all add: child_list_def)

lemma wf_node_iff:
  "wf_node n \<longleftrightarrow> distinct (map fst (subscription_map n)) \<and> queue_group_map n = []
     \<and> children n \<noteq> Some [] \<and> distinct (map level (child_list n))
     \<and> (has_wildcard_single n \<longleftrightarrow> WILDCARD_SINGLE \<in> level ` set (child_list n))
     \<and> (has_wildcard_multi n \<longleftrightarrow> WILDCARD_MULTI \<in> level ` set (child_list n))
     \<and> (\<forall>c \<in> set (child_list n). wf_node c \<and> \<not> prunable c)"
  by (cases n) (auto simp: child_list_def split: option.splits)

lemma wf_node_child: "wf_node n \<Longrightarrow> c \<in> set (child_list n) \<Longrightarrow> wf_node c"
  by (auto simp: wf_node_iff [of n])

lemma wf_node_groups: "wf_node n \<Longrightarrow> queue_group_map n = []"
  by (simp add: wf_node_iff [of n])

lemma set_entries:
  "set (entries n) = Pair [] ` set (subscription_map n)
     \<union> (\<Union>c \<in> set (child_list n). (\<lambda>(p, e). (level c # p, e)) ` set (entries c))"
  by (cases n; cases "children n") (auto simp: child_list_def)

lemma in_entries_Nil [simp]: "([], e) \<in> set (entries n) \<longleftrightarrow> e \<in> set (subscription_map n)"
  by (subst set_entries) auto

lemma in_entries_Cons [simp]:
  "(s # p, e) \<in> set (entries n) \<longleftrightarrow>
     (\<exists>c \<in> set (child_list n). level c = s \<and> (p, e) \<in> set (entries c))"
  by (subst set_entries) (auto simp: image_iff; force)

lemma Node_at_level_simps [simp]:
  "level (Node_at_level s) = s" "subscription_map (Node_at_level s) = []"
  "queue_group_map (Node_at_level s) = []" "children (Node_at_level s) = None"
  "entries (Node_at_level s) = []" "wf_node (Node_at_level s)"
  by (simp_all add: Node_at_level_def)

lemma Node_default_simps [simp]:
  "entries Node_default = []" "wf_node Node_default" "subscription_map Node_default = []"
  "children Node_default = None" "queue_group_map Node_default = []"
  by (simp_all add: Node_default_def)

declare entries.simps [simp del] wf_node.simps [simp del]

text \<open>Replacing or removing the one child of a level.\<close>

lemma map_level_update: "level x = level (cs ! i) \<Longrightarrow> map level (cs[i := x]) = map level cs"
  by (cases "i < length cs") (simp_all add: map_update list_update_beyond list_update_same_conv)

lemma ex_level_update:
  assumes "distinct (map level cs)" "i < length cs" "level (cs ! i) = s" "level x = s"
  shows "(\<exists>c \<in> set (cs[i := x]). level c = t \<and> P c) \<longleftrightarrow>
           (if t = s then P x else \<exists>c \<in> set cs. level c = t \<and> P c)"
  using distinct_map_vec_remove [OF assms(1,2)] assms(3,4)
  unfolding set_list_update_vec_remove [OF assms(2)] set_conv_vec_remove [OF assms(2)]
  by (auto simp: image_iff)

lemma ex_level_vec_remove:
  assumes "distinct (map level cs)" "i < length cs" "level (cs ! i) = s"
  shows "(\<exists>c \<in> set (vec_remove i cs). level c = t \<and> P c) \<longleftrightarrow>
           t \<noteq> s \<and> (\<exists>c \<in> set cs. level c = t \<and> P c)"
  using distinct_map_vec_remove [OF assms(1,2)] assms(3)
  unfolding set_conv_vec_remove [OF assms(2)] by (auto simp: image_iff)

section \<open>Insertion\<close>

lemma insert_path_level [simp]: "level (insert_path key tx p n) = level n"
  by (cases p; cases n) (auto simp: Let_def split: option.splits)

lemma insert_path_Nil:
  "insert_path key tx [] n = Node (level n) (AList.update key tx (subscription_map n))
     (queue_group_map n) (children n) (has_wildcard_single n) (has_wildcard_multi n)"
  by (cases n) simp

text \<open>
  One descent step in terms of the child vector: the slot of the segment exists after it, and only
  that slot and the flags change.
\<close>

definition slot_children :: "bytes \<Rightarrow> 'tx Node \<Rightarrow> 'tx Node list" where
  "slot_children segment n =
     (case position (\<lambda>c. level c = segment) (child_list n) of
        Some _ \<Rightarrow> child_list n | None \<Rightarrow> child_list n @ [Node_at_level segment])"

definition slot :: "bytes \<Rightarrow> 'tx Node \<Rightarrow> nat" where
  "slot segment n =
     (case position (\<lambda>c. level c = segment) (child_list n) of
        Some i \<Rightarrow> i | None \<Rightarrow> length (child_list n))"

lemma insert_path_Cons:
  "insert_path key tx (segment # rest) n =
     Node (level n) (subscription_map n) (queue_group_map n)
       (Some ((slot_children segment n)[slot segment n :=
          insert_path key tx rest (slot_children segment n ! slot segment n)]))
       (segment = WILDCARD_SINGLE \<or> has_wildcard_single n)
       (segment = WILDCARD_MULTI \<or> has_wildcard_multi n)"
  by (cases n) (auto simp: slot_children_def slot_def child_list_def Let_def split: option.splits)

lemma slot_in_range: "slot segment n < length (slot_children segment n)"
  by (auto simp: slot_def slot_children_def dest: position_SomeD split: option.splits)

lemma slot_level: "level (slot_children segment n ! slot segment n) = segment"
  by (auto simp: slot_def slot_children_def dest: position_SomeD split: option.splits)

lemma slot_children_cases:
  "slot_children segment n = child_list n \<and> segment \<in> level ` set (child_list n)
   \<or> slot_children segment n = child_list n @ [Node_at_level segment]
     \<and> slot segment n = length (child_list n) \<and> segment \<notin> level ` set (child_list n)"
proof (cases "position (\<lambda>c. level c = segment) (child_list n)")
  case None
  then have "segment \<notin> level ` set (child_list n)" by (auto simp: position_None_iff)
  with None show ?thesis by (simp add: slot_def slot_children_def)
next
  case (Some i)
  then have "i < length (child_list n)" "level (child_list n ! i) = segment"
    by (auto dest: position_SomeD)
  then have "segment \<in> level ` set (child_list n)" by force
  with Some show ?thesis by (simp add: slot_children_def)
qed

lemma slot_children_wf:
  assumes "wf_node n"
  shows "distinct (map level (slot_children segment n))"
    and "wf_node (slot_children segment n ! slot segment n)"
    and "\<forall>c \<in> set (child_list n). c \<in> set (slot_children segment n)"
  using assms slot_children_cases [of segment n] nth_mem [OF slot_in_range, of segment n]
  by (auto simp: wf_node_iff [of n])

lemma ex_slot_children:
  "wf_node n \<Longrightarrow>
   (\<exists>c \<in> set (slot_children segment n). level c = s \<and> (p, e) \<in> set (entries c)) \<longleftrightarrow>
   (\<exists>c \<in> set (child_list n). level c = s \<and> (p, e) \<in> set (entries c))"
  using slot_children_cases [of segment n] by auto

lemma entries_slot:
  assumes "wf_node n"
  shows "(p, e) \<in> set (entries (slot_children segment n ! slot segment n)) \<longleftrightarrow>
         (segment # p, e) \<in> set (entries n)"
proof -
  let ?cs = "slot_children segment n" and ?i = "slot segment n"
  have "(\<exists>c \<in> set (?cs[?i := ?cs ! ?i]). level c = segment \<and> (p, e) \<in> set (entries c)) \<longleftrightarrow>
        (p, e) \<in> set (entries (?cs ! ?i))"
    by (subst ex_level_update [OF slot_children_wf(1) [OF assms] slot_in_range slot_level slot_level])
      simp
  then show ?thesis using ex_slot_children [OF assms] by simp
qed

lemma in_entries_insert_path:
  "wf_node n \<Longrightarrow>
   (q, e) \<in> set (entries (insert_path key tx p n)) \<longleftrightarrow>
     q = p \<and> e = (key, tx) \<or> (q, e) \<in> set (entries n) \<and> \<not> (q = p \<and> fst e = key)"
proof (induction p arbitrary: n q)
  case Nil
  show ?case
  proof (cases q)
    case Nil
    with \<open>wf_node n\<close> show ?thesis
      by (auto simp: insert_path_Nil wf_node_iff [of n] set_AList_update)
  next
    case (Cons s q')
    then show ?thesis by (simp add: insert_path_Nil)
  qed
next
  case (Cons segment rest)
  let ?cs = "slot_children segment n" and ?i = "slot segment n"
  note IH = Cons.IH [OF slot_children_wf(2) [OF Cons.prems], of _ segment]
  show ?case
  proof (cases q)
    case Nil
    then show ?thesis by (simp add: insert_path_Cons)
  next
    case (Cons s q')
    have "(q, e) \<in> set (entries (insert_path key tx (segment # rest) n)) \<longleftrightarrow>
        (\<exists>c \<in> set (?cs[?i := insert_path key tx rest (?cs ! ?i)]). level c = s \<and> (q', e) \<in> set (entries c))"
      by (simp add: Cons insert_path_Cons)
    also have "\<dots> \<longleftrightarrow> (if s = segment then (q', e) \<in> set (entries (insert_path key tx rest (?cs ! ?i)))
        else (s # q', e) \<in> set (entries n))"
      using ex_level_update [OF slot_children_wf(1) [OF Cons.prems] slot_in_range slot_level]
        slot_level [of segment n] ex_slot_children [OF Cons.prems] by simp
    finally show ?thesis
      using IH [of q'] entries_slot [OF Cons.prems, of q' e segment] Cons by auto
  qed
qed

lemma insert_path_not_prunable: "\<not> prunable (insert_path key tx p n)"
  by (cases p) (simp_all add: prunable_def insert_path_Nil insert_path_Cons)

lemma wf_insert_path: "wf_node n \<Longrightarrow> wf_node (insert_path key tx p n)"
proof (induction p arbitrary: n)
  case Nil
  then show ?case
    by (auto simp: insert_path_Nil wf_node_iff [of n] wf_node_iff [of "Node _ _ _ _ _ _"]
        distinct_update)
next
  case (Cons segment rest)
  let ?cs = "slot_children segment n" and ?i = "slot segment n"
  let ?x = "insert_path key tx rest (?cs ! ?i)"
  have x: "wf_node ?x" "\<not> prunable ?x"
    by (intro Cons.IH slot_children_wf(2) Cons.prems, rule insert_path_not_prunable)
  have levels: "level ` set (?cs[?i := ?x]) = insert segment (level ` set (child_list n))"
  proof -
    have "level ` set (?cs[?i := ?x]) = set (map level ?cs)"
      by (metis list.set_map map_level_update insert_path_level)
    then show ?thesis using slot_children_cases [of segment n] by auto
  qed
  have others: "c = ?x \<or> c \<in> set (child_list n)" if "c \<in> set (?cs[?i := ?x])" for c
    using that slot_children_cases [of segment n]
    by (auto simp: list_update_append dest: set_update_subset_insert [THEN subsetD])
  have "distinct (map level (?cs[?i := ?x]))"
    using slot_children_wf(1) [OF Cons.prems] by (simp add: map_level_update)
  moreover have "?cs[?i := ?x] \<noteq> []" using slot_in_range [of segment n] by auto
  ultimately show ?case
    using Cons.prems levels others x
    by (auto simp: insert_path_Cons wf_node_iff [of n] wf_node_iff [of "Node _ _ _ _ _ _"])
qed

section \<open>Deletion: the loops and their recursive reading\<close>

text \<open>The pruning loop, with a flag that tells whether it reached the root without a \<open>break\<close>.\<close>

fun prune_loop_flag :: "nat list \<Rightarrow> nat \<Rightarrow> 'tx Node \<Rightarrow> ('tx Node \<times> bool) option" where
  "prune_loop_flag path 0 node = Some (node, True)"
| "prune_loop_flag path (Suc depth) node =
     (case modify_at (take depth path) (prune_child (path ! depth)) node of
        None \<Rightarrow> None
      | Some (node1, True) \<Rightarrow> prune_loop_flag path depth node1
      | Some (node1, False) \<Rightarrow> Some (node1, False))"

lemma prune_loop_flag: "prune_loop path d n = map_option fst (prune_loop_flag path d n)"
  by (induction path d n rule: prune_loop.induct) (auto split: option.splits bool.splits)

text \<open>The loop below a child runs first; the step at the root comes last.\<close>

lemma prune_loop_flag_Cons:
  assumes "i < length cs"
  shows "children n = Some cs \<Longrightarrow>
   prune_loop_flag (i # path) (Suc d) n =
     (case prune_loop_flag path d (cs ! i) of
        None \<Rightarrow> None
      | Some (c, True) \<Rightarrow> prune_child i (set_children (Some (cs[i := c])) n)
      | Some (c, False) \<Rightarrow> Some (set_children (Some (cs[i := c])) n, False))"
  using assms
proof (induction d arbitrary: n cs)
  case 0
  then show ?case by (auto split: option.splits bool.splits)
next
  case (Suc d)
  show ?case
  proof (cases "modify_at (take d path) (prune_child (path ! d)) (cs ! i)")
    case None
    with Suc.prems show ?thesis by simp
  next
    case (Some r)
    obtain c b where r: "r = (c, b)" by (cases r)
    let ?n1 = "set_children (Some (cs[i := c])) n"
    show ?thesis
    proof (cases b)
      case True
      with Some r Suc.prems
      have "prune_loop_flag (i # path) (Suc (Suc d)) n = prune_loop_flag (i # path) (Suc d) ?n1"
        by simp
      also have "\<dots> = (case prune_loop_flag path d c of
          None \<Rightarrow> None
        | Some (c', True) \<Rightarrow> prune_child i (set_children (Some (cs[i := c'])) n)
        | Some (c', False) \<Rightarrow> Some (set_children (Some (cs[i := c'])) n, False))"
        using Suc.IH [of ?n1 "cs[i := c]"] Suc.prems
        by (simp del: prune_loop_flag.simps split: option.splits bool.splits)
      finally show ?thesis using Some r True by simp
    next
      case False
      with Some r Suc.prems show ?thesis by simp
    qed
  qed
qed

lemma prune_child_in_range:
  "children n = Some cs \<Longrightarrow> i < length cs \<Longrightarrow>
     prune_child i n = Some (fst (the (prune_child i n)), prunable (cs ! i))"
  by (auto simp: prune_child_def Let_def)

lemma prune_child_not_prunable:
  "children n = Some cs \<Longrightarrow> i < length cs \<Longrightarrow> \<not> prunable (cs ! i) \<Longrightarrow> prune_child i n = Some (n, False)"
  by (simp add: prune_child_def)

lemma prunable_set_children [simp]: "\<not> prunable (set_children (Some cs) n)"
  by (simp add: prunable_def)

text \<open>Both passes succeed on a located path and together compute \<open>delete_path\<close>.\<close>

lemma delete_loops_eq_delete_path:
  "locate n p = Some path \<Longrightarrow>
   \<exists>n1 b. modify_at path (remove_subscription key) n = Some (n1, ())
     \<and> prune_loop_flag path (length path) n1 = Some (delete_path key p n, b)
     \<and> (b \<or> \<not> prunable (delete_path key p n))"
proof (induction p arbitrary: n path)
  case Nil
  then show ?case by (auto simp: remove_subscription_def)
next
  case (Cons segment rest)
  from Cons.prems obtain cs i path' where
    cs: "children n = Some cs" and pos: "position (\<lambda>c. level c = segment) cs = Some i"
    and loc: "locate (cs ! i) rest = Some path'" and path: "path = i # path'"
    by (auto split: option.splits)
  from pos have i: "i < length cs" by (auto dest: position_SomeD)
  let ?d = "delete_path key rest (cs ! i)" and ?n2 = "\<lambda>c. set_children (Some (cs[i := c])) n"
  obtain c1 b where
    m: "modify_at path' (remove_subscription key) (cs ! i) = Some (c1, ())"
    and l: "prune_loop_flag path' (length path') c1 = Some (?d, b)"
    and b: "b \<or> \<not> prunable ?d"
    using Cons.IH [OF loc] by blast
  have dp: "delete_path key (segment # rest) n = fst (the (prune_child i (?n2 ?d)))"
    using cs pos by simp
  have "prune_loop_flag path (length path) (?n2 c1) =
      (if b then prune_child i (?n2 ?d) else Some (?n2 ?d, False))"
    using prune_loop_flag_Cons [of i "cs[i := c1]" "?n2 c1" path' "length path'"] i l path
    by (simp del: prune_loop_flag.simps split: bool.splits)
  also have "\<dots> = Some (delete_path key (segment # rest) n, prunable ?d)"
    using prune_child_in_range [of "?n2 ?d" "cs[i := ?d]" i] b i
      prune_child_not_prunable [of "?n2 ?d" "cs[i := ?d]" i] by (auto simp: dp simp del: delete_path.simps)
  finally have "prune_loop_flag path (length path) (?n2 c1) = Some (delete_path key (segment # rest) n, prunable ?d)" .
  moreover have "\<not> prunable ?d \<Longrightarrow> \<not> prunable (delete_path key (segment # rest) n)"
    using prune_child_not_prunable [of "?n2 ?d" "cs[i := ?d]" i] i by (simp add: dp del: delete_path.simps)
  moreover have "modify_at path (remove_subscription key) n = Some (?n2 c1, ())"
    using cs i m path by simp
  ultimately show ?case by blast
qed

section \<open>Deletion: effect on the trie\<close>

lemma delete_path_None:
  "position (\<lambda>c. level c = segment) (child_list n) = None \<Longrightarrow> delete_path key (segment # rest) n = n"
  by simp

lemma delete_path_level [simp]: "level (delete_path key p n) = level n"
proof (cases p)
  case Nil
  then show ?thesis by (simp add: remove_subscription_def)
next
  case (Cons segment rest)
  then show ?thesis
    by (auto simp: prune_child_def Let_def dest: position_SomeD split: option.splits)
qed

lemma vec_remove_update [simp]: "vec_remove i (xs[i := x]) = vec_remove i xs"
  by (simp add: vec_remove_def)

lemma delete_path_Some:
  assumes "position (\<lambda>c. level c = segment) (child_list n) = Some i"
    and "cs = child_list n" and "d = delete_path key rest (cs ! i)"
  shows "delete_path key (segment # rest) n =
    (if prunable d then
       Node (level n) (subscription_map n) (queue_group_map n)
         (if vec_remove i cs = [] then None else Some (vec_remove i cs))
         (if segment = WILDCARD_SINGLE then WILDCARD_SINGLE \<in> level ` set (vec_remove i cs)
          else has_wildcard_single n)
         (if segment = WILDCARD_MULTI then WILDCARD_MULTI \<in> level ` set (vec_remove i cs)
          else has_wildcard_multi n)
     else set_children (Some (cs[i := d])) n)"
proof -
  have "(\<exists>c \<in> set xs. level c = v) \<longleftrightarrow> v \<in> level ` set xs" for v and xs :: "'a Node list"
    by (auto simp: image_iff)
  with assms position_SomeD [OF assms(1)] show ?thesis
    by (simp add: prune_child_def Let_def)
qed

declare delete_path.simps(2) [simp del]

lemma delete_path_Nil:
  "delete_path key [] n = Node (level n) (AList.delete key (subscription_map n)) (queue_group_map n)
     (children n) (has_wildcard_single n) (has_wildcard_multi n)"
  by (simp add: remove_subscription_def)

lemma prunable_entries: "prunable n \<Longrightarrow> set (entries n) = {}"
  by (subst set_entries) (simp add: prunable_def)

lemma in_entries_delete_path:
  "wf_node n \<Longrightarrow>
   (q, e) \<in> set (entries (delete_path key p n)) \<longleftrightarrow>
     (q, e) \<in> set (entries n) \<and> \<not> (q = p \<and> fst e = key)"
proof (induction p arbitrary: n q)
  case Nil
  then show ?case
    by (cases q) (auto simp: delete_path_Nil set_AList_delete simp del: delete_path.simps)
next
  case (Cons segment rest)
  let ?cs = "child_list n"
  show ?case
  proof (cases "position (\<lambda>c. level c = segment) ?cs")
    case None
    then have "(segment # rest, e) \<notin> set (entries n)" by (auto simp: position_None_iff)
    with None show ?thesis by (auto simp: delete_path_None)
  next
    case (Some i)
    let ?d = "delete_path key rest (?cs ! i)"
    from Some have i: "i < length ?cs" "level (?cs ! i) = segment" by (auto dest: position_SomeD)
    from Cons.prems have dist: "distinct (map level ?cs)" and wfc: "wf_node (?cs ! i)"
      using i(1) by (auto simp: wf_node_iff [of n])
    have IH: "(q', e) \<in> set (entries ?d) \<longleftrightarrow>
        (segment # q', e) \<in> set (entries n) \<and> \<not> (q' = rest \<and> fst e = key)" for q'
      using Cons.IH [OF wfc, of q'] ex_level_update [OF dist i(1) i(2) i(2), of segment "\<lambda>c. (q', e) \<in> set (entries c)"]
      by simp
    show ?thesis
    proof (cases q)
      case Nil
      then show ?thesis using delete_path_Some [OF Some refl refl, of key rest] by simp
    next
      case (Cons s q')
      show ?thesis
      proof (cases "prunable ?d")
        case True
        then have "(q', e) \<notin> set (entries ?d)" by (simp add: prunable_entries)
        then show ?thesis
          using True Cons delete_path_Some [OF Some refl refl, of key rest] IH [of q']
            ex_level_vec_remove [OF dist i, of s "\<lambda>c. (q', e) \<in> set (entries c)"]
          by (auto split: if_splits)
      next
        case False
        then show ?thesis
          using Cons delete_path_Some [OF Some refl refl, of key rest] IH [of q']
            ex_level_update [OF dist i, of ?d s "\<lambda>c. (q', e) \<in> set (entries c)"] i(2)
          by auto
      qed
    qed
  qed
qed

lemma wf_delete_path: "wf_node n \<Longrightarrow> wf_node (delete_path key p n)"
proof (induction p arbitrary: n)
  case Nil
  then show ?case
    by (auto simp: delete_path_Nil wf_node_iff [of n] wf_node_iff [of "Node _ _ _ _ _ _"]
        distinct_delete simp del: delete_path.simps)
next
  case (Cons segment rest)
  let ?cs = "child_list n"
  show ?case
  proof (cases "position (\<lambda>c. level c = segment) ?cs")
    case None
    with Cons.prems show ?thesis by (simp add: delete_path_None)
  next
    case (Some i)
    let ?d = "delete_path key rest (?cs ! i)"
    from Some have i: "i < length ?cs" "level (?cs ! i) = segment" by (auto dest: position_SomeD)
    note wf = Cons.prems [unfolded wf_node_iff [of n]]
    from wf i(1) have d: "wf_node ?d" by (intro Cons.IH) auto
    have sub: "set (?cs[i := ?d]) \<subseteq> Set.insert ?d (set ?cs)" by (rule set_update_subset_insert)
    have lv: "map level (?cs[i := ?d]) = map level ?cs" by (simp add: map_level_update)
    then have lvs: "level ` set (?cs[i := ?d]) = level ` set ?cs" by (metis list.set_map)
    have rem: "level ` set ?cs = Set.insert segment (level ` set (vec_remove i ?cs))"
      using set_conv_vec_remove [OF i(1)] i(2) by auto
    show ?thesis
    proof (cases "prunable ?d")
      case True
      have "distinct (map level (vec_remove i ?cs))"
        using wf by (simp add: map_vec_remove distinct_vec_remove)
      then show ?thesis
        using True wf rem set_vec_remove_subset [of i ?cs] delete_path_Some [OF Some refl refl, of key rest]
        by (auto simp: wf_node_iff [of "Node _ _ _ _ _ _"])
    next
      case False
      have "?cs[i := ?d] \<noteq> []" using i(1) by auto
      then show ?thesis
        using False wf d sub lv lvs delete_path_Some [OF Some refl refl, of key rest]
        by (auto simp: wf_node_iff [of "set_children _ _"])
    qed
  qed
qed

section \<open>Insertion followed by deletion\<close>

lemma position_slot:
  "position (\<lambda>c. level c = segment) (slot_children segment n) = Some (slot segment n)"
  by (auto simp: slot_children_def slot_def position_snoc split: option.splits)

lemma delete_insert_path:
  "wf_node n \<Longrightarrow> \<forall>tx. (p, key, tx) \<notin> set (entries n) \<Longrightarrow>
     delete_path key p (insert_path key tx p n) = n"
proof (induction p arbitrary: n)
  case Nil
  then have "key \<notin> fst ` set (subscription_map n)" by auto
  then show ?case
    by (cases n) (simp add: delete_path_Nil insert_path_Nil delete_update_fresh del: delete_path.simps)
next
  case (Cons segment rest)
  let ?cs = "slot_children segment n" and ?i = "slot segment n"
  let ?x = "insert_path key tx rest (?cs ! ?i)" and ?n1 = "insert_path key tx (segment # rest) n"
  note wf = Cons.prems(1) [unfolded wf_node_iff [of n]]
  have d: "delete_path key rest ?x = ?cs ! ?i"
    using Cons.prems by (intro Cons.IH slot_children_wf) (simp_all add: entries_slot)
  have pos: "position (\<lambda>c. level c = segment) (child_list ?n1) = Some ?i"
    using position_cong_map [OF map_level_update, of ?x ?cs ?i segment] position_slot [of segment n]
    by (simp add: insert_path_Cons)
  have del: "delete_path key rest (child_list ?n1 ! ?i) = ?cs ! ?i"
    using d slot_in_range [of segment n] by (simp add: insert_path_Cons)
  from slot_children_cases [of segment n] show ?case
  proof (elim disjE conjE)
    assume eq: "?cs = child_list n" and ex: "segment \<in> level ` set (child_list n)"
    from eq slot_in_range [of segment n] wf have "\<not> prunable (?cs ! ?i)"
      by (metis nth_mem)
    moreover from ex obtain cs where cs: "children n = Some cs"
      by (cases "children n") auto
    ultimately have "delete_path key (segment # rest) ?n1 = set_children (children n) ?n1"
      using delete_path_Some [OF pos refl refl, of key rest] eq cs unfolding del
      by (simp add: insert_path_Cons)
    moreover have "(segment = WILDCARD_SINGLE \<or> has_wildcard_single n) = has_wildcard_single n"
      "(segment = WILDCARD_MULTI \<or> has_wildcard_multi n) = has_wildcard_multi n"
      using ex wf by blast+
    ultimately show ?thesis by (simp add: insert_path_Cons set_children_def)
  next
    assume eq: "?cs = child_list n @ [Node_at_level segment]" and i: "?i = length (child_list n)"
      and fresh: "segment \<notin> level ` set (child_list n)"
    have pr: "prunable (?cs ! ?i)" by (simp add: eq i prunable_def)
    have ch: "(if child_list n = [] then None else Some (child_list n)) = children n"
      using wf by (cases "children n") auto
    have vr: "vec_remove ?i (child_list ?n1) = child_list n" by (simp add: insert_path_Cons eq i)
    have "delete_path key (segment # rest) ?n1 =
        Node (level n) (subscription_map n) (queue_group_map n) (children n)
          (has_wildcard_single n) (has_wildcard_multi n)"
      using delete_path_Some [OF pos refl refl, of key rest] pr fresh wf unfolding del vr ch
      by (auto simp: insert_path_Cons)
    then show ?thesis by simp
  qed
qed

end
