(* ===== verification/Router_Search.thy ===== *)
theory Router_Search
  imports Router_Spec
begin

text \<open>
  The stack loop of \<open>Router::search\<close> against the declarative matching rule: on a well-formed
  trie, and for a topic without a \<open>#\<close> segment, the loop collects every matching subscription
  exactly once.
\<close>

section \<open>A recursive reading of the loop\<close>

definition own_hits :: "'tx Node \<Rightarrow> (ClientId \<times> 'tx Subscription) multiset" where
  "own_hits n = image_mset to_subscription (mset (subscription_map n))"

fun node_hits :: "bytes list \<Rightarrow> 'tx Node \<Rightarrow> (ClientId \<times> 'tx Subscription) multiset" where
  "node_hits [] n = (case multi_child n of Some m \<Rightarrow> own_hits m | None \<Rightarrow> {#}) + own_hits n"
| "node_hits (segment # rest) n =
     (case multi_child n of Some m \<Rightarrow> own_hits m | None \<Rightarrow> {#}) +
     (\<Sum>c \<leftarrow> filter (\<lambda>c. level c = segment \<or> level c = WILDCARD_SINGLE) (child_list n).
        node_hits rest c)"

lemma mset_collect_node [simp]: "mset (fst (collect_node n acc)) = mset (fst acc) + own_hits n"
  by (simp add: collect_node_def own_hits_def)

lemma collect_node_no_groups [simp]:
  "queue_group_map n = [] \<Longrightarrow> snd (collect_node n acc) = snd acc"
  by (simp add: collect_node_def)

lemma find_level_None: "v \<notin> level ` set cs \<Longrightarrow> find (\<lambda>c. level c = v) cs = None"
  by (induction cs) auto

lemma multi_child_wf:
  assumes "wf_node n"
  shows "multi_child n = find (\<lambda>c. level c = WILDCARD_MULTI) (child_list n)"
proof (cases "has_wildcard_multi n")
  case True
  then show ?thesis by (cases "children n") (simp_all add: multi_child_def)
next
  case False
  with assms have "WILDCARD_MULTI \<notin> level ` set (child_list n)" by (simp add: wf_node_iff [of n])
  then have "find (\<lambda>c. level c = WILDCARD_MULTI) (child_list n) = None"
    by (rule find_level_None)
  with False show ?thesis by (simp add: multi_child_def)
qed

lemma multi_child_wf_node: "wf_node n \<Longrightarrow> multi_child n = Some m \<Longrightarrow> wf_node m"
  by (auto simp: multi_child_wf wf_node_iff [of n] find_Some_iff)

lemma search_loop_hits:
  "(\<forall>(n, r) \<in> set stack. wf_node n) \<Longrightarrow>
   mset (fst (search_loop stack acc)) = mset (fst acc) + (\<Sum>(n, r) \<leftarrow> stack. node_hits r n)
   \<and> snd (search_loop stack acc) = snd acc"
proof (induction stack acc rule: search_loop.induct)
  case (1 acc)
  then show ?case by simp
next
  case (2 node remaining stack acc)
  from "2.prems" have wf: "wf_node node" and st: "\<forall>(n, r) \<in> set stack. wf_node n" by auto
  define acc1 where "acc1 = (case multi_child node of Some m \<Rightarrow> collect_node m acc | None \<Rightarrow> acc)"
  have acc1: "mset (fst acc1) = mset (fst acc) + (case multi_child node of Some m \<Rightarrow> own_hits m | None \<Rightarrow> {#})"
    "snd acc1 = snd acc"
    using wf_node_groups [OF multi_child_wf_node [OF wf]]
    by (simp_all add: acc1_def split: option.splits)
  have qn: "queue_group_map node = []" using wf by (rule wf_node_groups)
  show ?case
  proof (cases remaining)
    case Nil
    have "search_loop ((node, remaining) # stack) acc = search_loop stack (collect_node node acc1)"
      by (simp add: Nil acc1_def Let_def)
    with "2.IH"(1) [OF acc1_def Nil st] acc1 qn Nil show ?thesis by (simp add: ac_simps)
  next
    case (Cons segment rest)
    show ?thesis
    proof (cases "children node")
      case None
      have "search_loop ((node, remaining) # stack) acc = search_loop stack acc1"
        by (simp add: Cons None acc1_def Let_def)
      with "2.IH"(2) [OF acc1_def Cons None st] acc1 Cons None show ?thesis by (simp add: ac_simps)
    next
      case (Some cs)
      let ?f = "filter (\<lambda>c. level c = segment \<or> level c = WILDCARD_SINGLE) cs"
      let ?stack = "rev (map (\<lambda>c. (c, rest)) ?f) @ stack"
      have "\<forall>(n, r) \<in> set ?stack. wf_node n"
        using st wf Some by (auto simp: wf_node_iff [of node])
      moreover have "search_loop ((node, remaining) # stack) acc = search_loop ?stack acc1"
        by (simp add: Cons Some acc1_def Let_def)
      moreover have "(\<Sum>(n, r) \<leftarrow> ?stack. node_hits r n) = (\<Sum>c \<leftarrow> ?f. node_hits rest c) + (\<Sum>(n, r) \<leftarrow> stack. node_hits r n)"
        by (simp add: rev_map [symmetric] o_def sum_list_rev del: rev_map)
      ultimately show ?thesis
        using "2.IH"(3) [OF acc1_def Cons Some] acc1 Cons Some by (simp add: ac_simps)
    qed
  qed
qed

section \<open>The loop and the matching rule\<close>

definition matched :: "bytes list \<Rightarrow> 'tx Node \<Rightarrow> (ClientId \<times> 'tx Subscription) multiset" where
  "matched r n = image_mset (\<lambda>(p, e). to_subscription e)
     {# (p, e) \<in># mset (entries n). filter_matches p r #}"

lemma mset_entries:
  "mset (entries n) = image_mset (Pair []) (mset (subscription_map n))
     + (\<Sum>c \<leftarrow> child_list n. image_mset (\<lambda>(p, e). (level c # p, e)) (mset (entries c)))"
proof (cases n)
  case (Node l sm qm ch ws wm)
  then show ?thesis
    by (cases ch) (simp_all add: entries.simps child_list_def mset_concat o_def mset_map)
qed

lemma filter_sum_list_mset: "filter_mset P (\<Sum>x \<leftarrow> xs. f x) = (\<Sum>x \<leftarrow> xs. filter_mset P (f x))"
  by (induction xs) auto

lemma image_sum_list_mset: "image_mset g (\<Sum>x \<leftarrow> xs. f x) = (\<Sum>x \<leftarrow> xs. image_mset g (f x))"
  by (induction xs) auto

lemma matched_unfold:
  "matched r n = (if r = [] then own_hits n else {#})
     + (\<Sum>c \<leftarrow> child_list n. image_mset (\<lambda>(p, e). to_subscription e)
          {# (p, e) \<in># mset (entries c). filter_matches (level c # p) r #})"
proof -
  have own: "image_mset (\<lambda>(p, e). to_subscription e)
       (filter_mset (\<lambda>(p, e). filter_matches p r) (image_mset (Pair []) (mset sm)))
     = (if r = [] then image_mset to_subscription (mset sm) else {#})" for sm :: "'a SubscriptionMap"
    by (simp add: filter_mset_image_mset image_mset.compositionality o_def)
  have child: "image_mset (\<lambda>(p, e). to_subscription e)
       (filter_mset (\<lambda>(p, e). filter_matches p r) (image_mset (\<lambda>(p, e). (l # p, e)) M))
     = image_mset (\<lambda>(p, e). to_subscription e) (filter_mset (\<lambda>(p, e). filter_matches (l # p) r) M)"
    for l and M :: "(bytes list \<times> SubscriptionKey \<times> 'a) multiset"
    by (simp add: filter_mset_image_mset image_mset.compositionality o_def case_prod_unfold)
  show ?thesis
    unfolding matched_def
    by (subst mset_entries)
      (simp add: filter_sum_list_mset image_sum_list_mset own child own_hits_def)
qed

lemma filter_matches_Cons_no_hash:
  assumes "WILDCARD_MULTI \<notin> set r"
  shows "filter_matches (l # p) r \<longleftrightarrow>
    (if l = WILDCARD_MULTI then p = []
     else case r of [] \<Rightarrow> False | t # ts \<Rightarrow> (l = t \<or> l = WILDCARD_SINGLE) \<and> filter_matches p ts)"
  using assms by (auto split: list.splits)

lemma own_of_entries:
  "image_mset (\<lambda>(p, e). to_subscription e) {# (p, e) \<in># mset (entries c). p = [] #} = own_hits c"
proof -
  have child: "filter_mset (\<lambda>(p, e). p = []) (image_mset (\<lambda>(p, e). (l # p, e)) M) = {#}"
    for l and M :: "(bytes list \<times> SubscriptionKey \<times> 'a) multiset"
    by (induction M) auto
  have own: "filter_mset (\<lambda>(p, e). p = []) (image_mset (Pair []) M) = image_mset (Pair []) M"
    for M :: "(SubscriptionKey \<times> 'a) multiset"
    by (induction M) auto
  show ?thesis
    by (subst mset_entries)
      (simp add: filter_sum_list_mset own_hits_def image_mset.compositionality o_def child own)
qed

lemma sum_list_find:
  "distinct (map level cs) \<Longrightarrow>
   (\<Sum>c \<leftarrow> cs. if level c = v then f c else {#}) =
     (case find (\<lambda>c. level c = v) cs of Some m \<Rightarrow> f m | None \<Rightarrow> {#})"
proof (induction cs)
  case Nil
  then show ?case by simp
next
  case (Cons c cs)
  have "find (\<lambda>c. level c = v) cs = None" if "level c = v"
    using Cons.prems that by (intro find_level_None) auto
  with Cons show ?case by auto
qed

lemma node_hits_matched:
  "wf_node n \<Longrightarrow> WILDCARD_MULTI \<notin> set r \<Longrightarrow> node_hits r n = matched r n"
proof (induction r arbitrary: n)
  case Nil
  have "(\<Sum>c \<leftarrow> child_list n. image_mset (\<lambda>(p, e). to_subscription e)
          {# (p, e) \<in># mset (entries c). filter_matches (level c # p) [] #})
      = (\<Sum>c \<leftarrow> child_list n. if level c = WILDCARD_MULTI then own_hits c else {#})"
    by (intro arg_cong [where f = sum_list] map_cong refl)
      (simp add: own_of_entries filter_matches_Cons_no_hash)
  with Nil show ?case
    by (simp add: matched_unfold [of "[]"] multi_child_wf sum_list_find wf_node_iff [of n])
next
  case (Cons t ts)
  let ?hit = "\<lambda>c. level c = t \<or> level c = WILDCARD_SINGLE"
  have nh: "t \<noteq> WILDCARD_MULTI" "WILDCARD_MULTI \<notin> set ts" using Cons.prems(2) by auto
  have "image_mset (\<lambda>(p, e). to_subscription e)
          {# (p, e) \<in># mset (entries c). filter_matches (level c # p) (t # ts) #}
      = (if level c = WILDCARD_MULTI then own_hits c else {#}) + (if ?hit c then node_hits ts c else {#})"
    if "c \<in> set (child_list n)" for c
    using Cons.IH [OF wf_node_child [OF Cons.prems(1) that] nh(2)] nh Cons.prems(2)
    by (auto simp: filter_matches_Cons_no_hash own_of_entries matched_def simp del: filter_matches.simps)
  then have "(\<Sum>c \<leftarrow> child_list n. image_mset (\<lambda>(p, e). to_subscription e)
          {# (p, e) \<in># mset (entries c). filter_matches (level c # p) (t # ts) #})
      = (\<Sum>c \<leftarrow> child_list n. if level c = WILDCARD_MULTI then own_hits c else {#})
        + (\<Sum>c \<leftarrow> child_list n. if ?hit c then node_hits ts c else {#})"
    by (simp add: sum_list_addf cong: map_cong)
  with Cons.prems(1) show ?case
    by (simp add: matched_unfold [of "t # ts"] multi_child_wf sum_list_find wf_node_iff [of n]
        sum_list_map_filter')
qed

section \<open>No subscription is listed twice\<close>

definition entry_key :: "bytes list \<times> SubscriptionKey \<times> 'tx \<Rightarrow> bytes list \<times> SubscriptionKey" where
  "entry_key x = (fst x, fst (snd x))"

lemma distinct_entries_children:
  "distinct (map level cs) \<Longrightarrow> \<forall>c \<in> set cs. distinct (map entry_key (entries c)) \<Longrightarrow>
   distinct (map entry_key (concat (map (\<lambda>c. map (\<lambda>(p, e). (level c # p, e)) (entries c)) cs)))"
proof (induction cs)
  case Nil
  then show ?case by simp
next
  case (Cons c cs)
  have "map entry_key (map (\<lambda>(p, e). (level c # p, e)) (entries c))
      = map (\<lambda>(p, k). (level c # p, k)) (map entry_key (entries c))"
    by (simp add: entry_key_def case_prod_unfold)
  moreover have "distinct (map (\<lambda>(p, k). (level c # p, k)) (map entry_key (entries c)))"
    using Cons.prems(2) by (subst distinct_map) (auto simp: inj_on_def entry_key_def [of "(_, _)"])
  ultimately show ?case
    using Cons by (auto simp: entry_key_def case_prod_unfold o_def)
qed

lemma distinct_entries: "wf_node n \<Longrightarrow> distinct (map entry_key (entries n))"
proof (induction n)
  case (Node l sm qm ch ws wm)
  let ?n = "Node l sm qm ch ws wm"
  have sm: "distinct (map entry_key (map (Pair []) sm))"
    using Node.prems by (simp add: wf_node.simps entry_key_def o_def distinct_map inj_on_def)
  show ?case
  proof (cases ch)
    case None
    with sm show ?thesis by (simp add: entries.simps)
  next
    case (Some cs)
    have "distinct (map entry_key (concat (map (\<lambda>c. map (\<lambda>(p, e). (level c # p, e)) (entries c)) cs)))"
      using Node Some by (intro distinct_entries_children) (auto simp: wf_node.simps)
    with sm Some show ?thesis by (auto simp: entries.simps entry_key_def [of "(_, _)"])
  qed
qed

end
