(* ===== verification/Router_Table.thy ===== *)
theory Router_Table
  imports Router_Search
begin

text \<open>
  The contract of the router. Abstractly it is a table from subscription keys to filter segments
  and senders. The locale \<open>subscription_table\<close> states what an implementation promises; its lemmas
  follow whole histories of subscriptions and cancellations; the interpretation \<open>trie\<close>
  discharges the laws for the trie of \<open>router.rs\<close>.
\<close>

section \<open>The abstract table\<close>

type_synonym 'tx table = "SubscriptionKey \<rightharpoonup> bytes list \<times> 'tx"

datatype 'tx router_op =
    Insert 'tx ClientId u32 TopicFilter
  | Delete SubscriptionKey

fun table_step :: "'tx router_op \<Rightarrow> 'tx table \<Rightarrow> 'tx table" where
  "table_step (Insert tx c s f) m = m(SubscriptionKey_new c s \<mapsto> (TopicFilter_segments f, tx))"
| "table_step (Delete key) m = m(key := None)"

fun table_run :: "'tx router_op list \<Rightarrow> 'tx table \<Rightarrow> 'tx table" where
  "table_run [] m = m"
| "table_run (op # ops) m = table_run ops (table_step op m)"

text \<open>
  A subscription id is not taken for a second filter while it is in use: the discipline the
  protocol asks of clients (\<open>pubsub.proto\<close>: \<open>unique per subscription within this connection\<close>).
\<close>

fun op_disciplined :: "'tx router_op \<Rightarrow> 'tx table \<Rightarrow> bool" where
  "op_disciplined (Insert tx c s f) m \<longleftrightarrow>
     (case m (SubscriptionKey_new c s) of None \<Rightarrow> True | Some (p, _) \<Rightarrow> p = TopicFilter_segments f)"
| "op_disciplined (Delete key) m \<longleftrightarrow> True"

fun ops_disciplined :: "'tx router_op list \<Rightarrow> 'tx table \<Rightarrow> bool" where
  "ops_disciplined [] m \<longleftrightarrow> True"
| "ops_disciplined (op # ops) m \<longleftrightarrow> op_disciplined op m \<and> ops_disciplined ops (table_step op m)"

definition deliveries :: "'tx table \<Rightarrow> bytes list \<Rightarrow> (SubscriptionKey \<times> 'tx) set" where
  "deliveries m ts = {(k, tx). \<exists>p. m k = Some (p, tx) \<and> filter_matches p ts}"

text \<open>Running operations on an implementation; \<open>None\<close> is a panic.\<close>

fun run_op :: "('tx \<Rightarrow> ClientId \<Rightarrow> u32 \<Rightarrow> TopicFilter \<Rightarrow> 'r \<Rightarrow> 'r) \<Rightarrow> (SubscriptionKey \<Rightarrow> 'r \<Rightarrow> 'r option)
    \<Rightarrow> 'tx router_op \<Rightarrow> 'r \<Rightarrow> 'r option" where
  "run_op ins del (Insert tx c s f) r = Some (ins tx c s f r)"
| "run_op ins del (Delete key) r = del key r"

fun run_ops :: "('tx \<Rightarrow> ClientId \<Rightarrow> u32 \<Rightarrow> TopicFilter \<Rightarrow> 'r \<Rightarrow> 'r) \<Rightarrow> (SubscriptionKey \<Rightarrow> 'r \<Rightarrow> 'r option)
    \<Rightarrow> 'tx router_op list \<Rightarrow> 'r \<Rightarrow> 'r option" where
  "run_ops ins del [] r = Some r"
| "run_ops ins del (op # ops) r = Option.bind (run_op ins del op r) (run_ops ins del ops)"

locale subscription_table =
  fixes new :: "'r"
    and ins :: "'tx \<Rightarrow> ClientId \<Rightarrow> u32 \<Rightarrow> TopicFilter \<Rightarrow> 'r \<Rightarrow> 'r"
    and del :: "SubscriptionKey \<Rightarrow> 'r \<Rightarrow> 'r option"
    and lookup :: "Topic \<Rightarrow> 'r \<Rightarrow> 'tx SubscriptionResponse"
    and table :: "'r \<Rightarrow> 'tx table"
    and invar :: "'r \<Rightarrow> bool"
  assumes table_new: "table new = Map.empty"
    and invar_new: "invar new"
    and table_ins: "invar r \<Longrightarrow> op_disciplined (Insert tx c s f) (table r) \<Longrightarrow>
      invar (ins tx c s f r) \<and> table (ins tx c s f r) = table_step (Insert tx c s f) (table r)"
    and table_del: "invar r \<Longrightarrow>
      \<exists>r'. del key r = Some r' \<and> invar r' \<and> table r' = table_step (Delete key) (table r)"
    and lookup_table: "invar r \<Longrightarrow> WILDCARD_MULTI \<notin> set (Topic_segments t) \<Longrightarrow>
      set (subscription_list (lookup t r)) = to_subscription ` deliveries (table r) (Topic_segments t)
      \<and> distinct (subscription_list (lookup t r)) \<and> queue_group_list (lookup t r) = []"
begin

lemma run_op_refines:
  assumes "invar r" "op_disciplined op (table r)"
  shows "\<exists>r'. run_op ins del op r = Some r' \<and> invar r' \<and> table r' = table_step op (table r)"
  using assms table_ins table_del by (cases op) auto

lemma run_ops_refines:
  "invar r \<Longrightarrow> ops_disciplined ops (table r) \<Longrightarrow>
   \<exists>r'. run_ops ins del ops r = Some r' \<and> invar r' \<and> table r' = table_run ops (table r)"
proof (induction ops arbitrary: r)
  case Nil
  then show ?case by simp
next
  case (Cons op ops)
  then obtain r1 where "run_op ins del op r = Some r1" "invar r1" "table r1 = table_step op (table r)"
    using run_op_refines by (metis ops_disciplined.simps(2))
  with Cons.IH [of r1] Cons.prems show ?case by simp
qed

lemma lookup_after_ops:
  assumes "ops_disciplined ops Map.empty" "WILDCARD_MULTI \<notin> set (Topic_segments t)"
  shows "\<exists>r. run_ops ins del ops new = Some r
    \<and> set (subscription_list (lookup t r))
        = to_subscription ` deliveries (table_run ops Map.empty) (Topic_segments t)
    \<and> distinct (subscription_list (lookup t r)) \<and> queue_group_list (lookup t r) = []"
proof -
  obtain r where r: "run_ops ins del ops new = Some r" "invar r" "table r = table_run ops Map.empty"
    using run_ops_refines [OF invar_new, of ops] assms(1) table_new by auto
  with lookup_table [OF r(2) assms(2)] show ?thesis by auto
qed

end

section \<open>The trie implements the table\<close>

definition subscriptions :: "'tx Router \<Rightarrow> 'tx table" where
  "subscriptions r = map_of (map (\<lambda>(p, k, tx). (k, (p, tx))) (entries (root r)))"

text \<open>
  The trie and the \<open>subscription_kv\<close> map agree: every subscription in the trie is recorded in
  the map under the filter it sits at, and conversely.
\<close>

definition router_inv :: "'tx Router \<Rightarrow> bool" where
  "router_inv r \<longleftrightarrow> wf_node (root r)
     \<and> (\<forall>p k tx. (p, k, tx) \<in> set (entries (root r)) \<longrightarrow>
          (\<exists>f. subscription_kv r k = Some f \<and> TopicFilter_segments f = p))
     \<and> (\<forall>k f. subscription_kv r k = Some f \<longrightarrow>
          (\<exists>tx. (TopicFilter_segments f, k, tx) \<in> set (entries (root r))))"

lemma router_inv_new [simp]: "router_inv Router_new"
  by (simp add: router_inv_def Router_new_def)

lemma subscriptions_new: "subscriptions Router_new = Map.empty"
  by (simp add: subscriptions_def Router_new_def)

lemma router_inv_wf: "router_inv r \<Longrightarrow> wf_node (root r)"
  by (simp add: router_inv_def)

lemma router_inv_entryD:
  "router_inv r \<Longrightarrow> (p, k, tx) \<in> set (entries (root r)) \<Longrightarrow>
     \<exists>f. subscription_kv r k = Some f \<and> TopicFilter_segments f = p"
  unfolding router_inv_def by blast

lemma router_inv_kvD:
  "router_inv r \<Longrightarrow> subscription_kv r k = Some f \<Longrightarrow>
     \<exists>tx. (TopicFilter_segments f, k, tx) \<in> set (entries (root r))"
  unfolding router_inv_def by blast

lemma distinct_keys:
  assumes "router_inv r"
  shows "distinct (map (\<lambda>x. fst (snd x)) (entries (root r)))"
proof -
  define g where "g k = TopicFilter_segments (the (subscription_kv r k))" for k
  have "entry_key x = (g (fst (snd x)), fst (snd x))" if "x \<in> set (entries (root r))" for x
    using router_inv_entryD [OF assms, of "fst x" "fst (snd x)" "snd (snd x)"] that
    by (auto simp: entry_key_def g_def)
  then have "map entry_key (entries (root r))
      = map (\<lambda>k. (g k, k)) (map (\<lambda>x. fst (snd x)) (entries (root r)))"
    by simp
  with distinct_entries [OF router_inv_wf [OF assms]]
  have "distinct (map (\<lambda>k. (g k, k)) (map (\<lambda>x. fst (snd x)) (entries (root r))))" by simp
  then show ?thesis by (rule distinct_map_imp)
qed

lemma subscriptions_Some_iff:
  assumes "router_inv r"
  shows "subscriptions r k = Some (p, tx) \<longleftrightarrow> (p, k, tx) \<in> set (entries (root r))"
proof -
  let ?al = "map (\<lambda>(p, k, tx). (k, (p, tx))) (entries (root r))"
  have "map fst ?al = map (\<lambda>x. fst (snd x)) (entries (root r))" by auto
  with distinct_keys [OF assms] have "distinct (map fst ?al)" by (simp only:)
  then have "map_of ?al k = Some (p, tx) \<longleftrightarrow> (k, p, tx) \<in> set ?al" by (rule map_of_eq_Some_iff)
  also have "\<dots> \<longleftrightarrow> (p, k, tx) \<in> set (entries (root r))" by force
  finally show ?thesis unfolding subscriptions_def .
qed

lemma subscriptions_kv:
  assumes "router_inv r"
  shows "map_option fst (subscriptions r k) = map_option TopicFilter_segments (subscription_kv r k)"
proof (cases "subscription_kv r k")
  case None
  have "subscriptions r k = None"
  proof (rule ccontr)
    assume "subscriptions r k \<noteq> None"
    then obtain p tx where "subscriptions r k = Some (p, tx)" by auto
    with assms None show False
      using router_inv_entryD [OF assms, of p k tx] by (simp add: subscriptions_Some_iff)
  qed
  with None show ?thesis by simp
next
  case (Some f)
  then obtain tx where "subscriptions r k = Some (TopicFilter_segments f, tx)"
    using router_inv_kvD [OF assms] subscriptions_Some_iff [OF assms] by blast
  with Some show ?thesis by simp
qed

lemma table_eqI:
  assumes "router_inv r"
    and "\<And>k p tx. (p, k, tx) \<in> set (entries (root r)) \<longleftrightarrow> m k = Some (p, tx)"
  shows "subscriptions r = m"
proof
  fix k
  show "subscriptions r k = m k"
    using subscriptions_Some_iff [OF assms(1), of k] assms(2) [of _ k]
    by (cases "subscriptions r k"; cases "m k") auto
qed

subsection \<open>Insertion\<close>

lemma key_disciplined:
  assumes "router_inv r" "op_disciplined (Insert tx c s f) (subscriptions r)"
    and "(p, SubscriptionKey_new c s, tx') \<in> set (entries (root r))"
  shows "p = TopicFilter_segments f"
  using assms subscriptions_Some_iff [OF assms(1), of "SubscriptionKey_new c s" p tx'] by simp

lemma in_entries_router_insert:
  assumes "router_inv r" "op_disciplined (Insert tx c s f) (subscriptions r)"
  shows "(p, k, tx') \<in> set (entries (root (router_insert tx c s f r))) \<longleftrightarrow>
    (if k = SubscriptionKey_new c s then p = TopicFilter_segments f \<and> tx' = tx
     else (p, k, tx') \<in> set (entries (root r)))"
  using key_disciplined [OF assms] router_inv_wf [OF assms(1)]
  by (auto simp: router_insert_def Let_def in_entries_insert_path)

lemma router_inv_insert:
  assumes "router_inv r" "op_disciplined (Insert tx c s f) (subscriptions r)"
  shows "router_inv (router_insert tx c s f r)"
proof -
  have "wf_node (root (router_insert tx c s f r))"
    using router_inv_wf [OF assms(1)] by (simp add: router_insert_def Let_def wf_insert_path)
  moreover have "subscription_kv (router_insert tx c s f r) = (subscription_kv r)(SubscriptionKey_new c s \<mapsto> f)"
    by (simp add: router_insert_def Let_def)
  ultimately show ?thesis
    using router_inv_entryD [OF assms(1)] router_inv_kvD [OF assms(1)]
    unfolding router_inv_def in_entries_router_insert [OF assms] by auto
qed

lemma subscriptions_insert:
  assumes "router_inv r" "op_disciplined (Insert tx c s f) (subscriptions r)"
  shows "subscriptions (router_insert tx c s f r)
    = (subscriptions r)(SubscriptionKey_new c s \<mapsto> (TopicFilter_segments f, tx))"
  by (rule table_eqI [OF router_inv_insert [OF assms]])
    (auto simp: in_entries_router_insert [OF assms] subscriptions_Some_iff [OF assms(1)])

subsection \<open>Deletion\<close>

lemma locate_entry: "wf_node n \<Longrightarrow> (p, e) \<in> set (entries n) \<Longrightarrow> \<exists>path. locate n p = Some path"
proof (induction p arbitrary: n)
  case Nil
  then show ?case by simp
next
  case (Cons segment rest)
  let ?cs = "child_list n"
  from Cons.prems(2) obtain c where c: "c \<in> set ?cs" "level c = segment" "(rest, e) \<in> set (entries c)"
    by auto
  then obtain cs where ch: "children n = Some cs" by (cases "children n") auto
  then have cs: "?cs = cs" by simp
  obtain i where pos: "position (\<lambda>c. level c = segment) ?cs = Some i"
    using c by (cases "position (\<lambda>c. level c = segment) ?cs") (auto simp: position_None_iff)
  then have i: "i < length ?cs" "level (?cs ! i) = segment" by (auto dest: position_SomeD)
  have "distinct (map level ?cs)" using Cons.prems(1) by (simp add: wf_node_iff [of n])
  then have "inj_on level (set ?cs)" by (simp add: distinct_map)
  with c i have "c = ?cs ! i" by (auto dest: inj_onD)
  with c(1,3) Cons obtain path where "locate (?cs ! i) rest = Some path"
    using wf_node_child by blast
  with ch cs pos show ?case by simp
qed

lemma router_delete_eq:
  assumes "locate (root r) (TopicFilter_segments f) = Some path" "subscription_kv r key = Some f"
  shows "router_delete key r =
    Some \<lparr>root = delete_path key (TopicFilter_segments f) (root r),
          subscription_kv = (subscription_kv r)(key := None)\<rparr>"
proof -
  obtain n1 b where "modify_at path (remove_subscription key) (root r) = Some (n1, ())"
    "prune_loop_flag path (length path) n1
       = Some (delete_path key (TopicFilter_segments f) (root r), b)"
    using delete_loops_eq_delete_path [OF assms(1)] by blast
  then show ?thesis using assms by (simp add: router_delete_def prune_loop_flag)
qed

lemma router_delete_absent: "subscription_kv r key = None \<Longrightarrow> router_delete key r = Some r"
  by (simp add: router_delete_def)

lemma router_delete_present:
  assumes "router_inv r" "subscription_kv r key = Some f"
  shows "router_delete key r =
    Some \<lparr>root = delete_path key (TopicFilter_segments f) (root r),
          subscription_kv = (subscription_kv r)(key := None)\<rparr>"
proof -
  from router_inv_kvD [OF assms] obtain tx where "(TopicFilter_segments f, key, tx) \<in> set (entries (root r))"
    by blast
  with locate_entry [OF router_inv_wf [OF assms(1)]] obtain path
    where "locate (root r) (TopicFilter_segments f) = Some path" by blast
  then show ?thesis using assms(2) by (rule router_delete_eq)
qed

lemma router_delete_refines:
  assumes "router_inv r"
  shows "\<exists>r'. router_delete key r = Some r' \<and> router_inv r'
    \<and> subscriptions r' = (subscriptions r)(key := None)"
proof (cases "subscription_kv r key")
  case None
  then have "subscriptions r key = None" using subscriptions_kv [OF assms, of key] by simp
  then have "(subscriptions r)(key := None) = subscriptions r" by (rule fun_upd_idem)
  with None assms show ?thesis by (simp add: router_delete_absent)
next
  case (Some f)
  let ?p = "TopicFilter_segments f"
  let ?r = "\<lparr>root = delete_path key ?p (root r), subscription_kv = (subscription_kv r)(key := None)\<rparr>"
  have keys: "(p, key, tx) \<in> set (entries (root r)) \<Longrightarrow> p = ?p" for p tx
    using router_inv_entryD [OF assms, of p key tx] Some by auto
  have ent: "(p, k, tx) \<in> set (entries (root ?r)) \<longleftrightarrow> (p, k, tx) \<in> set (entries (root r)) \<and> k \<noteq> key"
    for p k tx
    using in_entries_delete_path [OF router_inv_wf [OF assms]] keys by auto
  have inv: "router_inv ?r"
    using router_inv_entryD [OF assms] router_inv_kvD [OF assms] wf_delete_path [OF router_inv_wf [OF assms]]
    unfolding router_inv_def ent by (auto split: if_splits)
  have "subscriptions ?r = (subscriptions r)(key := None)"
    by (rule table_eqI [OF inv]) (use ent subscriptions_Some_iff [OF assms] in auto)
  with inv router_delete_present [OF assms Some] show ?thesis by blast
qed

subsection \<open>Search\<close>

lemma to_subscription_inj: "to_subscription e = to_subscription e' \<longleftrightarrow> e = e'"
  by (cases e; cases e') (auto simp: to_subscription_def)

lemma mset_router_search:
  assumes "wf_node (root r)" "WILDCARD_MULTI \<notin> set (Topic_segments t)"
  shows "mset (subscription_list (router_search t r)) = matched (Topic_segments t) (root r)
    \<and> queue_group_list (router_search t r) = []"
  using search_loop_hits [of "[(root r, Topic_segments t)]" "([], [])"] node_hits_matched [OF assms] assms(1)
  by (auto simp: router_search_def split: prod.splits)

lemma router_search_table:
  assumes "router_inv r" "WILDCARD_MULTI \<notin> set (Topic_segments t)"
  shows "set (subscription_list (router_search t r))
      = to_subscription ` deliveries (subscriptions r) (Topic_segments t)
    \<and> distinct (subscription_list (router_search t r))
    \<and> queue_group_list (router_search t r) = []"
proof -
  let ?ts = "Topic_segments t" and ?E = "entries (root r)"
  let ?F = "filter (\<lambda>(p, e). filter_matches p ?ts) ?E"
  have ms: "mset (subscription_list (router_search t r)) = mset (map (\<lambda>(p, e). to_subscription e) ?F)"
    using mset_router_search [OF router_inv_wf [OF assms(1)] assms(2)]
    by (simp add: matched_def)
  have "deliveries (subscriptions r) ?ts = snd ` set ?F"
    by (force simp: deliveries_def subscriptions_Some_iff [OF assms(1)])
  then have st: "set (map (\<lambda>(p, e). to_subscription e) ?F) = to_subscription ` deliveries (subscriptions r) ?ts"
    by force
  have "inj_on (\<lambda>(p, e). to_subscription e) (set ?E)"
    using router_inv_entryD [OF assms(1)]
    by (auto simp: inj_on_def to_subscription_inj) (metis option.inject)+
  moreover have "distinct ?E"
    using distinct_keys [OF assms(1)] by (rule distinct_map_imp)
  ultimately have "distinct (map (\<lambda>(p, e). to_subscription e) ?F)"
    by (subst distinct_map) (auto intro: inj_on_subset)
  with ms st mset_router_search [OF router_inv_wf [OF assms(1)] assms(2)] show ?thesis
    by (metis mset_eq_imp_distinct_iff mset_eq_setD)
qed

interpretation trie: subscription_table Router_new router_insert router_delete router_search
  subscriptions router_inv
proof (unfold_locales, goal_cases)
  case 1
  show ?case by (rule subscriptions_new)
next
  case 2
  show ?case by (rule router_inv_new)
next
  case (3 r tx c s f)
  then show ?case by (simp add: router_inv_insert subscriptions_insert)
next
  case (4 r key)
  then show ?case using router_delete_refines by simp
next
  case (5 r t)
  then show ?case by (rule router_search_table)
qed

end
