(* ===== verification/Router_Properties.thy ===== *)
theory Router_Properties
  imports Router_Table
begin

text \<open>
  What users of the router can rely on, over whole histories of \<open>insert\<close> and \<open>delete\<close> calls:
  exact delivery, absence of panics, reclamation of the trie, isolation between subscriptions,
  and what happens when a subscription id is reused for a second filter.
\<close>

section \<open>Lemmas\<close>

lemma published_topic_no_hash: "Topic_new bs = Ok t \<Longrightarrow> WILDCARD_MULTI \<notin> set (Topic_segments t)"
  using topic_segments_no_wildcard [of bs WILDCARD_MULTI] by (auto simp: Topic_new_Ok_iff)

lemma in_router_search:
  assumes "wf_node (root r)" "WILDCARD_MULTI \<notin> set (Topic_segments t)"
  shows "to_subscription (k, tx) \<in> set (subscription_list (router_search t r)) \<longleftrightarrow>
    (\<exists>p. (p, k, tx) \<in> set (entries (root r)) \<and> filter_matches p (Topic_segments t))"
proof -
  have "set (subscription_list (router_search t r)) = set_mset (matched (Topic_segments t) (root r))"
    using mset_router_search [OF assms] by (metis set_mset_mset)
  then show ?thesis by (force simp: matched_def to_subscription_inj)
qed

lemma router_delete_cases:
  "router_delete key r = Some r
   \<or> (\<exists>f. subscription_kv r key = Some f \<and> router_delete key r =
        Some \<lparr>root = delete_path key (TopicFilter_segments f) (root r),
              subscription_kv = (subscription_kv r)(key := None)\<rparr>)"
proof (cases "subscription_kv r key")
  case None
  then show ?thesis by (simp add: router_delete_absent)
next
  case (Some f)
  then show ?thesis
    using router_delete_eq [OF _ Some]
    by (cases "locate (root r) (TopicFilter_segments f)") (auto simp: router_delete_def)
qed

lemma router_delete_wf: "wf_node (root r) \<Longrightarrow> router_delete key r = Some r' \<Longrightarrow> wf_node (root r')"
  using router_delete_cases [of key r] wf_delete_path by auto

lemma router_insert_wf: "wf_node (root r) \<Longrightarrow> wf_node (root (router_insert tx c s f r))"
  by (simp add: router_insert_def Let_def wf_insert_path)

lemma router_insert_level [simp]: "level (root (router_insert tx c s f r)) = level (root r)"
  by (simp add: router_insert_def Let_def)

lemma router_delete_level: "router_delete key r = Some r' \<Longrightarrow> level (root r') = level (root r)"
  using router_delete_cases [of key r] by auto

lemma router_run_wf:
  "wf_node (root r) \<Longrightarrow>
   \<exists>r'. run_ops router_insert router_delete ops r = Some r' \<and> wf_node (root r')
     \<and> level (root r') = level (root r)"
proof (induction ops arbitrary: r)
  case Nil
  then show ?case by simp
next
  case (Cons op ops)
  obtain r1 where r1: "run_op router_insert router_delete op r = Some r1"
    using router_delete_cases by (cases op) fastforce+
  then have "wf_node (root r1)" "level (root r1) = level (root r)"
    using Cons.prems router_insert_wf router_delete_wf router_delete_level by (cases op; fastforce)+
  with Cons.IH [of r1] r1 show ?case by simp
qed

lemma wf_no_entries:
  "wf_node n \<Longrightarrow> entries n = [] \<Longrightarrow> n = Node (level n) [] [] None False False"
proof (induction n)
  case (Node l sm qm ch ws wm)
  show ?case
  proof (cases ch)
    case None
    with Node.prems show ?thesis by (simp add: entries.simps wf_node.simps)
  next
    case (Some cs)
    with Node.prems obtain c where c: "c \<in> set cs" by (cases cs) (auto simp: wf_node.simps)
    with Some Node.prems have "wf_node c" "\<not> prunable c" "entries c = []"
      by (auto simp: entries.simps wf_node.simps)
    with Node.IH [of cs c] Some c have "c = Node (level c) [] [] None False False" by simp
    then have "prunable c" by (metis Node.sel(2,3,4) prunable_def)
    with \<open>\<not> prunable c\<close> show ?thesis by contradiction
  qed
qed

lemma filter_matches_hash:
  "filter_matches fs ts \<Longrightarrow> WILDCARD_MULTI \<notin> set fs \<Longrightarrow> filter_matches (fs @ [WILDCARD_MULTI]) (ts @ tail)"
  by (induction fs ts rule: filter_matches.induct) (auto split: list.splits)

lemma filter_matches_refl: "filter_matches ts ts"
  by (induction ts) auto

text \<open>The topic \<open>a\<close>, for the examples.\<close>

lemma Topic_new_a: "Topic_new [0x61] = Ok (Topic [0x61])"
  by (simp add: Topic_new_def validate_segments_def validate_raw_def validate_no_wildcards_def
      matchable_segments_def has_wildcard_def topic_consts)

section \<open>Properties\<close>

text \<open>
  C1: Exact delivery. Run any history of subscriptions and cancellations on a new router, in which
  no client reuses a live subscription id for another filter. No call panics, and a search for a
  validated topic then returns exactly the subscriptions that are live in the abstract table and
  whose filter matches the topic (\<open>+\<close> one segment, a final \<open>#\<close> any number of segments), each of
  them once, and no queue group.
\<close>

theorem router_delivers_exactly:
  assumes "ops_disciplined ops Map.empty" and "Topic_new bs = Ok t"
  shows "\<exists>r. run_ops router_insert router_delete ops Router_new = Some r
    \<and> set (subscription_list (router_search t r))
        = to_subscription ` deliveries (table_run ops Map.empty) (Topic_segments t)
    \<and> distinct (subscription_list (router_search t r))
    \<and> queue_group_list (router_search t r) = []"
  using assms(1) published_topic_no_hash [OF assms(2)] by (rule trie.lookup_after_ops)

theorem router_delivers_exactly_witness:
  "\<exists>r. run_ops router_insert router_delete
        [Insert (5 :: nat) (ClientId 1) 7 (TopicFilter [0x61, 0x2F, 0x2B]),
         Insert 6 (ClientId 2) 7 (TopicFilter [0x61, 0x2F, 0x23]),
         Delete (SubscriptionKey_new (ClientId 2) 7)] Router_new = Some r
    \<and> set (subscription_list (router_search (Topic [0x61, 0x2F, 0x62]) r))
        = {(ClientId 1, \<lparr>sub_subscription_id = 7, sub_tx = 5\<rparr>)}"
proof -
  let ?ops = "[Insert (5 :: nat) (ClientId 1) 7 (TopicFilter [0x61, 0x2F, 0x2B]),
         Insert 6 (ClientId 2) 7 (TopicFilter [0x61, 0x2F, 0x23]),
         Delete (SubscriptionKey_new (ClientId 2) 7)]"
  have d: "ops_disciplined ?ops Map.empty" by (simp add: SubscriptionKey_new_def)
  have t: "Topic_new [0x61, 0x2F, 0x62] = Ok (Topic [0x61, 0x2F, 0x62])"
    by (simp add: Topic_new_def validate_segments_def validate_raw_def validate_no_wildcards_def
        matchable_segments_def has_wildcard_def topic_consts)
  have "to_subscription ` deliveries (table_run ?ops Map.empty) (Topic_segments (Topic [0x61, 0x2F, 0x62]))
      = {(ClientId 1, \<lparr>sub_subscription_id = 7, sub_tx = 5\<rparr>)}"
    by (auto simp: deliveries_def to_subscription_def SubscriptionKey_new_def image_iff
        Topic_segments_def TopicFilter_segments_def topic_consts split: if_splits)
  then show ?thesis using router_delivers_exactly [OF d t] by auto
qed

text \<open>
  C14: \<open>Router::delete\<close> never panics: on any router and any key, the index arithmetic and the
  \<open>unwrap\<close>s of its three passes succeed.
\<close>

theorem router_delete_never_panics: "\<exists>r'. router_delete key r = Some r'"
  using router_delete_cases [of key r] by auto

text \<open>
  C15: Round trip. Subscribing under a fresh key and cancelling it again restores the router
  exactly, the shape of the trie and its wildcard flags included.
\<close>

theorem router_insert_delete_restores:
  assumes "router_inv r" and "subscription_kv r (SubscriptionKey_new c s) = None"
  shows "router_delete (SubscriptionKey_new c s) (router_insert tx c s f r) = Some r"
proof -
  let ?k = "SubscriptionKey_new c s" and ?p = "TopicFilter_segments f"
  have fresh: "(p, ?k, tx') \<notin> set (entries (root r))" for p tx'
    using router_inv_entryD [OF assms(1)] assms(2) by fastforce
  then have "subscriptions r ?k = None"
    using subscriptions_Some_iff [OF assms(1), of ?k] by (metis not_None_eq surj_pair)
  then have inv: "router_inv (router_insert tx c s f r)"
    by (intro router_inv_insert assms(1)) simp
  have "delete_path ?k ?p (insert_path ?k tx ?p (root r)) = root r"
    using fresh router_inv_wf [OF assms(1)] by (intro delete_insert_path) auto
  moreover have "(subscription_kv r)(?k := None) = subscription_kv r"
    using assms(2) by (rule fun_upd_idem)
  ultimately show ?thesis
    using router_delete_present [OF inv, of ?k f] by (simp add: router_insert_def Let_def)
qed

theorem router_insert_delete_restores_witness:
  "router_delete (SubscriptionKey_new (ClientId 1) 7)
     (router_insert (0 :: nat) (ClientId 1) 7 (TopicFilter [0x61, 0x2F, 0x23]) Router_new) = Some Router_new"
  by (rule router_insert_delete_restores) (simp, simp add: Router_new_def)

text \<open>
  C20: Shape invariant. Whatever the sequence of \<open>insert\<close> and \<open>delete\<close> calls, reuse of ids
  included, no call panics and the trie stays well formed: sibling levels are distinct, each
  wildcard flag is set exactly when the wildcard child exists, no child vector is empty, and no
  branch is left without subscriptions.
\<close>

theorem router_stays_well_formed:
  "\<exists>r. run_ops router_insert router_delete ops Router_new = Some r \<and> wf_node (root r)"
  using router_run_wf [of Router_new ops] by (auto simp: Router_new_def)

text \<open>
  C21: Reclamation. After a disciplined history that leaves no live subscription, the trie is the
  empty root again: every node allocated on the way has been freed.
\<close>

theorem router_reclaims_all_nodes:
  assumes "ops_disciplined ops Map.empty" and "table_run ops Map.empty = Map.empty"
  shows "\<exists>r. run_ops router_insert router_delete ops Router_new = Some r \<and> root r = Node_default"
proof -
  obtain r where r: "run_ops router_insert router_delete ops Router_new = Some r" "router_inv r"
      "subscriptions r = Map.empty"
    using trie.run_ops_refines [OF router_inv_new, of ops] assms by (auto simp: subscriptions_new)
  have "e \<notin> set (entries (root r))" for e
    using subscriptions_Some_iff [OF r(2), of "fst (snd e)" "fst e" "snd (snd e)"] r(3) by simp
  then have "entries (root r) = []" by (metis list.set_sel(1))
  moreover have "level (root r) = []"
    using router_run_wf [of Router_new ops] r(1) by (auto simp: Router_new_def Node_default_def wf_node.simps)
  ultimately show ?thesis
    using wf_no_entries [OF router_inv_wf [OF r(2)]] r(1) by (auto simp: Node_default_def)
qed

theorem router_reclaims_all_nodes_witness:
  "\<exists>r. run_ops router_insert router_delete
        [Insert (5 :: nat) (ClientId 1) 7 (TopicFilter [0x61, 0x2F, 0x2B]),
         Delete (SubscriptionKey_new (ClientId 1) 7)] Router_new = Some r \<and> root r = Node_default"
  by (rule router_reclaims_all_nodes) simp_all

text \<open>
  C22: Isolation. On any well-formed router, an \<open>insert\<close> or a \<open>delete\<close> for one key changes
  nothing of what a search returns for any other key.
\<close>

theorem router_ops_isolated:
  assumes "wf_node (root r)" and "Topic_new bs = Ok t"
    and "run_op router_insert router_delete op r = Some r'"
    and "k \<noteq> (case op of Insert _ c s _ \<Rightarrow> SubscriptionKey_new c s | Delete key \<Rightarrow> key)"
  shows "to_subscription (k, tx) \<in> set (subscription_list (router_search t r')) \<longleftrightarrow>
         to_subscription (k, tx) \<in> set (subscription_list (router_search t r))"
proof -
  have "(p, k, tx) \<in> set (entries (root r')) \<longleftrightarrow> (p, k, tx) \<in> set (entries (root r))" for p
  proof (cases op)
    case (Insert tx' c s f)
    with assms show ?thesis by (auto simp: router_insert_def Let_def in_entries_insert_path)
  next
    case (Delete key)
    with assms show ?thesis
      using router_delete_cases [of key r] by (auto simp: in_entries_delete_path)
  qed
  moreover have "wf_node (root r')"
    using assms(1,3) router_insert_wf router_delete_wf by (cases op) auto
  ultimately show ?thesis
    using assms(1) published_topic_no_hash [OF assms(2)] by (simp add: in_router_search)
qed

theorem router_ops_isolated_witness:
  "to_subscription (SubscriptionKey_new (ClientId 1) 1, 5 :: nat) \<in> set (subscription_list
     (router_search (Topic [0x61]) (router_insert 6 (ClientId 2) 1 (TopicFilter [0x61])
        (router_insert 5 (ClientId 1) 1 (TopicFilter [0x61]) Router_new))))"
proof -
  let ?k = "SubscriptionKey_new (ClientId 1) 1"
  let ?r = "router_insert (5 :: nat) (ClientId 1) 1 (TopicFilter [0x61]) Router_new"
  have wf: "wf_node (root ?r)" by (rule router_insert_wf) (simp add: Router_new_def)
  note t = Topic_new_a
  have "([[0x61]], ?k, 5) \<in> set (entries (root ?r))"
    by (simp add: router_insert_def Let_def in_entries_insert_path Router_new_def
        TopicFilter_segments_def topic_consts del: in_entries_Cons)
  moreover have "filter_matches [[0x61]] (Topic_segments (Topic [0x61]))"
    by (simp add: Topic_segments_def topic_consts)
  ultimately have "to_subscription (?k, 5) \<in> set (subscription_list (router_search (Topic [0x61]) ?r))"
    using in_router_search [OF wf published_topic_no_hash [OF t]] by blast
  then show ?thesis
    using router_ops_isolated [OF wf t, of "Insert 6 (ClientId 2) 1 (TopicFilter [0x61])" _ ?k 5]
    by (simp add: SubscriptionKey_new_def)
qed

text \<open>
  C33: A trailing \<open>#\<close> matches any number of further levels, zero included: a live subscription to
  \<open>fs/#\<close> is returned for every topic that begins with a match of \<open>fs\<close>, and for that match
  itself.
\<close>

theorem trailing_hash_matches_any_depth:
  assumes "router_inv r" and "subscriptions r k = Some (fs @ [WILDCARD_MULTI], tx)"
    and "WILDCARD_MULTI \<notin> set fs" and "Topic_new bs = Ok t"
    and "Topic_segments t = ts @ below" and "filter_matches fs ts"
  shows "to_subscription (k, tx) \<in> set (subscription_list (router_search t r))"
proof -
  have "filter_matches (fs @ [WILDCARD_MULTI]) (Topic_segments t)"
    using assms(3,5,6) by (simp add: filter_matches_hash)
  moreover have "(fs @ [WILDCARD_MULTI], k, tx) \<in> set (entries (root r))"
    using assms(1,2) by (simp add: subscriptions_Some_iff)
  ultimately show ?thesis
    using in_router_search [OF router_inv_wf [OF assms(1)] published_topic_no_hash [OF assms(4)]]
    by blast
qed

theorem trailing_hash_matches_any_depth_witness:
  "to_subscription (SubscriptionKey_new (ClientId 1) 1, 5 :: nat) \<in> set (subscription_list
     (router_search (Topic [0x61])
        (router_insert 5 (ClientId 1) 1 (TopicFilter [0x61, 0x2F, 0x23]) Router_new)))"
proof -
  let ?r = "router_insert (5 :: nat) (ClientId 1) 1 (TopicFilter [0x61, 0x2F, 0x23]) Router_new"
  have d: "op_disciplined (Insert (5 :: nat) (ClientId 1) 1 (TopicFilter [0x61, 0x2F, 0x23])) (subscriptions Router_new)"
    by (simp add: subscriptions_new)
  have s: "TopicFilter_segments (TopicFilter [0x61, 0x2F, 0x23]) = [[0x61]] @ [WILDCARD_MULTI]"
    by (simp add: TopicFilter_segments_def topic_consts)
  note t = Topic_new_a
  show ?thesis
  proof (rule trailing_hash_matches_any_depth [OF _ _ _ t])
    show "router_inv ?r" using d by (rule router_inv_insert [OF router_inv_new])
    show "subscriptions ?r (SubscriptionKey_new (ClientId 1) 1) = Some ([[0x61]] @ [WILDCARD_MULTI], 5)"
      using subscriptions_insert [OF router_inv_new d] s by simp
    show "WILDCARD_MULTI \<notin> set [[0x61]]" by (simp add: WILDCARD_MULTI_def)
    show "Topic_segments (Topic [0x61]) = [[0x61]] @ []" by (simp add: Topic_segments_def topic_consts)
    show "filter_matches [[0x61]] [[0x61]]" by simp
  qed
qed



end
