(* ===== verification/Pb.thy ===== *)
theory Pb
  imports Ocypode_Error
begin

text \<open>
  The protocol messages of \<open>proto/ocypode/pubsub/v1/pubsub.proto\<close>, as the structs that the build
  generates from it (module \<open>pb\<close> of \<open>parser.rs\<close>), and the interface of the generated code.

  The generated \<open>prost::Message\<close> implementations are not part of the repository: they are the
  parameter \<open>prost\<close>, a record of one encoder and one decoder per message. What the program relies
  on is that decoding inverts encoding, the locale \<open>message_codec\<close>. \<open>Wire\<close> and
  \<open>Wire_Messages\<close> provide encoders and decoders of the protobuf wire format for these messages
  and interpret the locale with them.
\<close>

section \<open>Messages\<close>

datatype AuthMethod = NoAuth | Password

text \<open>\<open>pb::AuthMethod::X as i32\<close>; enum fields are held as \<open>i32\<close>, here 32-bit words.\<close>

fun AuthMethod_as_i32 :: "AuthMethod \<Rightarrow> 32 word" where
  "AuthMethod_as_i32 NoAuth = 0"
| "AuthMethod_as_i32 Password = 1"

record pb_Info =
  info_version :: u32
  info_server_id :: string
  info_server_name :: string
  info_max_payload :: u32
  info_client_id :: u64
  info_requires_auth :: bool
  info_tls_verify :: bool

record pb_PasswordAuth =
  pa_username :: string
  pa_password :: string

datatype pb_Credentials = Credentials_PasswordAuth pb_PasswordAuth

record pb_Connect =
  connect_version :: u32
  connect_verbose :: bool
  connect_auth_method :: "32 word"
  connect_credentials :: "pb_Credentials option"

record pb_Publish =
  publish_topic :: bytes
  publish_payload :: bytes
  publish_header :: bytes

record pb_Subscribe =
  subscribe_topic :: bytes
  subscribe_subscription_id :: u32
  subscribe_queue_group :: string

record pb_UnSubscribe =
  unsubscribe_subscription_id :: u32

record pb_Message =
  message_topic :: bytes
  message_subscription_id :: u32
  message_payload :: bytes
  message_header :: bytes

section \<open>The generated encoders and decoders\<close>

record prost =
  Info_encode :: "pb_Info \<Rightarrow> EncodeError + bytes"
  Info_decode :: "bytes \<Rightarrow> DecodeError + pb_Info"
  Connect_encode :: "pb_Connect \<Rightarrow> EncodeError + bytes"
  Connect_decode :: "bytes \<Rightarrow> DecodeError + pb_Connect"
  Publish_encode :: "pb_Publish \<Rightarrow> EncodeError + bytes"
  Publish_decode :: "bytes \<Rightarrow> DecodeError + pb_Publish"
  Subscribe_encode :: "pb_Subscribe \<Rightarrow> EncodeError + bytes"
  Subscribe_decode :: "bytes \<Rightarrow> DecodeError + pb_Subscribe"
  UnSubscribe_encode :: "pb_UnSubscribe \<Rightarrow> EncodeError + bytes"
  UnSubscribe_decode :: "bytes \<Rightarrow> DecodeError + pb_UnSubscribe"
  Message_encode :: "pb_Message \<Rightarrow> EncodeError + bytes"
  Message_decode :: "bytes \<Rightarrow> DecodeError + pb_Message"

text \<open>
  The contract of one message type: encoding into a growing buffer succeeds and decoding gives
  the message back, for the values the Rust type can hold (\<open>valid\<close>: its strings are UTF-8).
\<close>

locale message_codec =
  fixes enc :: "'m \<Rightarrow> EncodeError + bytes"
    and dec :: "bytes \<Rightarrow> DecodeError + 'm"
    and valid :: "'m \<Rightarrow> bool"
  assumes decode_encode: "valid m \<Longrightarrow> \<exists>payload. enc m = Ok payload \<and> dec payload = Ok m"
begin

lemma encode_inj: "valid m \<Longrightarrow> valid m' \<Longrightarrow> enc m = enc m' \<Longrightarrow> m = m'"
  using decode_encode [of m] decode_encode [of m'] by auto

lemma encoded_decodes: "valid m \<Longrightarrow> enc m = Ok payload \<Longrightarrow> dec payload = Ok m"
  using decode_encode [of m] by auto

end

end
