(* ===== verification/Parser.thy ===== *)
theory Parser
  imports Pb Client_Id
begin

unbundle bit_operations_syntax

text \<open>
  \<open>crates/server/src/parser.rs\<close>: commands, frames and the two codecs. A frame on the wire is one
  command byte, the payload length as a big-endian \<open>u32\<close>, and the payload. \<open>ServerCodec\<close> decodes
  what clients send, \<open>ClientCodec\<close> what the server sends; both resynchronise by dropping a byte
  when the command or the length is not acceptable. A codec call takes the buffer and returns
  its result with the buffer that is left.
\<close>

section \<open>Constants and commands\<close>

definition COMMAND_BYTE_LEN :: nat where "COMMAND_BYTE_LEN = 1"

definition PAYLOAD_LENGTH_BYTES :: nat where "PAYLOAD_LENGTH_BYTES = 4"

definition HEADER_LENGTH :: nat where "HEADER_LENGTH = COMMAND_BYTE_LEN + PAYLOAD_LENGTH_BYTES"

definition MAXIMUM_PAYLOAD_BYTES :: nat where "MAXIMUM_PAYLOAD_BYTES = 1024 * 1024"

definition PROTOCOL_VERSION :: u32 where "PROTOCOL_VERSION = 1"

lemma HEADER_LENGTH_5 [simp]: "HEADER_LENGTH = 5"
  by (simp add: HEADER_LENGTH_def COMMAND_BYTE_LEN_def PAYLOAD_LENGTH_BYTES_def)

datatype Command =
    Command_Info
  | Command_Connect
  | Command_Publish
  | Command_Subscribe
  | Command_UnSubscribe
  | Command_Message

fun Command_as_u8 :: "Command \<Rightarrow> u8" where
  "Command_as_u8 Command_Info = 0x00"
| "Command_as_u8 Command_Connect = 0x01"
| "Command_as_u8 Command_Publish = 0x02"
| "Command_as_u8 Command_Subscribe = 0x03"
| "Command_as_u8 Command_UnSubscribe = 0x04"
| "Command_as_u8 Command_Message = 0x05"

text \<open>The trait \<open>CommandCodec\<close> as a dictionary: its constant and the two supertrait methods.\<close>

record 'm CommandCodec =
  COMMAND :: u8
  Message_encode_fn :: "'m \<Rightarrow> EncodeError + bytes"
  Message_decode_fn :: "bytes \<Rightarrow> DecodeError + 'm"

definition encode_payload :: "'m CommandCodec \<Rightarrow> 'm \<Rightarrow> CodecError + bytes" where
  "encode_payload C m = map_err Encode (Message_encode_fn C m)"

definition decode_payload :: "'m CommandCodec \<Rightarrow> bytes \<Rightarrow> CodecError + 'm" where
  "decode_payload C payload = map_err Decode (Message_decode_fn C payload)"

definition Info_codec :: "prost \<Rightarrow> pb_Info CommandCodec" where
  "Info_codec P = \<lparr>COMMAND = Command_as_u8 Command_Info,
     Message_encode_fn = Info_encode P, Message_decode_fn = Info_decode P\<rparr>"

definition Connect_codec :: "prost \<Rightarrow> pb_Connect CommandCodec" where
  "Connect_codec P = \<lparr>COMMAND = Command_as_u8 Command_Connect,
     Message_encode_fn = Connect_encode P, Message_decode_fn = Connect_decode P\<rparr>"

definition Publish_codec :: "prost \<Rightarrow> pb_Publish CommandCodec" where
  "Publish_codec P = \<lparr>COMMAND = Command_as_u8 Command_Publish,
     Message_encode_fn = Publish_encode P, Message_decode_fn = Publish_decode P\<rparr>"

definition Subscribe_codec :: "prost \<Rightarrow> pb_Subscribe CommandCodec" where
  "Subscribe_codec P = \<lparr>COMMAND = Command_as_u8 Command_Subscribe,
     Message_encode_fn = Subscribe_encode P, Message_decode_fn = Subscribe_decode P\<rparr>"

definition UnSubscribe_codec :: "prost \<Rightarrow> pb_UnSubscribe CommandCodec" where
  "UnSubscribe_codec P = \<lparr>COMMAND = Command_as_u8 Command_UnSubscribe,
     Message_encode_fn = UnSubscribe_encode P, Message_decode_fn = UnSubscribe_decode P\<rparr>"

definition Message_codec :: "prost \<Rightarrow> pb_Message CommandCodec" where
  "Message_codec P = \<lparr>COMMAND = Command_as_u8 Command_Message,
     Message_encode_fn = Message_encode P, Message_decode_fn = Message_decode P\<rparr>"

lemmas codec_defs = Info_codec_def Connect_codec_def Publish_codec_def Subscribe_codec_def
  UnSubscribe_codec_def Message_codec_def

datatype Frame =
    Frame_Connect pb_Connect
  | Frame_Publish pb_Publish
  | Frame_Subscribe pb_Subscribe
  | Frame_UnSubscribe pb_UnSubscribe

datatype ClientFrame =
    ClientFrame_Info pb_Info
  | ClientFrame_Message pb_Message

datatype OutboundMessage =
    OutboundMessage_Info pb_Info
  | OutboundMessage_Message pb_Message

datatype ServerInboundCommand =
    ServerInbound_Connect
  | ServerInbound_Publish
  | ServerInbound_Subscribe
  | ServerInbound_UnSubscribe

definition ServerInboundCommand_try_from :: "u8 \<Rightarrow> unit + ServerInboundCommand" where
  "ServerInboundCommand_try_from v =
     (if v = Command_as_u8 Command_Connect then Ok ServerInbound_Connect
      else if v = Command_as_u8 Command_Publish then Ok ServerInbound_Publish
      else if v = Command_as_u8 Command_Subscribe then Ok ServerInbound_Subscribe
      else if v = Command_as_u8 Command_UnSubscribe then Ok ServerInbound_UnSubscribe
      else Err ())"

datatype ClientInboundCommand =
    ClientInbound_Info
  | ClientInbound_Message

definition ClientInboundCommand_try_from :: "u8 \<Rightarrow> unit + ClientInboundCommand" where
  "ClientInboundCommand_try_from v =
     (if v = Command_as_u8 Command_Info then Ok ClientInbound_Info
      else if v = Command_as_u8 Command_Message then Ok ClientInbound_Message
      else Err ())"

section \<open>Message builders\<close>

definition ServerOutbound_info :: "u32 \<Rightarrow> ClientId \<Rightarrow> string \<Rightarrow> string \<Rightarrow> bool \<Rightarrow> bool \<Rightarrow> pb_Info" where
  "ServerOutbound_info version client_id server_id server_name requires_auth tls_verify =
     \<lparr>info_version = version, info_server_id = server_id, info_server_name = server_name,
      info_max_payload = of_nat MAXIMUM_PAYLOAD_BYTES, info_client_id = client_id_value client_id,
      info_requires_auth = requires_auth, info_tls_verify = tls_verify\<rparr>"

definition ServerOutbound_default_info :: pb_Info where
  "ServerOutbound_default_info =
     ServerOutbound_info 1 (ClientId 0) ''ocypode-server'' ''ocypode'' False False"

definition ClientOutbound_connect :: "u32 \<Rightarrow> bool \<Rightarrow> pb_Connect" where
  "ClientOutbound_connect version verbose =
     \<lparr>connect_version = version, connect_verbose = verbose,
      connect_auth_method = AuthMethod_as_i32 NoAuth, connect_credentials = None\<rparr>"

definition ClientOutbound_connect_with_password ::
    "u32 \<Rightarrow> bool \<Rightarrow> string \<Rightarrow> string \<Rightarrow> pb_Connect" where
  "ClientOutbound_connect_with_password version verbose username password =
     \<lparr>connect_version = version, connect_verbose = verbose,
      connect_auth_method = AuthMethod_as_i32 Password,
      connect_credentials = Some (Credentials_PasswordAuth
        \<lparr>pa_username = username, pa_password = password\<rparr>)\<rparr>"

section \<open>Headers\<close>

text \<open>\<open>BufMut::put_u32\<close> and \<open>Buf::get_u32\<close>: most significant byte first.\<close>

definition put_u32 :: "u32 \<Rightarrow> bytes" where
  "put_u32 w = [ucast (drop_bit 24 w), ucast (drop_bit 16 w), ucast (drop_bit 8 w), ucast w]"

definition get_u32 :: "bytes \<Rightarrow> u32" where
  "get_u32 bs = push_bit 24 (ucast (bs ! 0)) OR push_bit 16 (ucast (bs ! 1))
     OR push_bit 8 (ucast (bs ! 2)) OR ucast (bs ! 3)"

definition parse_header :: "bytes \<Rightarrow> (u8 \<times> nat) option" where
  "parse_header incoming_bytes =
     (if length incoming_bytes < HEADER_LENGTH then None
      else let header_bytes = take HEADER_LENGTH incoming_bytes;
               command = header_bytes ! 0;
               payload_length = unat (get_u32 (drop 1 header_bytes))
           in Some (command, payload_length))"

lemma parse_header_Some: "parse_header bs = Some h \<Longrightarrow> 5 \<le> length bs"
  by (auto simp: parse_header_def split: if_splits)

section \<open>The server codec\<close>

function server_decode :: "prost \<Rightarrow> bytes \<Rightarrow> (ServerCodecError + Frame option) \<times> bytes" where
  "server_decode P incoming_bytes =
     (case parse_header incoming_bytes of
        None \<Rightarrow> (Ok None, incoming_bytes)
      | Some (command, payload_length) \<Rightarrow>
          (case ServerInboundCommand_try_from command of
             Err _ \<Rightarrow> server_decode P (drop 1 incoming_bytes)
           | Ok cmd \<Rightarrow>
               if payload_length > MAXIMUM_PAYLOAD_BYTES
               then server_decode P (drop 1 incoming_bytes)
               else if length incoming_bytes < HEADER_LENGTH + payload_length
               then (Ok None, incoming_bytes)
               else
                 (let incoming1 = drop HEADER_LENGTH incoming_bytes;
                      payload_bytes = take payload_length incoming1;
                      incoming2 = drop payload_length incoming1;
                      frame = (case cmd of
                          ServerInbound_Connect \<Rightarrow>
                            map_ok Frame_Connect (decode_payload (Connect_codec P) payload_bytes)
                        | ServerInbound_Publish \<Rightarrow>
                            map_ok Frame_Publish (decode_payload (Publish_codec P) payload_bytes)
                        | ServerInbound_Subscribe \<Rightarrow>
                            map_ok Frame_Subscribe (decode_payload (Subscribe_codec P) payload_bytes)
                        | ServerInbound_UnSubscribe \<Rightarrow>
                            map_ok Frame_UnSubscribe (decode_payload (UnSubscribe_codec P) payload_bytes))
                  in (map_ok Some (map_err ServerCodecError_Codec frame), incoming2))))"
  by pat_completeness auto
termination
  by (relation "measure (\<lambda>(P, bs). length bs)") (auto dest: parse_header_Some)

definition server_encode ::
    "'m CommandCodec \<Rightarrow> 'm \<Rightarrow> bytes \<Rightarrow> (ServerCodecError + unit) \<times> bytes" where
  "server_encode C item output_buffer =
     (case encode_payload C item of
        Err e \<Rightarrow> (Err (ServerCodecError_Codec e), output_buffer)
      | Ok payload \<Rightarrow>
          if length payload < 2 ^ 32
          then (Ok (), output_buffer @ [COMMAND C] @ put_u32 (of_nat (length payload)) @ payload)
          else (Err (ServerCodecError_Codec (InvalidSizeBytes (length payload))), output_buffer))"

section \<open>The client codec\<close>

function client_decode :: "prost \<Rightarrow> bytes \<Rightarrow> (ClientCodecError + ClientFrame option) \<times> bytes" where
  "client_decode P incoming_bytes =
     (case parse_header incoming_bytes of
        None \<Rightarrow> (Ok None, incoming_bytes)
      | Some (command, payload_length) \<Rightarrow>
          (case ClientInboundCommand_try_from command of
             Err _ \<Rightarrow> client_decode P (drop 1 incoming_bytes)
           | Ok cmd \<Rightarrow>
               if payload_length > MAXIMUM_PAYLOAD_BYTES
               then client_decode P (drop 1 incoming_bytes)
               else if length incoming_bytes < HEADER_LENGTH + payload_length
               then (Ok None, incoming_bytes)
               else
                 (let incoming1 = drop HEADER_LENGTH incoming_bytes;
                      payload_bytes = take payload_length incoming1;
                      incoming2 = drop payload_length incoming1;
                      frame = (case cmd of
                          ClientInbound_Info \<Rightarrow>
                            map_ok ClientFrame_Info (decode_payload (Info_codec P) payload_bytes)
                        | ClientInbound_Message \<Rightarrow>
                            map_ok ClientFrame_Message (decode_payload (Message_codec P) payload_bytes))
                  in (map_ok Some (map_err ClientCodecError_Codec frame), incoming2))))"
  by pat_completeness auto
termination
  by (relation "measure (\<lambda>(P, bs). length bs)") (auto dest: parse_header_Some)

definition client_encode ::
    "'m CommandCodec \<Rightarrow> 'm \<Rightarrow> bytes \<Rightarrow> (ClientCodecError + unit) \<times> bytes" where
  "client_encode C item output_buffer =
     (case encode_payload C item of
        Err e \<Rightarrow> (Err (ClientCodecError_Codec e), output_buffer)
      | Ok payload \<Rightarrow>
          if length payload < 2 ^ 32
          then (Ok (), output_buffer @ [COMMAND C] @ put_u32 (of_nat (length payload)) @ payload)
          else (Err (ClientCodecError_Codec (InvalidSizeBytes (length payload))), output_buffer))"

declare server_decode.simps [simp del] client_decode.simps [simp del]

end
