(* ===== verification/Codec_Spec.thy ===== *)
theory Codec_Spec
  imports Parser
begin

unbundle bit_operations_syntax

text \<open>
  What the codecs do to a byte stream. Both \<open>decode\<close> loops are instances of one loop
  \<open>decode_loop\<close>, which differs only in the commands it accepts and the payload decoders. The
  lemmas are proved for that loop: a complete frame at the front of the buffer is taken off
  exactly, garbage is skipped, an incomplete frame waits, and more bytes never change an answer
  that has been given. The locale \<open>stream_decoder\<close> keeps the part of it that a reader relies on.
\<close>

section \<open>Big-endian lengths\<close>

lemma length_put_u32 [simp]: "length (put_u32 w) = 4"
  by (simp add: put_u32_def)

lemma get_put_u32 [simp]: "get_u32 (put_u32 w) = w"
proof (rule bit_word_eqI)
  fix n :: nat
  assume n: "n < LENGTH(32)"
  then have n: "n < 32" by simp
  consider "n < 8" | "8 \<le> n \<and> n < 16" | "16 \<le> n \<and> n < 24" | "24 \<le> n \<and> n < 32"
    using n by linarith
  then show "bit (get_u32 (put_u32 w)) n = bit w n"
    by cases (auto simp: get_u32_def put_u32_def bit_simps)
qed

lemma put_u32_inj: "put_u32 v = put_u32 w \<Longrightarrow> v = w"
  by (metis get_put_u32)

lemma put_get_u32: "length bs = 4 \<Longrightarrow> put_u32 (get_u32 bs) = bs"
proof -
  assume "length bs = 4"
  then obtain a b c d where bs: "bs = [a, b, c, d]"
    by (auto simp: length_Suc_conv numeral_eq_Suc)
  show ?thesis
    unfolding bs get_u32_def put_u32_def
    by (auto intro!: bit_word_eqI simp: bit_simps) (auto dest: bit_imp_le_length)
qed

section \<open>Frames on the wire\<close>

definition frame_bytes :: "u8 \<Rightarrow> bytes \<Rightarrow> bytes" where
  "frame_bytes c payload = c # put_u32 (of_nat (length payload)) @ payload"

lemma length_frame_bytes [simp]: "length (frame_bytes c payload) = 5 + length payload"
  by (simp add: frame_bytes_def)

lemma parse_header_append: "5 \<le> length bs \<Longrightarrow> parse_header (bs @ x) = parse_header bs"
  by (simp add: parse_header_def Let_def)

lemma parse_header_frame:
  assumes "length payload < 2 ^ 32"
  shows "parse_header (frame_bytes c payload @ rest) = Some (c, length payload)"
proof -
  let ?w = "of_nat (length payload) :: u32"
  have "take 5 (frame_bytes c payload @ rest) = c # put_u32 ?w"
    by (simp add: frame_bytes_def numeral_eq_Suc put_u32_def)
  moreover have "unat ?w = length payload" using assms by (simp add: unat_of_nat)
  ultimately show ?thesis by (simp add: parse_header_def Let_def)
qed

lemma parse_header_split:
  assumes "parse_header bs = Some (c, len)"
  shows "bs = (c # put_u32 (of_nat len)) @ drop 5 bs"
proof -
  have l: "5 \<le> length bs" and len: "len = unat (get_u32 (drop 1 (take 5 bs)))" and c: "c = take 5 bs ! 0"
    using assms by (auto simp: parse_header_def Let_def split: if_splits)
  have "put_u32 (of_nat len) = drop 1 (take 5 bs)"
    using l len by (simp add: put_get_u32)
  moreover have "take 5 bs = c # drop 1 (take 5 bs)"
    using l c by (cases bs) auto
  ultimately have "take 5 bs = c # put_u32 (of_nat len)" by simp
  then show ?thesis by (metis append_take_drop_id)
qed

section \<open>The common loop\<close>

text \<open>
  \<open>pick c\<close> is the payload decoder for command byte \<open>c\<close>, or \<open>None\<close> when this side does not accept
  the command.
\<close>

function decode_loop :: "(u8 \<Rightarrow> (bytes \<Rightarrow> 'e + 'f) option) \<Rightarrow> bytes \<Rightarrow> ('e + 'f option) \<times> bytes" where
  "decode_loop pick bs =
     (case parse_header bs of
        None \<Rightarrow> (Ok None, bs)
      | Some (c, len) \<Rightarrow>
          (case pick c of
             None \<Rightarrow> decode_loop pick (drop 1 bs)
           | Some d \<Rightarrow>
               if len > MAXIMUM_PAYLOAD_BYTES then decode_loop pick (drop 1 bs)
               else if length bs < 5 + len then (Ok None, bs)
               else (map_ok Some (d (take len (drop 5 bs))), drop len (drop 5 bs))))"
  by pat_completeness auto
termination
  by (relation "measure (\<lambda>(pick, bs). length bs)") (auto dest: parse_header_Some)

declare decode_loop.simps [simp del]

definition server_pick :: "prost \<Rightarrow> u8 \<Rightarrow> (bytes \<Rightarrow> ServerCodecError + Frame) option" where
  "server_pick P c =
     (case ServerInboundCommand_try_from c of
        Err _ \<Rightarrow> None
      | Ok ServerInbound_Connect \<Rightarrow> Some (\<lambda>b. map_err ServerCodecError_Codec
          (map_ok Frame_Connect (decode_payload (Connect_codec P) b)))
      | Ok ServerInbound_Publish \<Rightarrow> Some (\<lambda>b. map_err ServerCodecError_Codec
          (map_ok Frame_Publish (decode_payload (Publish_codec P) b)))
      | Ok ServerInbound_Subscribe \<Rightarrow> Some (\<lambda>b. map_err ServerCodecError_Codec
          (map_ok Frame_Subscribe (decode_payload (Subscribe_codec P) b)))
      | Ok ServerInbound_UnSubscribe \<Rightarrow> Some (\<lambda>b. map_err ServerCodecError_Codec
          (map_ok Frame_UnSubscribe (decode_payload (UnSubscribe_codec P) b))))"

definition client_pick :: "prost \<Rightarrow> u8 \<Rightarrow> (bytes \<Rightarrow> ClientCodecError + ClientFrame) option" where
  "client_pick P c =
     (case ClientInboundCommand_try_from c of
        Err _ \<Rightarrow> None
      | Ok ClientInbound_Info \<Rightarrow> Some (\<lambda>b. map_err ClientCodecError_Codec
          (map_ok ClientFrame_Info (decode_payload (Info_codec P) b)))
      | Ok ClientInbound_Message \<Rightarrow> Some (\<lambda>b. map_err ClientCodecError_Codec
          (map_ok ClientFrame_Message (decode_payload (Message_codec P) b))))"

lemma server_decode_loop: "server_decode P bs = decode_loop (server_pick P) bs"
proof (induction P bs rule: server_decode.induct)
  case (1 P bs)
  show ?case
  proof (cases "parse_header bs")
    case None
    then show ?thesis by (simp add: server_decode.simps [of P bs] decode_loop.simps [of _ bs])
  next
    case (Some h)
    obtain c len where h: "h = (c, len)" by (cases h)
    note IH = "1"(1,2) [OF Some h [symmetric], unfolded One_nat_def]
    show ?thesis
      by (cases "ServerInboundCommand_try_from c"; cases "len > MAXIMUM_PAYLOAD_BYTES")
        (auto simp: server_decode.simps [of P bs] decode_loop.simps [of _ bs] Some h Let_def IH
          server_pick_def [of P c] split: ServerInboundCommand.splits)
  qed
qed

lemma client_decode_loop: "client_decode P bs = decode_loop (client_pick P) bs"
proof (induction P bs rule: client_decode.induct)
  case (1 P bs)
  show ?case
  proof (cases "parse_header bs")
    case None
    then show ?thesis by (simp add: client_decode.simps [of P bs] decode_loop.simps [of _ bs])
  next
    case (Some h)
    obtain c len where h: "h = (c, len)" by (cases h)
    note IH = "1"(1,2) [OF Some h [symmetric], unfolded One_nat_def]
    show ?thesis
      by (cases "ClientInboundCommand_try_from c"; cases "len > MAXIMUM_PAYLOAD_BYTES")
        (auto simp: client_decode.simps [of P bs] decode_loop.simps [of _ bs] Some h Let_def IH
          client_pick_def [of P c] split: ClientInboundCommand.splits)
  qed
qed

section \<open>Behaviour of the loop\<close>

lemma decode_loop_frame:
  assumes "pick c = Some d" "length payload \<le> MAXIMUM_PAYLOAD_BYTES"
  shows "decode_loop pick (frame_bytes c payload @ rest) = (map_ok Some (d payload), rest)"
proof -
  have "length payload < 2 ^ 32" using assms(2) by (simp add: MAXIMUM_PAYLOAD_BYTES_def)
  moreover have "drop 5 (frame_bytes c payload @ rest) = payload @ rest"
    by (simp add: frame_bytes_def put_u32_def)
  ultimately show ?thesis
    using assms by (subst decode_loop.simps) (simp add: parse_header_frame)
qed

lemma decode_loop_skip:
  "pick g = None \<Longrightarrow> 4 \<le> length bs \<Longrightarrow> decode_loop pick (g # bs) = decode_loop pick bs"
  by (subst decode_loop.simps) (simp add: parse_header_def Let_def)

lemma decode_loop_garbage:
  "\<forall>g \<in> set garbage. pick g = None \<Longrightarrow> 4 \<le> length bs \<Longrightarrow>
     decode_loop pick (garbage @ bs) = decode_loop pick bs"
  by (induction garbage) (auto simp: decode_loop_skip)

lemma decode_loop_oversize:
  assumes "MAXIMUM_PAYLOAD_BYTES < length payload" "length payload < 2 ^ 32"
  shows "decode_loop pick (frame_bytes c payload @ rest)
    = decode_loop pick (put_u32 (of_nat (length payload)) @ payload @ rest)"
proof -
  have "drop 1 (frame_bytes c payload @ rest) = put_u32 (of_nat (length payload)) @ payload @ rest"
    by (simp add: frame_bytes_def)
  with assms show ?thesis
    by (subst decode_loop.simps) (simp add: parse_header_frame split: option.splits)
qed

text \<open>
  The same loop as a relation between a buffer, the answer and the buffer left: wait for a header,
  wait for a payload, drop an unacceptable byte, or take a frame off.
\<close>

inductive decodes :: "(u8 \<Rightarrow> (bytes \<Rightarrow> 'e + 'f) option) \<Rightarrow> bytes \<Rightarrow> 'e + 'f option \<Rightarrow> bytes \<Rightarrow> bool"
  for pick where
  await_header: "length bs < 5 \<Longrightarrow> decodes pick bs (Ok None) bs"
| await_payload: "parse_header bs = Some (c, len) \<Longrightarrow> pick c \<noteq> None \<Longrightarrow> len \<le> MAXIMUM_PAYLOAD_BYTES \<Longrightarrow>
    length bs < 5 + len \<Longrightarrow> decodes pick bs (Ok None) bs"
| drop_byte: "parse_header (b # bs) = Some (c, len) \<Longrightarrow> pick c = None \<or> MAXIMUM_PAYLOAD_BYTES < len \<Longrightarrow>
    decodes pick bs r rest \<Longrightarrow> decodes pick (b # bs) r rest"
| take_frame: "pick c = Some d \<Longrightarrow> length payload \<le> MAXIMUM_PAYLOAD_BYTES \<Longrightarrow>
    r = map_ok Some (d payload) \<Longrightarrow> decodes pick (frame_bytes c payload @ rest) r rest"

lemma header_payload_split:
  assumes "parse_header bs = Some (c, len)" "5 + len \<le> length bs"
  shows "bs = frame_bytes c (take len (drop 5 bs)) @ drop len (drop 5 bs)"
proof -
  have "length (take len (drop 5 bs)) = len" using assms(2) by simp
  then have "frame_bytes c (take len (drop 5 bs)) @ drop len (drop 5 bs)
      = (c # put_u32 (of_nat len)) @ take len (drop 5 bs) @ drop len (drop 5 bs)"
    unfolding frame_bytes_def by simp
  also have "\<dots> = (c # put_u32 (of_nat len)) @ drop 5 bs" by (simp only: append_take_drop_id)
  also have "\<dots> = bs" using parse_header_split [OF assms(1)] by simp
  finally show ?thesis by simp
qed

lemma decode_loop_decodes: "decodes pick bs (fst (decode_loop pick bs)) (snd (decode_loop pick bs))"
proof (induction pick bs rule: decode_loop.induct)
  case (1 pick bs)
  show ?case
  proof (cases "parse_header bs")
    case None
    then have "length bs < 5" by (simp add: parse_header_def Let_def split: if_splits)
    with None show ?thesis by (simp add: decode_loop.simps [of _ bs] await_header)
  next
    case (Some h)
    obtain c len where h: "h = (c, len)" by (cases h)
    obtain b bs' where bs: "bs = b # bs'" using parse_header_Some [OF Some] by (cases bs) auto
    note IH = "1"(1) [OF Some h [symmetric]] "1"(2) [OF Some h [symmetric]]
    consider (skip) "pick c = None \<or> MAXIMUM_PAYLOAD_BYTES < len"
      | (wait) d where "pick c = Some d" "len \<le> MAXIMUM_PAYLOAD_BYTES" "length bs < 5 + len"
      | (full) d where "pick c = Some d" "len \<le> MAXIMUM_PAYLOAD_BYTES" "5 + len \<le> length bs"
      by fastforce
    then show ?thesis
    proof cases
      case skip
      then have "decode_loop pick bs = decode_loop pick bs'"
        using Some h bs by (auto simp: decode_loop.simps [of _ "b # bs'"] split: option.splits)
      moreover have "decodes pick bs' (fst (decode_loop pick bs')) (snd (decode_loop pick bs'))"
        using IH skip bs by (cases "pick c") auto
      ultimately show ?thesis using Some h bs skip by (auto intro: drop_byte)
    next
      case wait
      with Some h show ?thesis by (auto simp: decode_loop.simps [of _ bs] intro: await_payload)
    next
      case full
      let ?p = "take len (drop 5 bs)" and ?rest = "drop len (drop 5 bs)"
      have "decode_loop pick bs = (map_ok Some (d ?p), ?rest)"
        using full Some h by (simp add: decode_loop.simps [of _ bs])
      moreover have "decodes pick (frame_bytes c ?p @ ?rest) (map_ok Some (d ?p)) ?rest"
        using full by (intro take_frame) auto
      ultimately show ?thesis using header_payload_split [of bs c len] Some h full by simp
    qed
  qed
qed

lemma decodes_decode_loop: "decodes pick bs r rest \<Longrightarrow> decode_loop pick bs = (r, rest)"
proof (induction rule: decodes.induct)
  case (await_header bs)
  then show ?case by (simp add: decode_loop.simps [of _ bs] parse_header_def)
next
  case (await_payload bs c len)
  then show ?case by (auto simp: decode_loop.simps [of _ bs])
next
  case (drop_byte b bs c len r rest)
  then show ?case by (auto simp: decode_loop.simps [of _ "b # bs"] split: option.splits)
next
  case (take_frame c d payload r rest)
  then show ?case by (simp add: decode_loop_frame)
qed

lemma decode_loop_iff: "decode_loop pick bs = (r, rest) \<longleftrightarrow> decodes pick bs r rest"
  using decode_loop_decodes [of pick bs] decodes_decode_loop by force

subsection \<open>Consequences\<close>

lemma decodes_suffix: "decodes pick bs r rest \<Longrightarrow> \<exists>used. bs = used @ rest"
  by (induction rule: decodes.induct) (auto intro: exI [of _ "[]"] exI [of _ "_ # _"])

lemma decodes_shrinks: "decodes pick bs r rest \<Longrightarrow> r \<noteq> Ok None \<Longrightarrow> length rest + 5 \<le> length bs"
  by (induction rule: decodes.induct) auto

lemma map_ok_Some_not_None [simp]: "map_ok Some r \<noteq> Ok None" "Ok None \<noteq> map_ok Some r"
  by (cases r; simp)+

lemma decodes_None:
  "decodes pick bs r rest \<Longrightarrow> r = Ok None \<Longrightarrow>
     decodes pick rest (Ok None) rest \<and> length rest < 5 + MAXIMUM_PAYLOAD_BYTES"
  by (induction rule: decodes.induct)
    (auto intro: decodes.intros simp: MAXIMUM_PAYLOAD_BYTES_def)

lemma decodes_frame:
  "decodes pick bs r rest \<Longrightarrow> r \<noteq> Ok None \<Longrightarrow>
   \<exists>garbage c d payload. bs = garbage @ frame_bytes c payload @ rest \<and> pick c = Some d
     \<and> length payload \<le> MAXIMUM_PAYLOAD_BYTES \<and> r = map_ok Some (d payload)"
proof (induction rule: decodes.induct)
  case (drop_byte b bs c len r rest)
  then show ?case by (metis append_Cons)
next
  case (take_frame c d payload r rest)
  then show ?case by (metis append_Nil)
qed auto

lemma decodes_append:
  "decodes pick bs r rest \<Longrightarrow> r \<noteq> Ok None \<Longrightarrow> decodes pick (bs @ x) r (rest @ x)"
proof (induction rule: decodes.induct)
  case (drop_byte b bs c len r rest)
  then have "parse_header (b # bs @ x) = Some (c, len)"
    using parse_header_append [of "b # bs" x] parse_header_Some by fastforce
  with drop_byte show ?case by (auto intro: decodes.drop_byte)
next
  case (take_frame c d payload r rest)
  then show ?case by (auto intro: decodes.take_frame)
qed auto

lemma decode_loop_append_wait:
  "decodes pick bs r rest \<Longrightarrow> r = Ok None \<Longrightarrow> decode_loop pick (bs @ x) = decode_loop pick (rest @ x)"
proof (induction rule: decodes.induct)
  case (drop_byte b bs c len r rest)
  then have "parse_header (b # bs @ x) = Some (c, len)"
    using parse_header_append [of "b # bs" x] parse_header_Some by fastforce
  with drop_byte have "decode_loop pick ((b # bs) @ x) = decode_loop pick (bs @ x)"
    by (auto simp: decode_loop.simps [of _ "b # bs @ x"] split: option.splits)
  with drop_byte show ?case by simp
qed auto

section \<open>Decoders for byte streams\<close>

text \<open>
  What a reader that feeds a decoder with chunks relies on: an answer uses up input and stands
  when more bytes arrive; a request for more bytes leaves a bounded buffer that can stand for
  everything read so far.
\<close>

locale stream_decoder =
  fixes decode :: "bytes \<Rightarrow> ('e + 'f option) \<times> bytes"
    and bound :: nat
  assumes answer_append: "decode bs = (r, rest) \<Longrightarrow> r \<noteq> Ok None \<Longrightarrow> decode (bs @ x) = (r, rest @ x)"
    and answer_shrinks: "decode bs = (r, rest) \<Longrightarrow> r \<noteq> Ok None \<Longrightarrow> length rest < length bs"
    and wait_append: "decode bs = (Ok None, rest) \<Longrightarrow> decode (bs @ x) = decode (rest @ x)"
    and wait_bound: "decode bs = (Ok None, rest) \<Longrightarrow> length rest < bound"
    and wait_suffix: "decode bs = (Ok None, rest) \<Longrightarrow> \<exists>used. bs = used @ rest"
begin

lemma wait_again: "decode bs = (Ok None, rest) \<Longrightarrow> decode rest = (Ok None, rest)"
  using wait_append [of bs rest "[]"] by simp

end

lemma decode_loop_stream: "stream_decoder (decode_loop pick) (5 + MAXIMUM_PAYLOAD_BYTES)"
proof (unfold_locales, goal_cases)
  case (1 bs r rest x)
  then show ?case unfolding decode_loop_iff by (rule decodes_append)
next
  case (2 bs r rest)
  then show ?case unfolding decode_loop_iff by (auto dest: decodes_shrinks)
next
  case (3 bs rest x)
  then show ?case using decode_loop_append_wait [OF _ refl] unfolding decode_loop_iff by blast
next
  case (4 bs rest)
  then show ?case using decodes_None [OF _ refl] unfolding decode_loop_iff by blast
next
  case (5 bs rest)
  then show ?case unfolding decode_loop_iff by (rule decodes_suffix)
qed

lemma server_decode_eta: "server_decode P = decode_loop (server_pick P)"
  by (rule ext) (rule server_decode_loop)

lemma client_decode_eta: "client_decode P = decode_loop (client_pick P)"
  by (rule ext) (rule client_decode_loop)

interpretation server_stream: stream_decoder "server_decode P" "5 + MAXIMUM_PAYLOAD_BYTES" for P
  unfolding server_decode_eta by (rule decode_loop_stream)

interpretation client_stream: stream_decoder "client_decode P" "5 + MAXIMUM_PAYLOAD_BYTES" for P
  unfolding client_decode_eta by (rule decode_loop_stream)

section \<open>Encoders\<close>

lemma server_encode_ok:
  "Message_encode_fn C m = Ok payload \<Longrightarrow> length payload < 2 ^ 32 \<Longrightarrow>
     server_encode C m out = (Ok (), out @ frame_bytes (COMMAND C) payload)"
  by (simp add: server_encode_def encode_payload_def frame_bytes_def)

lemma client_encode_ok:
  "Message_encode_fn C m = Ok payload \<Longrightarrow> length payload < 2 ^ 32 \<Longrightarrow>
     client_encode C m out = (Ok (), out @ frame_bytes (COMMAND C) payload)"
  by (simp add: client_encode_def encode_payload_def frame_bytes_def)

lemma max_payload_u32: "length payload \<le> MAXIMUM_PAYLOAD_BYTES \<Longrightarrow> length payload < 2 ^ 32"
  by (simp add: MAXIMUM_PAYLOAD_BYTES_def)

lemma picks [simp]:
  "server_pick P 0x01 = Some (\<lambda>b. map_err ServerCodecError_Codec
     (map_ok Frame_Connect (decode_payload (Connect_codec P) b)))"
  "server_pick P 0x02 = Some (\<lambda>b. map_err ServerCodecError_Codec
     (map_ok Frame_Publish (decode_payload (Publish_codec P) b)))"
  "server_pick P 0x03 = Some (\<lambda>b. map_err ServerCodecError_Codec
     (map_ok Frame_Subscribe (decode_payload (Subscribe_codec P) b)))"
  "server_pick P 0x04 = Some (\<lambda>b. map_err ServerCodecError_Codec
     (map_ok Frame_UnSubscribe (decode_payload (UnSubscribe_codec P) b)))"
  "client_pick P 0x00 = Some (\<lambda>b. map_err ClientCodecError_Codec
     (map_ok ClientFrame_Info (decode_payload (Info_codec P) b)))"
  "client_pick P 0x05 = Some (\<lambda>b. map_err ClientCodecError_Codec
     (map_ok ClientFrame_Message (decode_payload (Message_codec P) b)))"
  by (simp_all add: server_pick_def client_pick_def ServerInboundCommand_try_from_def
      ClientInboundCommand_try_from_def)

lemma server_pick_None_iff: "server_pick P c = None \<longleftrightarrow> c \<notin> {0x01, 0x02, 0x03, 0x04}"
  by (auto simp: server_pick_def ServerInboundCommand_try_from_def)

lemma client_pick_None_iff: "client_pick P c = None \<longleftrightarrow> c \<notin> {0x00, 0x05}"
  by (auto simp: client_pick_def ClientInboundCommand_try_from_def)

end
