(* ===== verification/Wire_Messages.thy ===== *)
theory Wire_Messages
  imports Wire
begin

text \<open>
  The six messages over the field layer of \<open>Wire\<close>, with the field numbers of \<open>pubsub.proto\<close>, and
  the resulting value \<open>wire_prost\<close> of the parameter \<open>prost\<close>.
\<close>

section \<open>Reading and writing fields\<close>

fun merge_all :: "('f \<Rightarrow> 'm \<Rightarrow> DecodeError + 'm) \<Rightarrow> 'f list \<Rightarrow> 'm \<Rightarrow> DecodeError + 'm" where
  "merge_all g [] m = Ok m"
| "merge_all g (f # fs) m = and_then (g f m) (merge_all g fs)"

lemma merge_all_append: "merge_all g (fs @ gs) m = and_then (merge_all g fs m) (merge_all g gs)"
proof (induction fs arbitrary: m)
  case Nil
  then show ?case by simp
next
  case (Cons f fs)
  then show ?case by (cases "g f m") auto
qed

definition opt_varint :: "nat \<Rightarrow> nat \<Rightarrow> wire_field list" where
  "opt_varint t n = (if n = 0 then [] else [(t, VARINT n)])"

definition opt_len :: "nat \<Rightarrow> bytes \<Rightarrow> wire_field list" where
  "opt_len t b = (if b = [] then [] else [(t, LEN b)])"

definition bool_varint :: "bool \<Rightarrow> nat" where
  "bool_varint b = (if b then 1 else 0)"

definition enum_varint :: "32 word \<Rightarrow> nat" where
  "enum_varint w = unat (scast w :: u64)"

definition wrong_type :: "DecodeError + 'm" where
  "wrong_type = Err ''invalid wire type''"

definition on_varint :: "(nat \<Rightarrow> 'm) \<Rightarrow> wire_value \<Rightarrow> DecodeError + 'm" where
  "on_varint g v = (case v of VARINT n \<Rightarrow> Ok (g n) | _ \<Rightarrow> wrong_type)"

definition on_bytes :: "(bytes \<Rightarrow> 'm) \<Rightarrow> wire_value \<Rightarrow> DecodeError + 'm" where
  "on_bytes g v = (case v of LEN b \<Rightarrow> Ok (g b) | _ \<Rightarrow> wrong_type)"

definition on_string :: "(string \<Rightarrow> 'm) \<Rightarrow> wire_value \<Rightarrow> DecodeError + 'm" where
  "on_string g v = (case v of
      LEN b \<Rightarrow> if utf8_valid b then Ok (g (bytes_string b))
               else Err ''invalid string value: data is not UTF-8 encoded''
    | _ \<Rightarrow> wrong_type)"

lemma on_simps [simp]:
  "on_varint g (VARINT n) = Ok (g n)" "on_bytes h (LEN b) = Ok (h b)"
  by (simp_all add: on_varint_def on_bytes_def)

lemma on_string_valid [simp]:
  "utf8_valid (string_bytes s) \<Longrightarrow> on_string k (LEN (string_bytes s)) = Ok (k s)"
  by (simp add: on_string_def)

definition text_ok :: "string \<Rightarrow> bool" where
  "text_ok s \<longleftrightarrow> utf8_valid (string_bytes s) \<and> length s < 2 ^ 32"

definition data_ok :: "bytes \<Rightarrow> bool" where
  "data_ok b \<longleftrightarrow> length b < 2 ^ 32"

lemma length_string_bytes [simp]: "length (string_bytes s) = length s"
  by (simp add: string_bytes_def)

lemma string_bytes_Nil [simp]: "string_bytes s = [] \<longleftrightarrow> s = []"
  by (simp add: string_bytes_def)

lemma unat_bounds: "unat (w :: u32) < 2 ^ 64" "unat (v :: u64) < 2 ^ 64" "bool_varint b < 2 ^ 64"
    "enum_varint e < 2 ^ 64"
proof -
  have "(unsigned w :: nat) < 2 ^ LENGTH(32)" "(unsigned v :: nat) < 2 ^ LENGTH(64)"
    "(unsigned (scast e :: u64) :: nat) < 2 ^ LENGTH(64)" by (rule unsigned_less)+
  then show "unat (w :: u32) < 2 ^ 64" "unat (v :: u64) < 2 ^ 64" "enum_varint e < 2 ^ 64"
    by (simp_all add: enum_varint_def)
  show "bool_varint b < 2 ^ 64" by (simp add: bool_varint_def)
qed

lemma opt_fields_ok [simp]:
  assumes "0 < t" "t < 16"
  shows "list_all field_ok (opt_varint t (unat (w :: u32)))"
    "list_all field_ok (opt_varint t (unat (v :: u64)))"
    "list_all field_ok (opt_varint t (bool_varint b))"
    "list_all field_ok (opt_varint t (enum_varint e))"
    "data_ok d \<Longrightarrow> list_all field_ok (opt_len t d)"
    "text_ok s \<Longrightarrow> list_all field_ok (opt_len t (string_bytes s))"
  using assms unat_bounds
  by (simp_all add: opt_varint_def opt_len_def data_ok_def text_ok_def)

declare field_ok.simps [simp del]

lemma enum_varint_inverse [simp]: "(of_nat (enum_varint e) :: 32 word) = e"
proof -
  have "(of_nat (unat (scast e :: u64)) :: 32 word) = ucast (scast e :: u64)"
    by simp
  also have "\<dots> = e" by (rule bit_word_eqI) (auto simp: bit_simps)
  finally show ?thesis by (simp add: enum_varint_def)
qed

lemma enum_varint_0 [simp]: "enum_varint e = 0 \<longleftrightarrow> e = 0"
  by (metis enum_varint_inverse enum_varint_def of_nat_0 scast_0 unat_0)

lemma bool_varint_simps [simp]: "bool_varint b = 0 \<longleftrightarrow> \<not> b" "0 < bool_varint b \<longleftrightarrow> b"
  by (simp_all add: bool_varint_def)

section \<open>UnSubscribe, Publish and Message\<close>

definition UnSubscribe_fields :: "pb_UnSubscribe \<Rightarrow> wire_field list" where
  "UnSubscribe_fields m = opt_varint 2 (unat (unsubscribe_subscription_id m))"

definition UnSubscribe_merge :: "wire_field \<Rightarrow> pb_UnSubscribe \<Rightarrow> DecodeError + pb_UnSubscribe" where
  "UnSubscribe_merge f m =
     (if fst f = 2 then on_varint (\<lambda>n. m\<lparr>unsubscribe_subscription_id := of_nat n\<rparr>) (snd f) else Ok m)"

definition Publish_fields :: "pb_Publish \<Rightarrow> wire_field list" where
  "Publish_fields m = opt_len 1 (publish_topic m) @ opt_len 2 (publish_payload m)
     @ opt_len 3 (publish_header m)"

definition Publish_merge :: "wire_field \<Rightarrow> pb_Publish \<Rightarrow> DecodeError + pb_Publish" where
  "Publish_merge f m =
     (if fst f = 1 then on_bytes (\<lambda>b. m\<lparr>publish_topic := b\<rparr>) (snd f)
      else if fst f = 2 then on_bytes (\<lambda>b. m\<lparr>publish_payload := b\<rparr>) (snd f)
      else if fst f = 3 then on_bytes (\<lambda>b. m\<lparr>publish_header := b\<rparr>) (snd f)
      else Ok m)"

definition Message_fields :: "pb_Message \<Rightarrow> wire_field list" where
  "Message_fields m = opt_len 1 (message_topic m)
     @ opt_varint 2 (unat (message_subscription_id m))
     @ opt_len 3 (message_payload m) @ opt_len 4 (message_header m)"

definition Message_merge :: "wire_field \<Rightarrow> pb_Message \<Rightarrow> DecodeError + pb_Message" where
  "Message_merge f m =
     (if fst f = 1 then on_bytes (\<lambda>b. m\<lparr>message_topic := b\<rparr>) (snd f)
      else if fst f = 2 then on_varint (\<lambda>n. m\<lparr>message_subscription_id := of_nat n\<rparr>) (snd f)
      else if fst f = 3 then on_bytes (\<lambda>b. m\<lparr>message_payload := b\<rparr>) (snd f)
      else if fst f = 4 then on_bytes (\<lambda>b. m\<lparr>message_header := b\<rparr>) (snd f)
      else Ok m)"

definition Subscribe_fields :: "pb_Subscribe \<Rightarrow> wire_field list" where
  "Subscribe_fields m = opt_len 1 (subscribe_topic m)
     @ opt_varint 2 (unat (subscribe_subscription_id m))
     @ opt_len 3 (string_bytes (subscribe_queue_group m))"

definition Subscribe_merge :: "wire_field \<Rightarrow> pb_Subscribe \<Rightarrow> DecodeError + pb_Subscribe" where
  "Subscribe_merge f m =
     (if fst f = 1 then on_bytes (\<lambda>b. m\<lparr>subscribe_topic := b\<rparr>) (snd f)
      else if fst f = 2 then on_varint (\<lambda>n. m\<lparr>subscribe_subscription_id := of_nat n\<rparr>) (snd f)
      else if fst f = 3 then on_string (\<lambda>s. m\<lparr>subscribe_queue_group := s\<rparr>) (snd f)
      else Ok m)"

section \<open>Info and Connect\<close>

definition Info_fields :: "pb_Info \<Rightarrow> wire_field list" where
  "Info_fields m = opt_varint 1 (unat (info_version m))
     @ opt_len 3 (string_bytes (info_server_id m)) @ opt_len 4 (string_bytes (info_server_name m))
     @ opt_varint 5 (unat (info_max_payload m)) @ opt_varint 6 (unat (info_client_id m))
     @ opt_varint 7 (bool_varint (info_requires_auth m))
     @ opt_varint 8 (bool_varint (info_tls_verify m))"

definition Info_merge :: "wire_field \<Rightarrow> pb_Info \<Rightarrow> DecodeError + pb_Info" where
  "Info_merge f m =
     (if fst f = 1 then on_varint (\<lambda>n. m\<lparr>info_version := of_nat n\<rparr>) (snd f)
      else if fst f = 3 then on_string (\<lambda>s. m\<lparr>info_server_id := s\<rparr>) (snd f)
      else if fst f = 4 then on_string (\<lambda>s. m\<lparr>info_server_name := s\<rparr>) (snd f)
      else if fst f = 5 then on_varint (\<lambda>n. m\<lparr>info_max_payload := of_nat n\<rparr>) (snd f)
      else if fst f = 6 then on_varint (\<lambda>n. m\<lparr>info_client_id := of_nat n\<rparr>) (snd f)
      else if fst f = 7 then on_varint (\<lambda>n. m\<lparr>info_requires_auth := (n \<noteq> 0)\<rparr>) (snd f)
      else if fst f = 8 then on_varint (\<lambda>n. m\<lparr>info_tls_verify := (n \<noteq> 0)\<rparr>) (snd f)
      else Ok m)"

definition PasswordAuth_fields :: "pb_PasswordAuth \<Rightarrow> wire_field list" where
  "PasswordAuth_fields m = opt_len 1 (string_bytes (pa_username m))
     @ opt_len 2 (string_bytes (pa_password m))"

definition PasswordAuth_merge :: "wire_field \<Rightarrow> pb_PasswordAuth \<Rightarrow> DecodeError + pb_PasswordAuth" where
  "PasswordAuth_merge f m =
     (if fst f = 1 then on_string (\<lambda>s. m\<lparr>pa_username := s\<rparr>) (snd f)
      else if fst f = 2 then on_string (\<lambda>s. m\<lparr>pa_password := s\<rparr>) (snd f)
      else Ok m)"

definition Credentials_fields :: "pb_Credentials option \<Rightarrow> wire_field list" where
  "Credentials_fields c = (case c of
      None \<Rightarrow> []
    | Some (Credentials_PasswordAuth pa) \<Rightarrow> [(7, LEN (encode_fields (PasswordAuth_fields pa)))])"

definition Connect_fields :: "pb_Connect \<Rightarrow> wire_field list" where
  "Connect_fields m = opt_varint 1 (unat (connect_version m))
     @ opt_varint 2 (bool_varint (connect_verbose m))
     @ opt_varint 6 (enum_varint (connect_auth_method m))
     @ Credentials_fields (connect_credentials m)"

text \<open>A repeated credentials field continues the message read so far.\<close>

definition Connect_merge :: "wire_field \<Rightarrow> pb_Connect \<Rightarrow> DecodeError + pb_Connect" where
  "Connect_merge f m =
     (if fst f = 1 then on_varint (\<lambda>n. m\<lparr>connect_version := of_nat n\<rparr>) (snd f)
      else if fst f = 2 then on_varint (\<lambda>n. m\<lparr>connect_verbose := (n \<noteq> 0)\<rparr>) (snd f)
      else if fst f = 6 then on_varint (\<lambda>n. m\<lparr>connect_auth_method := of_nat n\<rparr>) (snd f)
      else if fst f = 7 then
        (case snd f of
           LEN b \<Rightarrow>
             (let pa0 = (case connect_credentials m of
                  Some (Credentials_PasswordAuth pa) \<Rightarrow> pa
                | None \<Rightarrow> \<lparr>pa_username = [], pa_password = []\<rparr>)
              in and_then (and_then (decode_fields b) (\<lambda>fs. merge_all PasswordAuth_merge fs pa0))
                   (\<lambda>pa. Ok (m\<lparr>connect_credentials := Some (Credentials_PasswordAuth pa)\<rparr>)))
         | _ \<Rightarrow> wrong_type)
      else Ok m)"

section \<open>The codec\<close>

definition wire_encode :: "('m \<Rightarrow> wire_field list) \<Rightarrow> 'm \<Rightarrow> EncodeError + bytes" where
  "wire_encode flds m = Ok (encode_fields (flds m))"

definition wire_decode :: "(wire_field \<Rightarrow> 'm \<Rightarrow> DecodeError + 'm) \<Rightarrow> 'm \<Rightarrow> bytes \<Rightarrow> DecodeError + 'm" where
  "wire_decode merge dflt bs = and_then (decode_fields bs) (\<lambda>fs. merge_all merge fs dflt)"

definition Info_default :: pb_Info where
  "Info_default = \<lparr>info_version = 0, info_server_id = [], info_server_name = [],
     info_max_payload = 0, info_client_id = 0, info_requires_auth = False, info_tls_verify = False\<rparr>"

definition Connect_default :: pb_Connect where
  "Connect_default = \<lparr>connect_version = 0, connect_verbose = False, connect_auth_method = 0,
     connect_credentials = None\<rparr>"

definition Publish_default :: pb_Publish where
  "Publish_default = \<lparr>publish_topic = [], publish_payload = [], publish_header = []\<rparr>"

definition Subscribe_default :: pb_Subscribe where
  "Subscribe_default = \<lparr>subscribe_topic = [], subscribe_subscription_id = 0, subscribe_queue_group = []\<rparr>"

definition UnSubscribe_default :: pb_UnSubscribe where
  "UnSubscribe_default = \<lparr>unsubscribe_subscription_id = 0\<rparr>"

definition Message_default :: pb_Message where
  "Message_default = \<lparr>message_topic = [], message_subscription_id = 0, message_payload = [],
     message_header = []\<rparr>"

definition wire_prost :: prost where
  "wire_prost = \<lparr>
     Info_encode = wire_encode Info_fields, Info_decode = wire_decode Info_merge Info_default,
     Connect_encode = wire_encode Connect_fields,
     Connect_decode = wire_decode Connect_merge Connect_default,
     Publish_encode = wire_encode Publish_fields,
     Publish_decode = wire_decode Publish_merge Publish_default,
     Subscribe_encode = wire_encode Subscribe_fields,
     Subscribe_decode = wire_decode Subscribe_merge Subscribe_default,
     UnSubscribe_encode = wire_encode UnSubscribe_fields,
     UnSubscribe_decode = wire_decode UnSubscribe_merge UnSubscribe_default,
     Message_encode = wire_encode Message_fields,
     Message_decode = wire_decode Message_merge Message_default\<rparr>"

section \<open>Decoding inverts encoding\<close>

lemma wire_roundtrip:
  assumes "list_all field_ok (flds m)" "merge_all merge (flds m) dflt = Ok m"
  shows "\<exists>payload. wire_encode flds m = Ok payload \<and> wire_decode merge dflt payload = Ok m"
  using assms by (simp add: wire_encode_def wire_decode_def decode_encode_fields)

lemmas opt_defs = opt_varint_def opt_len_def

lemma UnSubscribe_roundtrip: "merge_all UnSubscribe_merge (UnSubscribe_fields m) UnSubscribe_default = Ok m"
  by (cases m) (simp add: UnSubscribe_fields_def UnSubscribe_merge_def UnSubscribe_default_def opt_defs
      unat_eq_zero)

lemma Publish_roundtrip: "merge_all Publish_merge (Publish_fields m) Publish_default = Ok m"
  by (cases m) (simp add: Publish_fields_def Publish_merge_def Publish_default_def opt_defs)

lemma Message_roundtrip: "merge_all Message_merge (Message_fields m) Message_default = Ok m"
  by (cases m) (simp add: Message_fields_def Message_merge_def Message_default_def opt_defs unat_eq_zero)

lemma Subscribe_roundtrip:
  "text_ok (subscribe_queue_group m) \<Longrightarrow>
     merge_all Subscribe_merge (Subscribe_fields m) Subscribe_default = Ok m"
  by (cases m) (simp add: Subscribe_fields_def Subscribe_merge_def Subscribe_default_def opt_defs
      unat_eq_zero text_ok_def)

lemma PasswordAuth_roundtrip:
  "text_ok (pa_username m) \<Longrightarrow> text_ok (pa_password m) \<Longrightarrow>
     merge_all PasswordAuth_merge (PasswordAuth_fields m) \<lparr>pa_username = [], pa_password = []\<rparr> = Ok m"
  by (cases m) (simp add: PasswordAuth_fields_def PasswordAuth_merge_def opt_defs text_ok_def)

lemma Info_roundtrip:
  "text_ok (info_server_id m) \<Longrightarrow> text_ok (info_server_name m) \<Longrightarrow>
     merge_all Info_merge (Info_fields m) Info_default = Ok m"
  by (cases m) (simp add: Info_fields_def Info_merge_def Info_default_def opt_defs merge_all_append
      unat_eq_zero text_ok_def)

definition credentials_ok :: "pb_Credentials option \<Rightarrow> bool" where
  "credentials_ok c = (case c of None \<Rightarrow> True
    | Some (Credentials_PasswordAuth pa) \<Rightarrow> text_ok (pa_username pa) \<and> text_ok (pa_password pa))"

lemma PasswordAuth_fields_ok:
  "text_ok (pa_username pa) \<Longrightarrow> text_ok (pa_password pa) \<Longrightarrow>
     list_all field_ok (PasswordAuth_fields pa)"
  by (simp add: PasswordAuth_fields_def)

lemma decode_PasswordAuth:
  assumes "text_ok (pa_username pa)" "text_ok (pa_password pa)"
  shows "and_then (decode_fields (encode_fields (PasswordAuth_fields pa)))
      (\<lambda>fs. merge_all PasswordAuth_merge fs \<lparr>pa_username = [], pa_password = []\<rparr>) = Ok pa"
  using assms by (simp add: decode_encode_fields PasswordAuth_fields_ok PasswordAuth_roundtrip)

lemma Connect_roundtrip:
  assumes "credentials_ok (connect_credentials m)"
  shows "merge_all Connect_merge (Connect_fields m) Connect_default = Ok m"
proof -
  let ?m0 = "m\<lparr>connect_credentials := None\<rparr>"
  let ?fs = "opt_varint 1 (unat (connect_version m))
     @ opt_varint 2 (bool_varint (connect_verbose m))
     @ opt_varint 6 (enum_varint (connect_auth_method m))"
  have "merge_all Connect_merge ?fs Connect_default = Ok ?m0"
    by (cases m) (simp add: Connect_merge_def Connect_default_def opt_defs merge_all_append unat_eq_zero)
  moreover have "merge_all Connect_merge (Credentials_fields (connect_credentials m)) ?m0 = Ok m"
  proof (cases "connect_credentials m")
    case None
    then show ?thesis by (cases m) (simp add: Credentials_fields_def)
  next
    case (Some c)
    obtain pa where c: "c = Credentials_PasswordAuth pa" by (cases c)
    with Some assms show ?thesis
      using decode_PasswordAuth [of pa]
      by (cases m) (simp add: Credentials_fields_def Connect_merge_def credentials_ok_def Let_def)
  qed
  moreover have "Connect_fields m = ?fs @ Credentials_fields (connect_credentials m)"
    by (simp add: Connect_fields_def)
  ultimately show ?thesis by (simp only: merge_all_append [of _ ?fs] and_then.simps)
qed

section \<open>Sizes\<close>

lemma length_encode_varint: "length (encode_varint n) \<le> k" if "n < 128 ^ k" "0 < k"
  using that
proof (induction n arbitrary: k rule: encode_varint.induct)
  case (1 n)
  obtain j where k: "k = Suc j" using "1.prems"(2) by (cases k) auto
  show ?case
  proof (cases "n < 128")
    case True
    with k show ?thesis by (simp add: encode_varint.simps [of n])
  next
    case False
    have j: "0 < j" using "1.prems"(1) False k by (cases j) auto
    have "n div 128 < 128 ^ j" using "1.prems"(1) k by (simp add: less_mult_imp_div_less mult.commute)
    with "1.IH" [OF False _ j] False k show ?thesis by (simp add: encode_varint.simps [of n])
  qed
qed

lemma length_opt_len: "t < 16 \<Longrightarrow> length b < 2 ^ 32 \<Longrightarrow> length (encode_fields (opt_len t b)) \<le> length b + 7"
proof -
  assume t: "t < 16" and b: "length b < 2 ^ 32"
  have "length (encode_varint (8 * t + 2)) \<le> 2" using t by (intro length_encode_varint) auto
  moreover have "length (encode_varint (length b)) \<le> 5" using b by (intro length_encode_varint) auto
  ultimately show ?thesis by (simp add: encode_fields_def opt_len_def)
qed

lemma encode_fields_append: "encode_fields (fs @ gs) = encode_fields fs @ encode_fields gs"
  by (simp add: encode_fields_def)

lemma length_PasswordAuth:
  assumes "text_ok (pa_username pa)" "text_ok (pa_password pa)"
  shows "length (encode_fields (PasswordAuth_fields pa)) < 2 ^ 34"
proof -
  have "length (encode_fields (opt_len 1 (string_bytes (pa_username pa)))) \<le> length (pa_username pa) + 7"
    "length (encode_fields (opt_len 2 (string_bytes (pa_password pa)))) \<le> length (pa_password pa) + 7"
    using assms length_opt_len [of 1 "string_bytes (pa_username pa)"]
      length_opt_len [of 2 "string_bytes (pa_password pa)"] by (simp_all add: text_ok_def)
  moreover have "length (pa_username pa) < 2 ^ 32" "length (pa_password pa) < 2 ^ 32"
    using assms by (simp_all add: text_ok_def)
  ultimately show ?thesis by (simp add: PasswordAuth_fields_def encode_fields_append)
qed

section \<open>The locale for each message\<close>

lemma Credentials_fields_ok:
  "credentials_ok c \<Longrightarrow> list_all field_ok (Credentials_fields c)"
  using length_PasswordAuth
  by (fastforce simp: field_ok.simps Credentials_fields_def credentials_ok_def
      split: option.splits pb_Credentials.splits)

definition Info_valid :: "pb_Info \<Rightarrow> bool" where
  "Info_valid m \<longleftrightarrow> text_ok (info_server_id m) \<and> text_ok (info_server_name m)"

definition Connect_valid :: "pb_Connect \<Rightarrow> bool" where
  "Connect_valid m \<longleftrightarrow> credentials_ok (connect_credentials m)"

definition Publish_valid :: "pb_Publish \<Rightarrow> bool" where
  "Publish_valid m \<longleftrightarrow> data_ok (publish_topic m) \<and> data_ok (publish_payload m) \<and> data_ok (publish_header m)"

definition Subscribe_valid :: "pb_Subscribe \<Rightarrow> bool" where
  "Subscribe_valid m \<longleftrightarrow> data_ok (subscribe_topic m) \<and> text_ok (subscribe_queue_group m)"

definition Message_valid :: "pb_Message \<Rightarrow> bool" where
  "Message_valid m \<longleftrightarrow> data_ok (message_topic m) \<and> data_ok (message_payload m) \<and> data_ok (message_header m)"

lemmas valid_defs = Info_valid_def Connect_valid_def Publish_valid_def Subscribe_valid_def
  Message_valid_def

lemma Info_fields_ok: "Info_valid m \<Longrightarrow> list_all field_ok (Info_fields m)"
  by (simp add: Info_fields_def Info_valid_def)

interpretation wire_Info: message_codec "Info_encode wire_prost" "Info_decode wire_prost" Info_valid
  unfolding wire_prost_def prost.simps
  by (unfold_locales, intro wire_roundtrip Info_fields_ok Info_roundtrip) (auto simp: valid_defs)

lemma Connect_fields_ok: "Connect_valid m \<Longrightarrow> list_all field_ok (Connect_fields m)"
  by (simp add: Connect_fields_def Connect_valid_def Credentials_fields_ok)

interpretation wire_Connect: message_codec "Connect_encode wire_prost" "Connect_decode wire_prost" Connect_valid
  unfolding wire_prost_def prost.simps
  by (unfold_locales, intro wire_roundtrip Connect_fields_ok Connect_roundtrip) (auto simp: valid_defs)

lemma Publish_fields_ok: "Publish_valid m \<Longrightarrow> list_all field_ok (Publish_fields m)"
  by (simp add: Publish_fields_def Publish_valid_def)

interpretation wire_Publish: message_codec "Publish_encode wire_prost" "Publish_decode wire_prost" Publish_valid
  unfolding wire_prost_def prost.simps
  by (unfold_locales, intro wire_roundtrip Publish_fields_ok Publish_roundtrip) (auto simp: valid_defs)

lemma Subscribe_fields_ok: "Subscribe_valid m \<Longrightarrow> list_all field_ok (Subscribe_fields m)"
  by (simp add: Subscribe_fields_def Subscribe_valid_def)

interpretation wire_Subscribe: message_codec "Subscribe_encode wire_prost" "Subscribe_decode wire_prost" Subscribe_valid
  unfolding wire_prost_def prost.simps
  by (unfold_locales, intro wire_roundtrip Subscribe_fields_ok Subscribe_roundtrip) (auto simp: valid_defs)

lemma UnSubscribe_fields_ok: "list_all field_ok (UnSubscribe_fields m)"
  by (simp add: UnSubscribe_fields_def)

interpretation wire_UnSubscribe: message_codec "UnSubscribe_encode wire_prost" "UnSubscribe_decode wire_prost" "\<lambda>_. True"
  unfolding wire_prost_def prost.simps
  by (unfold_locales, intro wire_roundtrip UnSubscribe_fields_ok UnSubscribe_roundtrip)

lemma Message_fields_ok: "Message_valid m \<Longrightarrow> list_all field_ok (Message_fields m)"
  by (simp add: Message_fields_def Message_valid_def)

interpretation wire_Message: message_codec "Message_encode wire_prost" "Message_decode wire_prost" Message_valid
  unfolding wire_prost_def prost.simps
  by (unfold_locales, intro wire_roundtrip Message_fields_ok Message_roundtrip) (auto simp: valid_defs)

end
