(* ===== verification/Codec_Properties.thy ===== *)
theory Codec_Properties
  imports Codec_Spec Wire_Messages
begin

text \<open>
  Properties of the two codecs of \<open>parser.rs\<close>, for any generated protobuf code (the parameter
  \<open>prost\<close>); where a message travels through it, the hypothesis is that its decoder gives back
  what its encoder wrote for that message. The witnesses use the wire format of \<open>Wire_Messages\<close>.
\<close>

section \<open>Encoding a frame from the sending side\<close>

text \<open>The client's \<open>ClientCodec::encode\<close> and the server's \<open>ServerCodec::encode\<close>, by frame.\<close>

fun client_encode_frame :: "prost \<Rightarrow> Frame \<Rightarrow> bytes \<Rightarrow> (ClientCodecError + unit) \<times> bytes" where
  "client_encode_frame P (Frame_Connect m) out = client_encode (Connect_codec P) m out"
| "client_encode_frame P (Frame_Publish m) out = client_encode (Publish_codec P) m out"
| "client_encode_frame P (Frame_Subscribe m) out = client_encode (Subscribe_codec P) m out"
| "client_encode_frame P (Frame_UnSubscribe m) out = client_encode (UnSubscribe_codec P) m out"

fun server_encode_frame :: "prost \<Rightarrow> ClientFrame \<Rightarrow> bytes \<Rightarrow> (ServerCodecError + unit) \<times> bytes" where
  "server_encode_frame P (ClientFrame_Info m) out = server_encode (Info_codec P) m out"
| "server_encode_frame P (ClientFrame_Message m) out = server_encode (Message_codec P) m out"

text \<open>The payload the generated encoder writes for a frame, and the law for that frame.\<close>

fun frame_law :: "prost \<Rightarrow> Frame \<Rightarrow> bytes \<Rightarrow> bool" where
  "frame_law P (Frame_Connect m) b \<longleftrightarrow> Connect_encode P m = Ok b \<and> Connect_decode P b = Ok m"
| "frame_law P (Frame_Publish m) b \<longleftrightarrow> Publish_encode P m = Ok b \<and> Publish_decode P b = Ok m"
| "frame_law P (Frame_Subscribe m) b \<longleftrightarrow> Subscribe_encode P m = Ok b \<and> Subscribe_decode P b = Ok m"
| "frame_law P (Frame_UnSubscribe m) b \<longleftrightarrow> UnSubscribe_encode P m = Ok b \<and> UnSubscribe_decode P b = Ok m"

fun client_frame_law :: "prost \<Rightarrow> ClientFrame \<Rightarrow> bytes \<Rightarrow> bool" where
  "client_frame_law P (ClientFrame_Info m) b \<longleftrightarrow> Info_encode P m = Ok b \<and> Info_decode P b = Ok m"
| "client_frame_law P (ClientFrame_Message m) b \<longleftrightarrow> Message_encode P m = Ok b \<and> Message_decode P b = Ok m"

fun frame_command :: "Frame \<Rightarrow> u8" where
  "frame_command (Frame_Connect m) = 0x01"
| "frame_command (Frame_Publish m) = 0x02"
| "frame_command (Frame_Subscribe m) = 0x03"
| "frame_command (Frame_UnSubscribe m) = 0x04"

fun client_frame_command :: "ClientFrame \<Rightarrow> u8" where
  "client_frame_command (ClientFrame_Info m) = 0x00"
| "client_frame_command (ClientFrame_Message m) = 0x05"

lemma client_encode_frame_bytes:
  "frame_law P f payload \<Longrightarrow> length payload < 2 ^ 32 \<Longrightarrow>
     client_encode_frame P f out = (Ok (), out @ frame_bytes (frame_command f) payload)"
  by (cases f) (simp_all add: client_encode_ok codec_defs)

lemma server_encode_frame_bytes:
  "client_frame_law P f payload \<Longrightarrow> length payload < 2 ^ 32 \<Longrightarrow>
     server_encode_frame P f out = (Ok (), out @ frame_bytes (client_frame_command f) payload)"
  by (cases f) (simp_all add: server_encode_ok codec_defs)

lemma server_pick_law:
  "frame_law P f payload \<Longrightarrow> \<exists>d. server_pick P (frame_command f) = Some d \<and> d payload = Ok f"
  by (cases f) (simp_all add: decode_payload_def codec_defs)

lemma client_pick_law:
  "client_frame_law P f payload \<Longrightarrow> \<exists>d. client_pick P (client_frame_command f) = Some d \<and> d payload = Ok f"
  by (cases f) (simp_all add: decode_payload_def codec_defs)

lemma server_decode_frame:
  "frame_law P f payload \<Longrightarrow> length payload \<le> MAXIMUM_PAYLOAD_BYTES \<Longrightarrow>
     server_decode P (frame_bytes (frame_command f) payload @ rest) = (Ok (Some f), rest)"
  using server_pick_law [of P f payload] decode_loop_frame [of "server_pick P" "frame_command f"]
  by (auto simp: server_decode_loop)

lemma client_decode_frame:
  "client_frame_law P f payload \<Longrightarrow> length payload \<le> MAXIMUM_PAYLOAD_BYTES \<Longrightarrow>
     client_decode P (frame_bytes (client_frame_command f) payload @ rest) = (Ok (Some f), rest)"
  using client_pick_law [of P f payload] decode_loop_frame [of "client_pick P" "client_frame_command f"]
  by (auto simp: client_decode_loop)

lemma server_pick_ok:
  assumes "server_pick P c = Some d" "d payload = Ok f"
  shows "c = frame_command f
    \<and> (case f of Frame_Connect m \<Rightarrow> Connect_decode P payload = Ok m
       | Frame_Publish m \<Rightarrow> Publish_decode P payload = Ok m
       | Frame_Subscribe m \<Rightarrow> Subscribe_decode P payload = Ok m
       | Frame_UnSubscribe m \<Rightarrow> UnSubscribe_decode P payload = Ok m)"
proof -
  from assms(1) have "server_pick P c \<noteq> None" by simp
  then consider "c = 0x01" | "c = 0x02" | "c = 0x03" | "c = 0x04" by (auto simp: server_pick_None_iff)
  then show ?thesis
    using assms by cases (auto simp: result_simps decode_payload_def codec_defs)
qed

text \<open>A small frame of the wire format, for the examples.\<close>

lemma unsubscribe_42_law:
  "frame_law wire_prost (Frame_UnSubscribe \<lparr>unsubscribe_subscription_id = 42\<rparr>) [0x10, 0x2A]"
proof -
  have e: "UnSubscribe_encode wire_prost \<lparr>unsubscribe_subscription_id = 42\<rparr> = Ok [0x10, 0x2A]"
    by (simp add: wire_prost_def wire_encode_def UnSubscribe_fields_def opt_varint_def
        encode_fields_def encode_varint.simps)
  then show ?thesis using wire_UnSubscribe.encoded_decodes [OF _ e] by simp
qed

lemma UNIV_Command: "UNIV = {Command_Info, Command_Connect, Command_Publish, Command_Subscribe,
    Command_UnSubscribe, Command_Message}"
  by (auto intro: Command.exhaust)

section \<open>Properties\<close>

text \<open>
  C3: Client to server round trip. Encoding a CONNECT, PUBLISH, SUBSCRIBE or UNSUBSCRIBE message
  with the client codec appends exactly one frame, and the server codec takes exactly that frame
  off the front of the stream and returns the same message, as long as the encoded message has
  at most 1 MiB.
\<close>

theorem client_to_server_roundtrip:
  assumes "frame_law P f payload" and "length payload \<le> MAXIMUM_PAYLOAD_BYTES"
  shows "\<exists>w. client_encode_frame P f out = (Ok (), out @ w)
    \<and> server_decode P (w @ rest) = (Ok (Some f), rest)"
  using client_encode_frame_bytes [OF assms(1) max_payload_u32 [OF assms(2)]]
    server_decode_frame [OF assms] by blast

theorem client_to_server_roundtrip_witness:
  "\<exists>w. client_encode_frame wire_prost (Frame_UnSubscribe \<lparr>unsubscribe_subscription_id = 42\<rparr>) [0x07]
      = (Ok (), [0x07] @ w)
    \<and> server_decode wire_prost (w @ [0x09])
      = (Ok (Some (Frame_UnSubscribe \<lparr>unsubscribe_subscription_id = 42\<rparr>)), [0x09])"
  by (rule client_to_server_roundtrip [OF unsubscribe_42_law]) (simp add: MAXIMUM_PAYLOAD_BYTES_def)

text \<open>
  C23: Server to client round trip, for INFO and MESSAGE.
\<close>

theorem server_to_client_roundtrip:
  assumes "client_frame_law P f payload" and "length payload \<le> MAXIMUM_PAYLOAD_BYTES"
  shows "\<exists>w. server_encode_frame P f out = (Ok (), out @ w)
    \<and> client_decode P (w @ rest) = (Ok (Some f), rest)"
  using server_encode_frame_bytes [OF assms(1) max_payload_u32 [OF assms(2)]]
    client_decode_frame [OF assms] by blast

theorem server_to_client_roundtrip_witness:
  "\<exists>w. server_encode_frame wire_prost (ClientFrame_Info Info_default) [] = (Ok (), [] @ w)
    \<and> client_decode wire_prost (w @ []) = (Ok (Some (ClientFrame_Info Info_default)), [])"
proof (rule server_to_client_roundtrip)
  have "Info_encode wire_prost Info_default = Ok []"
    by (simp add: wire_prost_def wire_encode_def Info_fields_def Info_default_def opt_defs
        encode_fields_def)
  then show "client_frame_law wire_prost (ClientFrame_Info Info_default) []"
    using wire_Info.encoded_decodes [of Info_default "[]"]
    by (simp add: Info_valid_def text_ok_def Info_default_def string_bytes_def)
qed simp

text \<open>
  C16: Soundness of the server decoder. A frame it returns really stands in the stream: after some
  skipped bytes comes the frame's own command byte, the big-endian length of the payload, at most
  1 MiB of payload, and then the untouched rest; and the frame is what that payload decodes to.
\<close>

theorem server_decode_sound:
  assumes "server_decode P bs = (Ok (Some f), rest)"
  shows "\<exists>skipped payload.
    bs = skipped @ [frame_command f] @ put_u32 (of_nat (length payload)) @ payload @ rest
    \<and> length payload \<le> 1048576
    \<and> (case f of Frame_Connect m \<Rightarrow> Connect_decode P payload = Ok m
       | Frame_Publish m \<Rightarrow> Publish_decode P payload = Ok m
       | Frame_Subscribe m \<Rightarrow> Subscribe_decode P payload = Ok m
       | Frame_UnSubscribe m \<Rightarrow> UnSubscribe_decode P payload = Ok m)"
proof -
  have "decodes (server_pick P) bs (Ok (Some f)) rest"
    using assms by (simp add: server_decode_loop decode_loop_iff)
  then obtain skipped c d payload where
    s: "bs = skipped @ frame_bytes c payload @ rest" "server_pick P c = Some d"
      "length payload \<le> MAXIMUM_PAYLOAD_BYTES" "Ok (Some f) = map_ok Some (d payload)"
    by (auto dest: decodes_frame)
  from s(4) have "d payload = Ok f" by (cases "d payload") auto
  from server_pick_ok [OF s(2) this] s(1,3) show ?thesis
    by (auto simp: frame_bytes_def MAXIMUM_PAYLOAD_BYTES_def)
qed

theorem server_decode_sound_witness:
  "server_decode wire_prost (frame_bytes 0x04 [0x10, 0x2A])
     = (Ok (Some (Frame_UnSubscribe \<lparr>unsubscribe_subscription_id = 42\<rparr>)), [])
   \<and> (\<exists>skipped payload. frame_bytes 0x04 [0x10, 0x2A]
        = skipped @ [0x04] @ put_u32 (of_nat (length payload)) @ payload @ []
      \<and> UnSubscribe_decode wire_prost payload = Ok \<lparr>unsubscribe_subscription_id = 42\<rparr>)"
proof -
  have d: "server_decode wire_prost (frame_bytes 0x04 [0x10, 0x2A])
      = (Ok (Some (Frame_UnSubscribe \<lparr>unsubscribe_subscription_id = 42\<rparr>)), [])"
    using server_decode_frame [OF unsubscribe_42_law, of "[]"] by (simp add: MAXIMUM_PAYLOAD_BYTES_def)
  show ?thesis using server_decode_sound [OF d] d by auto
qed

text \<open>
  C17: The server decoder is incremental: bytes that arrive later never change an answer already
  given, and when the decoder asks for more bytes, the buffer it leaves stands for everything
  read so far. So how the network cuts the stream into chunks does not matter.
\<close>

theorem server_decode_incremental:
  "server_decode P (bs @ more_bytes) =
     (case server_decode P bs of
        (Ok None, rest) \<Rightarrow> server_decode P (rest @ more_bytes)
      | (answer, rest) \<Rightarrow> (answer, rest @ more_bytes))"
  using server_stream.answer_append [of P bs _ _ more_bytes] server_stream.wait_append [of P bs _ more_bytes]
  by (auto split: prod.splits sum.splits option.splits)

text \<open>
  C28: Memory bound. Whenever the server decoder asks for more bytes, the buffer it keeps is a
  suffix of its input of less than 1 MiB + 5 bytes, and asking again changes nothing; whenever it
  gives an answer, at least the five header bytes are gone.
\<close>

theorem server_decode_buffer_bounded:
  assumes "server_decode P bs = (r, rest)"
  shows "(\<exists>used. bs = used @ rest)
    \<and> (if r = Ok None then length rest < 1048581 \<and> server_decode P rest = (Ok None, rest)
       else length rest + 5 \<le> length bs)"
proof -
  have d: "decodes (server_pick P) bs r rest"
    using assms by (simp add: server_decode_loop decode_loop_iff)
  have "length rest < 1048581" if "r = Ok None"
    using server_stream.wait_bound [of P bs rest] assms that by (simp add: MAXIMUM_PAYLOAD_BYTES_def)
  then show ?thesis
    using decodes_suffix [OF d] decodes_shrinks [OF d] server_stream.wait_again [of P bs rest] assms
    by auto
qed

theorem server_decode_buffer_bounded_witness:
  "server_decode wire_prost [0xFF, 0x01, 0, 0, 0, 9] = (Ok None, [0x01, 0, 0, 0, 9])
   \<and> server_decode wire_prost [0x01, 0, 0, 0, 9] = (Ok None, [0x01, 0, 0, 0, 9])"
proof -
  have d: "server_decode wire_prost [0xFF, 0x01, 0, 0, 0, 9] = (Ok None, [0x01, 0, 0, 0, 9])"
    by (simp add: server_decode.simps parse_header_def Let_def get_u32_def
        ServerInboundCommand_try_from_def MAXIMUM_PAYLOAD_BYTES_def)
  with server_decode_buffer_bounded [OF d] show ?thesis by simp
qed

text \<open>
  C29: Resynchronisation. Bytes that are not a client command are skipped one by one: a complete
  frame that follows any amount of such garbage is decoded as if it stood at the front of the
  buffer, and nothing behind it is touched.
\<close>

theorem server_decode_resyncs:
  assumes "\<forall>g \<in> set garbage. g \<notin> {0x01, 0x02, 0x03, 0x04}"
    and "frame_law P f payload" and "length payload \<le> MAXIMUM_PAYLOAD_BYTES"
  shows "server_decode P (garbage @ snd (client_encode_frame P f []) @ rest) = (Ok (Some f), rest)"
proof -
  have "\<forall>g \<in> set garbage. server_pick P g = None" using assms(1) by (simp add: server_pick_None_iff)
  then have "server_decode P (garbage @ frame_bytes (frame_command f) payload @ rest)
      = server_decode P (frame_bytes (frame_command f) payload @ rest)"
    by (simp add: server_decode_loop decode_loop_garbage)
  then show ?thesis
    using server_decode_frame [OF assms(2,3)]
      client_encode_frame_bytes [OF assms(2) max_payload_u32 [OF assms(3)]] by simp
qed

theorem server_decode_resyncs_witness:
  "server_decode wire_prost ([0x00, 0xFF, 0x05]
      @ snd (client_encode_frame wire_prost (Frame_UnSubscribe \<lparr>unsubscribe_subscription_id = 42\<rparr>) []) @ [0x09])
     = (Ok (Some (Frame_UnSubscribe \<lparr>unsubscribe_subscription_id = 42\<rparr>)), [0x09])"
  by (rule server_decode_resyncs [OF _ unsubscribe_42_law]) (simp_all add: MAXIMUM_PAYLOAD_BYTES_def)

text \<open>
  C31: A malformed payload is reported and consumed. When a frame has an acceptable header but the
  generated decoder rejects its payload, the server decoder returns exactly that decode error, and
  the buffer it leaves starts behind the bad frame.
\<close>

theorem server_decode_malformed:
  assumes "c = Command_as_u8 Command_Connect \<and> Connect_decode P payload = Err e
      \<or> c = Command_as_u8 Command_Publish \<and> Publish_decode P payload = Err e
      \<or> c = Command_as_u8 Command_Subscribe \<and> Subscribe_decode P payload = Err e
      \<or> c = Command_as_u8 Command_UnSubscribe \<and> UnSubscribe_decode P payload = Err e"
    and "length payload \<le> MAXIMUM_PAYLOAD_BYTES"
  shows "server_decode P (c # put_u32 (of_nat (length payload)) @ payload @ rest)
    = (Err (ServerCodecError_Codec (Decode e)), rest)"
proof -
  have "\<exists>d. server_pick P c = Some d \<and> d payload = Err (ServerCodecError_Codec (Decode e))"
    using assms(1) by (auto simp: decode_payload_def codec_defs)
  then show ?thesis
    using decode_loop_frame [of "server_pick P" c _ payload rest] assms(2)
    by (auto simp: server_decode_loop frame_bytes_def)
qed

theorem server_decode_malformed_witness:
  "server_decode (wire_prost\<lparr>UnSubscribe_decode := \<lambda>b. Err ''invalid tag''\<rparr>) [0x04, 0, 0, 0, 1, 0x07, 0x63]
     = (Err (ServerCodecError_Codec (Decode ''invalid tag'')), [0x63])"
  using server_decode_malformed [of "0x04" "wire_prost\<lparr>UnSubscribe_decode := \<lambda>b. Err ''invalid tag''\<rparr>"
      "[0x07]" "''invalid tag''" "[0x63]"]
  by (simp add: MAXIMUM_PAYLOAD_BYTES_def put_u32_def)

text \<open>
  C30: The encoder is all or nothing. For every codec, item and output buffer it either appends one
  complete frame with the item's command byte and payload, or fails and leaves the buffer as it
  was; it fails exactly when the generated encoder does or the payload length does not fit a
  \<open>u32\<close>.
\<close>

theorem server_encode_all_or_nothing:
  "(case server_encode C item out of
      (Ok _, out1) \<Rightarrow> \<exists>payload. Message_encode_fn C item = Ok payload \<and> length payload < 2 ^ 32
        \<and> out1 = out @ [COMMAND C] @ put_u32 (of_nat (length payload)) @ payload
        \<and> parse_header (drop (length out) out1) = Some (COMMAND C, length payload)
    | (Err e, out1) \<Rightarrow> out1 = out
        \<and> (case Message_encode_fn C item of
             Err x \<Rightarrow> e = ServerCodecError_Codec (Encode x)
           | Ok payload \<Rightarrow> 2 ^ 32 \<le> length payload
               \<and> e = ServerCodecError_Codec (InvalidSizeBytes (length payload))))"
  using parse_header_frame [of _ "COMMAND C" "[]"]
  by (auto simp: server_encode_def encode_payload_def frame_bytes_def not_less
      split: sum.splits)



text \<open>
  C40: The command bytes are well typed. The six commands have different bytes; each byte of a command
  is accepted by exactly one of the two sides, and there as the variant of the same name; a byte that
  is not a command is accepted by neither.
\<close>

theorem command_bytes_well_typed:
  "inj Command_as_u8
   \<and> (\<lambda>c. (ServerInboundCommand_try_from (Command_as_u8 c), ClientInboundCommand_try_from (Command_as_u8 c)))
     = (\<lambda>c. case c of
          Command_Info \<Rightarrow> (Err (), Ok ClientInbound_Info)
        | Command_Connect \<Rightarrow> (Ok ServerInbound_Connect, Err ())
        | Command_Publish \<Rightarrow> (Ok ServerInbound_Publish, Err ())
        | Command_Subscribe \<Rightarrow> (Ok ServerInbound_Subscribe, Err ())
        | Command_UnSubscribe \<Rightarrow> (Ok ServerInbound_UnSubscribe, Err ())
        | Command_Message \<Rightarrow> (Err (), Ok ClientInbound_Message))
   \<and> {b. ServerInboundCommand_try_from b = Err () \<and> ClientInboundCommand_try_from b = Err ()}
     = - range Command_as_u8"
proof (intro conjI)
  show "inj Command_as_u8"
    by (rule injI, rename_tac c d, case_tac c; case_tac d) simp_all
  show "(\<lambda>c. (ServerInboundCommand_try_from (Command_as_u8 c), ClientInboundCommand_try_from (Command_as_u8 c)))
     = (\<lambda>c. case c of
          Command_Info \<Rightarrow> (Err (), Ok ClientInbound_Info)
        | Command_Connect \<Rightarrow> (Ok ServerInbound_Connect, Err ())
        | Command_Publish \<Rightarrow> (Ok ServerInbound_Publish, Err ())
        | Command_Subscribe \<Rightarrow> (Ok ServerInbound_Subscribe, Err ())
        | Command_UnSubscribe \<Rightarrow> (Ok ServerInbound_UnSubscribe, Err ())
        | Command_Message \<Rightarrow> (Err (), Ok ClientInbound_Message))"
    by (rule ext)
      (simp add: ServerInboundCommand_try_from_def ClientInboundCommand_try_from_def split: Command.splits)
  have "range Command_as_u8 = {0x00, 0x01, 0x02, 0x03, 0x04, 0x05}"
    by (simp add: UNIV_Command)
  then show "{b. ServerInboundCommand_try_from b = Err () \<and> ClientInboundCommand_try_from b = Err ()}
     = - range Command_as_u8"
    by (auto simp: ServerInboundCommand_try_from_def ClientInboundCommand_try_from_def)
qed

end
