(* ===== verification/Handshake.thy ===== *)
theory Handshake
  imports Parser
begin

text \<open>
  \<open>crates/server/src/auth.rs\<close> and \<open>crates/server/src/handshake.rs\<close>: authentication of the CONNECT
  message and the type-state of the handshake. An \<open>Authenticator\<close> object is its \<open>authenticate\<close>
  method. The methods of \<open>PendingHandshake\<close> take the state by value, so a pending handshake is
  used up by \<open>on_connect\<close>.
\<close>

section \<open>Authentication\<close>

datatype AuthOutcome = Accepted | Rejected (reject_reason: string)

type_synonym Authenticator = "pb_Connect \<Rightarrow> AuthOutcome"

definition NoAuthAuthenticator :: Authenticator where
  "NoAuthAuthenticator connect = Accepted"

section \<open>The handshake states\<close>

record PendingHandshake =
  pending_client_id :: ClientId

record CompletedHandshake =
  completed_client_id :: ClientId
  connect_info :: pb_Connect

datatype HandshakeError =
    ConnectTimeout
  | ConnectionClosed
  | UnexpectedFrame
  | AuthenticationFailed string

fun HandshakeError_display :: "HandshakeError \<Rightarrow> string" where
  "HandshakeError_display ConnectTimeout = ''CONNECT timeout''"
| "HandshakeError_display ConnectionClosed = ''connection closed before CONNECT''"
| "HandshakeError_display UnexpectedFrame = ''unexpected frame received after handshake''"
| "HandshakeError_display (AuthenticationFailed reason) = ''authentication failed: '' @ reason"

definition PendingHandshake_new :: "ClientId \<Rightarrow> PendingHandshake" where
  "PendingHandshake_new client_id = \<lparr>pending_client_id = client_id\<rparr>"

definition on_connect ::
    "PendingHandshake \<Rightarrow> pb_Connect \<Rightarrow> Authenticator \<Rightarrow> HandshakeError + CompletedHandshake" where
  "on_connect self connect authenticator =
     (case authenticator connect of
        Accepted \<Rightarrow> Ok \<lparr>completed_client_id = pending_client_id self, connect_info = connect\<rparr>
      | Rejected reason \<Rightarrow> Err (AuthenticationFailed reason))"

lemma pending_client_id_new [simp]: "pending_client_id (PendingHandshake_new cid) = cid"
  by (simp add: PendingHandshake_new_def)

lemma on_connect_ok_iff:
  "on_connect p m auth = Ok c \<longleftrightarrow>
     auth m = Accepted \<and> c = \<lparr>completed_client_id = pending_client_id p, connect_info = m\<rparr>"
  by (auto simp: on_connect_def split: AuthOutcome.splits)

lemma on_connect_err_iff:
  "on_connect p m auth = Err e \<longleftrightarrow> (\<exists>r. auth m = Rejected r \<and> e = AuthenticationFailed r)"
  by (auto simp: on_connect_def split: AuthOutcome.splits)

end
