(* ===== verification/Config.thy ===== *)
theory Config
  imports Ocypode_Error
begin

text \<open>
  \<open>crates/server/src/config.rs\<close>: the configuration of the server, its defaults, and the checks
  that turn it into addresses and paths. Parsing a \<open>SocketAddr\<close> and asking the file system
  whether a path exists are arguments of the definitions that use them.
\<close>

section \<open>Levels\<close>

datatype MetricLevel = Disabled | Critical | Info | Debug

fun MetricLevel_as_nat :: "MetricLevel \<Rightarrow> nat" where
  "MetricLevel_as_nat Disabled = 0"
| "MetricLevel_as_nat Critical = 1"
| "MetricLevel_as_nat Info = 2"
| "MetricLevel_as_nat Debug = 3"

text \<open>\<open>derive(PartialOrd)\<close> on a fieldless enum compares the discriminants.\<close>

instantiation MetricLevel :: linorder
begin

definition less_eq_MetricLevel :: "MetricLevel \<Rightarrow> MetricLevel \<Rightarrow> bool" where
  "less_eq_MetricLevel a b \<longleftrightarrow> MetricLevel_as_nat a \<le> MetricLevel_as_nat b"

definition less_MetricLevel :: "MetricLevel \<Rightarrow> MetricLevel \<Rightarrow> bool" where
  "less_MetricLevel a b \<longleftrightarrow> MetricLevel_as_nat a < MetricLevel_as_nat b"

instance
proof
  fix a b c :: MetricLevel
  show "a < b \<longleftrightarrow> a \<le> b \<and> \<not> b \<le> a"
    by (auto simp: less_eq_MetricLevel_def less_MetricLevel_def)
  show "a \<le> a" by (simp add: less_eq_MetricLevel_def)
  show "a \<le> b \<or> b \<le> a" by (auto simp: less_eq_MetricLevel_def)
  show "a \<le> c" if "a \<le> b" "b \<le> c" using that by (simp add: less_eq_MetricLevel_def)
  show "a = b" if "a \<le> b" "b \<le> a"
    using that by (cases a; cases b) (simp_all add: less_eq_MetricLevel_def)
qed

end

definition MetricLevel_default :: MetricLevel where
  "MetricLevel_default = Disabled"

text \<open>The levels of the logging library the configuration names.\<close>

datatype LevelFilter = LF_OFF | LF_ERROR | LF_WARN | LF_INFO | LF_DEBUG | LF_TRACE

section \<open>Records and defaults\<close>

definition SERVER_ID :: string where "SERVER_ID = ''ocypode-server''"

definition SERVER_NAME :: string where "SERVER_NAME = ''ocypode''"

definition QUIC_CONNECT_TIMEOUT_MS :: u64 where "QUIC_CONNECT_TIMEOUT_MS = 2000"

definition QUIC_READ_BUFFER_SIZE :: nat where "QUIC_READ_BUFFER_SIZE = 32 * 1024"

definition QUIC_WRITE_BUFFER_SIZE :: nat where "QUIC_WRITE_BUFFER_SIZE = 10 * 1024 * 1024"

definition QUIC_OUTBOUND_CHANNEL_CAPACITY :: nat where "QUIC_OUTBOUND_CHANNEL_CAPACITY = 1024"

record LoggerConfig =
  logger_name :: string
  enable_tokio_console :: bool
  with_thread_name :: bool
  default_level :: LevelFilter

definition LoggerConfig_new :: "string \<Rightarrow> LoggerConfig" where
  "LoggerConfig_new name = \<lparr>logger_name = name, enable_tokio_console = False,
     with_thread_name = False, default_level = LF_INFO\<rparr>"

definition LoggerConfig_default :: LoggerConfig where
  "LoggerConfig_default = LoggerConfig_new ''ocypode''"

record GrpcConfig =
  grpc_listen_addr :: string

definition GrpcConfig_default :: GrpcConfig where
  "GrpcConfig_default = \<lparr>grpc_listen_addr = ''[::1]:50051''\<rparr>"

record MetricsConfig =
  metrics_level :: MetricLevel
  metrics_listen_addr :: string

definition MetricsConfig_default :: MetricsConfig where
  "MetricsConfig_default =
     \<lparr>metrics_level = MetricLevel_default, metrics_listen_addr = ''127.0.0.1:9090''\<rparr>"

record TLSConfig =
  tls_cert_file_path :: string
  tls_key_file_path :: string

definition TLSConfig_default :: TLSConfig where
  "TLSConfig_default =
     \<lparr>tls_cert_file_path = ''crates/certs/server.crt'', tls_key_file_path = ''crates/certs/key.pem''\<rparr>"

record QuicConfig =
  quic_listen_addr :: string
  enable_gso :: bool
  enable_gro :: bool
  endpoint_limits :: "nat option"
  connect_timeout :: u64
  read_buffer_size :: nat
  write_buffer_size :: nat
  outbound_channel_capacity :: nat
  quic_tls :: TLSConfig

definition QuicConfig_default :: QuicConfig where
  "QuicConfig_default =
     \<lparr>quic_listen_addr = ''127.0.0.1:4433'', enable_gso = True, enable_gro = True,
      endpoint_limits = None, connect_timeout = QUIC_CONNECT_TIMEOUT_MS,
      read_buffer_size = QUIC_READ_BUFFER_SIZE, write_buffer_size = QUIC_WRITE_BUFFER_SIZE,
      outbound_channel_capacity = QUIC_OUTBOUND_CHANNEL_CAPACITY, quic_tls = TLSConfig_default\<rparr>"

record ServerConfig =
  config_logger :: LoggerConfig
  config_grpc :: GrpcConfig
  config_metrics :: MetricsConfig
  config_quic :: QuicConfig
  config_server_id :: string
  config_server_name :: string
  config_requires_auth :: bool
  config_tls_verify :: bool

definition ServerConfig_new :: ServerConfig where
  "ServerConfig_new =
     \<lparr>config_logger = LoggerConfig_default, config_grpc = GrpcConfig_default,
      config_metrics = MetricsConfig_default, config_quic = QuicConfig_default,
      config_server_id = SERVER_ID, config_server_name = SERVER_NAME,
      config_requires_auth = False, config_tls_verify = False\<rparr>"

definition ServerConfig_default :: ServerConfig where
  "ServerConfig_default = ServerConfig_new"

section \<open>Addresses and paths\<close>

text \<open>
  \<open>str::parse::<SocketAddr>().unwrap()\<close>: \<open>parse\<close> is the standard library's parser, and a failed
  \<open>unwrap\<close> is a panic, the value \<open>None\<close>.
\<close>

definition GrpcConfig_socket_addr :: "(string \<Rightarrow> 'addr option) \<Rightarrow> GrpcConfig \<Rightarrow> 'addr option" where
  "GrpcConfig_socket_addr parse c = parse (grpc_listen_addr c)"

definition QuicConfig_socket_addr :: "(string \<Rightarrow> 'addr option) \<Rightarrow> QuicConfig \<Rightarrow> 'addr option" where
  "QuicConfig_socket_addr parse c = parse (quic_listen_addr c)"

definition cert_file_path :: "(string \<Rightarrow> io_error + bool) \<Rightarrow> TLSConfig \<Rightarrow> io_error + string" where
  "cert_file_path try_exists c =
     and_then (try_exists (tls_cert_file_path c)) (\<lambda>there.
       if \<not> there
       then Err (IoError NotFound (''Certificate file not found at: '' @ tls_cert_file_path c))
       else Ok (tls_cert_file_path c))"

definition key_file_path :: "(string \<Rightarrow> io_error + bool) \<Rightarrow> TLSConfig \<Rightarrow> io_error + string" where
  "key_file_path try_exists c =
     and_then (try_exists (tls_key_file_path c)) (\<lambda>there.
       if \<not> there
       then Err (IoError NotFound (''Key file not found at: '' @ tls_key_file_path c))
       else Ok (tls_key_file_path c))"

lemma cert_file_path_ok_iff:
  "cert_file_path ex c = Ok p \<longleftrightarrow> p = tls_cert_file_path c \<and> ex p = Ok True"
  by (auto simp: cert_file_path_def result_simps split: if_splits)

lemma key_file_path_ok_iff:
  "key_file_path ex c = Ok p \<longleftrightarrow> p = tls_key_file_path c \<and> ex p = Ok True"
  by (auto simp: key_file_path_def result_simps split: if_splits)

end
