(* ===== verification/Client.thy ===== *)
theory Client
  imports Handshake Config
begin

text \<open>
  \<open>crates/server/src/client.rs\<close>: the pipeline of one connection. The asynchronous runtime is not
  part of the repository; what the code asks of it is a record of operations on a state \<open>'s\<close>
  (\<open>connection_io\<close> for the reading task, \<open>writer_io\<close> for the writer task), one field per call
  the code awaits. Loops that end only when a peer or a channel does are partial functions: a
  call that never returns has the value \<open>None\<close>.

  The definitions also return what the code did, as a list of events: a message handed to the
  outbound channel, a line logged, and each call of \<open>dispatch_frame\<close>.
\<close>

section \<open>Errors and the runtime interface\<close>

datatype ClientError =
    ClientError_Handshake HandshakeError
  | ClientError_Codec ServerCodecError
  | OutboundChannelClosed

text \<open>\<open>From<mpsc::error::SendError<OutboundMessage>>\<close>: the message that was not sent is dropped.\<close>

definition ClientError_from_send_error :: "OutboundMessage \<Rightarrow> ClientError" where
  "ClientError_from_send_error m = OutboundChannelClosed"

datatype event =
    Sent OutboundMessage
  | Logged string
  | Dispatched Frame

text \<open>
  \<open>framed_next\<close> is \<open>FramedRead::next\<close> over the connection's reader, \<open>channel_send\<close> is
  \<open>mpsc::Sender::send\<close> (which gives the message back when the channel is closed), and
  \<open>before_deadline\<close> tells whether \<open>tokio::time::timeout\<close> with this many milliseconds lets the
  pending \<open>framed_next\<close> complete.
\<close>

record 's connection_io =
  framed_next :: "'s \<Rightarrow> (ServerCodecError + Frame) option \<times> 's"
  channel_send :: "OutboundMessage \<Rightarrow> 's \<Rightarrow> (OutboundMessage + unit) \<times> 's"
  before_deadline :: "u64 \<Rightarrow> 's \<Rightarrow> bool"

section \<open>The client\<close>

text \<open>
  The fields \<open>framed_read\<close> and \<open>outbound_sender\<close> are handles of the runtime; their state is the
  component \<open>client_io\<close>. \<open>open_transport\<close> stands for \<open>Transport::into_split\<close> with the
  constructors of \<open>FramedRead\<close>, \<open>FramedWrite\<close>, the channel and the writer task.
  \<open>mpsc::channel\<close> panics for capacity 0, the value \<open>None\<close>.
\<close>

record 's Client =
  client_id :: ClientId
  client_io :: 's
  authenticator :: Authenticator
  client_config :: ServerConfig

definition Client_new ::
    "('t \<Rightarrow> nat \<Rightarrow> nat \<Rightarrow> nat \<Rightarrow> 's) \<Rightarrow> 't \<Rightarrow> Authenticator \<Rightarrow> ServerConfig \<Rightarrow> u64
      \<Rightarrow> 's Client option \<times> u64" where
  "Client_new open_transport transport auth config counter =
     (let (cid, counter1) = ClientId_new counter;
          quic = config_quic config
      in (if outbound_channel_capacity quic = 0 then None
          else Some \<lparr>client_id = cid,
                 client_io = open_transport transport (read_buffer_size quic)
                   (write_buffer_size quic) (outbound_channel_capacity quic),
                 authenticator = auth, client_config = config\<rparr>,
          counter1))"

text \<open>
  The trait \<open>Transport\<close> of \<open>crates/server/src/transport.rs\<close>, with its types as parameters, and \<open>open_transport\<close> as
  \<open>Client::new\<close> composes it: the transport is split, and \<open>runtime\<close> builds the framed reader and writer
  of the given sizes over the two halves, the channel and the writer task.
\<close>

record ('t, 'r, 'w) Transport =
  into_split :: "'t \<Rightarrow> 'r \<times> 'w"

definition open_split ::
    "('t, 'r, 'w) Transport \<Rightarrow> ('r \<Rightarrow> nat \<Rightarrow> 'w \<Rightarrow> nat \<Rightarrow> nat \<Rightarrow> 's) \<Rightarrow> 't \<Rightarrow> nat \<Rightarrow> nat \<Rightarrow> nat \<Rightarrow> 's" where
  "open_split T runtime transport read_size write_size capacity =
     (let (reader, writer) = into_split T transport in runtime reader read_size writer write_size capacity)"

text \<open>What the handshake makes of the first item of the stream.\<close>

definition first_item_outcome ::
    "PendingHandshake \<Rightarrow> Authenticator \<Rightarrow> (ServerCodecError + Frame) option \<Rightarrow> ClientError + CompletedHandshake" where
  "first_item_outcome pending auth item =
     (case item of
        Some (Ok (Frame_Connect connect)) \<Rightarrow> map_err ClientError_Handshake (on_connect pending connect auth)
      | Some (Ok _) \<Rightarrow> Err (ClientError_Handshake ConnectionClosed)
      | Some (Err e) \<Rightarrow> Err (ClientError_Codec e)
      | None \<Rightarrow> Err (ClientError_Handshake ConnectionClosed))"

definition perform_handshake ::
    "'s connection_io \<Rightarrow> u64 \<Rightarrow> PendingHandshake \<Rightarrow> Authenticator \<Rightarrow> pb_Info \<Rightarrow> 's
      \<Rightarrow> (ClientError + CompletedHandshake) \<times> event list \<times> 's" where
  "perform_handshake io connect_timeout_ms pending auth info s =
     (case channel_send io (OutboundMessage_Info info) s of
        (Err m, s1) \<Rightarrow> (Err (ClientError_from_send_error m), [], s1)
      | (Ok _, s1) \<Rightarrow>
          let sent = [Sent (OutboundMessage_Info info)] in
          if \<not> before_deadline io connect_timeout_ms s1
          then (Err (ClientError_Handshake ConnectTimeout), sent, s1)
          else
            (case framed_next io s1 of
               (item, s2) \<Rightarrow> (first_item_outcome pending auth item, sent, s2)))"

definition dispatch_frame :: "Frame \<Rightarrow> CompletedHandshake \<Rightarrow> (ClientError + unit) \<times> event list" where
  "dispatch_frame frame handshake =
     (case frame of
        Frame_Connect _ \<Rightarrow>
          (Ok (), [Logged (''client_id='' @ ClientId_fmt (completed_client_id handshake)
             @ '' received unexpected CONNECT after handshake'')])
      | Frame_Publish _ \<Rightarrow> (Ok (), [])
      | Frame_Subscribe _ \<Rightarrow> (Ok (), [])
      | Frame_UnSubscribe _ \<Rightarrow> (Ok (), []))"

text \<open>The frame dispatch loop, phase 2 of \<open>Client::run\<close>.\<close>

partial_function (option) dispatch_loop ::
    "'s connection_io \<Rightarrow> CompletedHandshake \<Rightarrow> 's \<Rightarrow> ((ClientError + unit) \<times> event list \<times> 's) option" where
  "dispatch_loop io handshake s =
     (case framed_next io s of
        (None, s1) \<Rightarrow> Some (Ok (), [], s1)
      | (Some (Err e), s1) \<Rightarrow> Some (Err (ClientError_Codec e), [], s1)
      | (Some (Ok frame), s1) \<Rightarrow>
          (case dispatch_frame frame handshake of
             (Err e, log) \<Rightarrow> Some (Err e, Dispatched frame # log, s1)
           | (Ok _, log) \<Rightarrow>
               Option.bind (dispatch_loop io handshake s1)
                 (\<lambda>(r, ev, s2). Some (r, Dispatched frame # log @ ev, s2))))"

definition connection_info :: "ClientId \<Rightarrow> ServerConfig \<Rightarrow> pb_Info" where
  "connection_info cid config =
     ServerOutbound_info PROTOCOL_VERSION cid (config_server_id config) (config_server_name config)
       (config_requires_auth config) (config_tls_verify config)"

definition Client_run ::
    "'s connection_io \<Rightarrow> 's Client \<Rightarrow> ((ClientError + unit) \<times> event list \<times> 's) option" where
  "Client_run io self =
     (case perform_handshake io (connect_timeout (config_quic (client_config self)))
         (PendingHandshake_new (client_id self)) (authenticator self)
         (connection_info (client_id self) (client_config self)) (client_io self) of
        (Err e, ev, s1) \<Rightarrow> Some (Err e, ev, s1)
      | (Ok completed, ev, s1) \<Rightarrow>
          Option.bind (dispatch_loop io completed s1)
            (\<lambda>(r, ev2, s2). Some (r, ev @ Logged (''client_id='' @ ClientId_fmt (completed_client_id completed)
               @ '' connection established'') # ev2, s2)))"

section \<open>The writer task\<close>

text \<open>
  \<open>receiver_recv\<close> and \<open>receiver_try_recv\<close> are the two receives of \<open>mpsc::Receiver\<close>;
  \<open>framed_feed\<close> is \<open>FramedWrite::feed\<close> of an INFO message, and \<open>framed_flush\<close> its \<open>flush\<close>.
\<close>

record 'w writer_io =
  receiver_recv :: "'w \<Rightarrow> OutboundMessage option \<times> 'w"
  receiver_try_recv :: "'w \<Rightarrow> (unit + OutboundMessage) \<times> 'w"
  framed_feed :: "pb_Info \<Rightarrow> 'w \<Rightarrow> (ServerCodecError + unit) \<times> 'w"
  framed_flush :: "'w \<Rightarrow> (ServerCodecError + unit) \<times> 'w"

definition dispatch_outbound :: "'w writer_io \<Rightarrow> OutboundMessage \<Rightarrow> 'w \<Rightarrow> (ServerCodecError + unit) \<times> 'w" where
  "dispatch_outbound io message w =
     (case message of
        OutboundMessage_Info info \<Rightarrow> framed_feed io info w
      | OutboundMessage_Message _ \<Rightarrow> (Ok (), w))"

text \<open>The inner \<open>while let Ok(message) = receiver.try_recv()\<close>; results are ignored (\<open>let _ =\<close>).\<close>

partial_function (option) drain_queued :: "'w writer_io \<Rightarrow> 'w \<Rightarrow> 'w option" where
  "drain_queued io w =
     (case receiver_try_recv io w of
        (Err _, w1) \<Rightarrow> Some w1
      | (Ok message, w1) \<Rightarrow> drain_queued io (snd (dispatch_outbound io message w1)))"

partial_function (option) run_outbound_writer :: "'w writer_io \<Rightarrow> 'w \<Rightarrow> 'w option" where
  "run_outbound_writer io w =
     (case receiver_recv io w of
        (None, w1) \<Rightarrow> Some w1
      | (Some message, w1) \<Rightarrow>
          Option.bind (drain_queued io (snd (dispatch_outbound io message w1)))
            (\<lambda>w2. run_outbound_writer io (snd (framed_flush io w2))))"

section \<open>Evaluation rules\<close>

lemma dispatch_frame_ok [simp]: "fst (dispatch_frame frame h) = Ok ()"
  by (simp add: dispatch_frame_def split: Frame.splits)

lemma dispatch_loop_None: "framed_next io s = (None, s1) \<Longrightarrow> dispatch_loop io h s = Some (Ok (), [], s1)"
  by (subst dispatch_loop.simps) simp

lemma dispatch_loop_Err:
  "framed_next io s = (Some (Err e), s1) \<Longrightarrow> dispatch_loop io h s = Some (Err (ClientError_Codec e), [], s1)"
  by (subst dispatch_loop.simps) simp

lemma dispatch_loop_Ok:
  "framed_next io s = (Some (Ok frame), s1) \<Longrightarrow>
     dispatch_loop io h s = Option.bind (dispatch_loop io h s1)
       (\<lambda>(r, ev, s2). Some (r, Dispatched frame # snd (dispatch_frame frame h) @ ev, s2))"
proof -
  assume n: "framed_next io s = (Some (Ok frame), s1)"
  obtain log where "dispatch_frame frame h = (Ok (), log)"
    by (metis dispatch_frame_ok prod.collapse)
  with n show ?thesis by (subst dispatch_loop.simps) simp
qed

end
