(* ===== verification/Connection.thy ===== *)
theory Connection
  imports Client
begin

text \<open>
  The contract of a connection as a state machine, and the proof that \<open>Client_run\<close> keeps to it.
  The machine has the phases of the type-state pattern of \<open>handshake.rs\<close>; each step carries the
  events the code produces. \<open>Client_run\<close>, whatever the runtime does, only ever walks along the
  machine (refinement), so what holds on every path of the machine holds for the code. The locale
  \<open>framed_source\<close> says what the code relies on in a reader that delivers a finite stream, and
  gives the result of \<open>Client_run\<close> as a function of that stream.
\<close>

section \<open>The phases\<close>

datatype phase =
    Greeting
  | Waiting PendingHandshake
  | Serving CompletedHandshake
  | Closed "ClientError + unit"

inductive conn_step :: "Authenticator \<Rightarrow> ClientId \<Rightarrow> pb_Info \<Rightarrow> phase \<Rightarrow> event list \<Rightarrow> phase \<Rightarrow> bool"
  for auth cid info where
  channel_closed: "conn_step auth cid info Greeting [] (Closed (Err OutboundChannelClosed))"
| greet: "conn_step auth cid info Greeting [Sent (OutboundMessage_Info info)]
    (Waiting (PendingHandshake_new cid))"
| no_connect: "e \<in> {ConnectTimeout, ConnectionClosed} \<Longrightarrow>
    conn_step auth cid info (Waiting p) [] (Closed (Err (ClientError_Handshake e)))"
| bad_connect: "conn_step auth cid info (Waiting p) [] (Closed (Err (ClientError_Codec e)))"
| reject: "auth m = Rejected r \<Longrightarrow>
    conn_step auth cid info (Waiting p) [] (Closed (Err (ClientError_Handshake (AuthenticationFailed r))))"
| accept: "auth m = Accepted \<Longrightarrow> l = ''client_id='' @ ClientId_fmt (pending_client_id p) @ '' connection established'' \<Longrightarrow>
    conn_step auth cid info (Waiting p) [Logged l]
      (Serving \<lparr>completed_client_id = pending_client_id p, connect_info = m\<rparr>)"
| dispatch: "conn_step auth cid info (Serving h) (Dispatched f # snd (dispatch_frame f h)) (Serving h)"
| finish: "conn_step auth cid info (Serving h) [] (Closed (Ok ()))"
| fail: "conn_step auth cid info (Serving h) [] (Closed (Err (ClientError_Codec e)))"

inductive_cases conn_step_GreetingE: "conn_step auth cid info Greeting ev q"
inductive_cases conn_step_WaitingE: "conn_step auth cid info (Waiting p) ev q"
inductive_cases conn_step_ServingE: "conn_step auth cid info (Serving h) ev q"

inductive_simps conn_step_Closed [simp]: "conn_step auth cid info (Closed r) ev q"

inductive conn_steps :: "Authenticator \<Rightarrow> ClientId \<Rightarrow> pb_Info \<Rightarrow> phase \<Rightarrow> event list \<Rightarrow> phase \<Rightarrow> bool"
  for auth cid info where
  steps_refl: "conn_steps auth cid info p [] p"
| steps_step: "conn_step auth cid info p ev q \<Longrightarrow> conn_steps auth cid info q ev' r \<Longrightarrow>
    conn_steps auth cid info p (ev @ ev') r"

inductive_simps conn_steps_Closed [simp]: "conn_steps auth cid info (Closed r) ev q"

lemma conn_steps_single: "conn_step auth cid info p ev q \<Longrightarrow> conn_steps auth cid info p ev q"
  using steps_step [OF _ steps_refl] by fastforce

lemma conn_steps_trans:
  "conn_steps auth cid info p ev q \<Longrightarrow> conn_steps auth cid info q ev' r \<Longrightarrow>
     conn_steps auth cid info p (ev @ ev') r"
  by (induction rule: conn_steps.induct) (auto dest: steps_step)

section \<open>What holds on every path\<close>

text \<open>
  The invariant that a path from the start keeps: nothing happened yet; or INFO was sent and
  nothing else; or INFO was sent, a CONNECT was accepted, and only then frames were dispatched.
\<close>

definition established_line :: "ClientId \<Rightarrow> string" where
  "established_line cid = ''client_id='' @ ClientId_fmt cid @ '' connection established''"

fun dispatch_log :: "ClientId \<Rightarrow> Frame list \<Rightarrow> event list" where
  "dispatch_log cid [] = []"
| "dispatch_log cid (f # fs) =
     Dispatched f # (case f of Frame_Connect _ \<Rightarrow>
         [Logged (''client_id='' @ ClientId_fmt cid @ '' received unexpected CONNECT after handshake'')]
       | _ \<Rightarrow> []) @ dispatch_log cid fs"

lemma dispatch_log_append: "dispatch_log cid (fs @ gs) = dispatch_log cid fs @ dispatch_log cid gs"
  by (induction fs) auto

lemma dispatch_log_frame: "Dispatched f # snd (dispatch_frame f h) = dispatch_log (completed_client_id h) [f]"
  by (cases f) (simp_all add: dispatch_frame_def)

lemma dispatch_log_frames: "[f. Dispatched f \<leftarrow> dispatch_log cid fs] = fs"
  by (induction fs) (auto split: Frame.splits)

lemma dispatch_log_sent: "[m. Sent m \<leftarrow> dispatch_log cid fs] = []"
  by (induction fs) (auto split: Frame.splits)

definition served :: "Authenticator \<Rightarrow> ClientId \<Rightarrow> pb_Info \<Rightarrow> event list \<Rightarrow> bool" where
  "served auth cid info ev \<longleftrightarrow>
     (\<exists>m fs. auth m = Accepted \<and>
        ev = Sent (OutboundMessage_Info info) # Logged (established_line cid) # dispatch_log cid fs)"

fun phase_inv :: "Authenticator \<Rightarrow> ClientId \<Rightarrow> pb_Info \<Rightarrow> event list \<Rightarrow> phase \<Rightarrow> bool" where
  "phase_inv auth cid info ev Greeting \<longleftrightarrow> ev = []"
| "phase_inv auth cid info ev (Waiting p) \<longleftrightarrow>
     p = PendingHandshake_new cid \<and> ev = [Sent (OutboundMessage_Info info)]"
| "phase_inv auth cid info ev (Serving h) \<longleftrightarrow>
     completed_client_id h = cid \<and> auth (connect_info h) = Accepted \<and> served auth cid info ev"
| "phase_inv auth cid info ev (Closed r) \<longleftrightarrow>
     (case r of
        Ok _ \<Rightarrow> served auth cid info ev
      | Err OutboundChannelClosed \<Rightarrow> ev = []
      | Err (ClientError_Handshake e) \<Rightarrow> ev = [Sent (OutboundMessage_Info info)]
          \<and> (e \<in> {ConnectTimeout, ConnectionClosed}
             \<or> (\<exists>m r. auth m = Rejected r \<and> e = AuthenticationFailed r))
      | Err (ClientError_Codec e) \<Rightarrow>
          ev = [Sent (OutboundMessage_Info info)] \<or> served auth cid info ev)"

lemma served_dispatch:
  assumes "served auth cid info ev" and "completed_client_id h = cid"
  shows "served auth cid info (ev @ Dispatched f # snd (dispatch_frame f h))"
  using assms unfolding served_def dispatch_log_frame
  by (metis append_Cons dispatch_log_append)

lemma phase_inv_step:
  "conn_step auth cid info p ev' q \<Longrightarrow> phase_inv auth cid info ev p \<Longrightarrow> phase_inv auth cid info (ev @ ev') q"
proof (induction rule: conn_step.induct)
  case (accept m l p)
  then have "served auth cid info (ev @ [Logged l])"
    unfolding served_def established_line_def
    by (auto intro!: exI [of _ m] exI [of _ "[]"])
  with accept show ?case by simp
next
  case (dispatch h f)
  then show ?case using served_dispatch by simp
qed (auto simp: served_def)

lemma phase_inv_steps:
  "conn_steps auth cid info p ev' q \<Longrightarrow> phase_inv auth cid info ev p \<Longrightarrow> phase_inv auth cid info (ev @ ev') q"
proof (induction arbitrary: ev rule: conn_steps.induct)
  case (steps_step p ev1 q ev2 r)
  then show ?case using phase_inv_step [of auth cid info p ev1 q ev] by (metis append.assoc)
qed simp

lemma reachable_phase_inv: "conn_steps auth cid info Greeting ev q \<Longrightarrow> phase_inv auth cid info ev q"
  using phase_inv_steps [of auth cid info Greeting ev q "[]"] by simp

section \<open>Client::run refines the machine\<close>

lemma dispatch_loop_steps:
  assumes "dispatch_loop io h s = Some out"
  shows "conn_steps auth cid info (Serving h) (fst (snd out)) (Closed (fst out))"
proof (rule dispatch_loop.raw_induct [OF _ assms,
      where P = "\<lambda>io h s out. conn_steps auth cid info (Serving h) (fst (snd out)) (Closed (fst out))"], goal_cases)
  case (1 loop io h s out)
  obtain x s1 where n: "framed_next io s = (x, s1)" by fastforce
  consider (eof) "x = None" | (bad) e where "x = Some (Err e)" | (ok) f where "x = Some (Ok f)"
    by (metis option.exhaust sum.exhaust)
  then show ?case
  proof cases
    case eof
    with 1(2) n have "out = (Ok (), [], s1)" by simp
    with conn_steps_single [OF finish] show ?thesis by fastforce
  next
    case bad
    with 1(2) n have "out = (Err (ClientError_Codec e), [], s1)" by simp
    with conn_steps_single [OF fail] show ?thesis by fastforce
  next
    case ok
    obtain log where l: "dispatch_frame f h = (Ok (), log)" by (metis dispatch_frame_ok prod.collapse)
    with 1(2) n ok obtain r ev s2 where *: "loop io h s1 = Some (r, ev, s2)"
      "out = (r, (Dispatched f # log) @ ev, s2)"
      by (auto simp: bind_eq_Some_conv)
    have "conn_step auth cid info (Serving h) (Dispatched f # log) (Serving h)"
      using dispatch [of auth cid info h f] l by simp
    from steps_step [OF this] 1(1) [OF *(1)] *(2) show ?thesis by simp
  qed
qed

lemma perform_handshake_steps:
  assumes "perform_handshake io ms (PendingHandshake_new cid) auth info s = (r, ev, s1)"
  shows "case r of
      Err e \<Rightarrow> conn_steps auth cid info Greeting ev (Closed (Err e))
    | Ok h \<Rightarrow> conn_steps auth cid info Greeting (ev @ [Logged (established_line cid)]) (Serving h)
        \<and> completed_client_id h = cid"
proof -
  let ?sent = "[Sent (OutboundMessage_Info info)]"
  have greet: "conn_step auth cid info (Waiting (PendingHandshake_new cid)) ev' q \<Longrightarrow>
      conn_steps auth cid info Greeting (?sent @ ev') q" for ev' q
    by (rule steps_step [OF conn_step.greet]) (rule conn_steps_single)
  have step: "conn_steps auth cid info Greeting ?sent (Closed (Err e))"
    if "conn_step auth cid info (Waiting (PendingHandshake_new cid)) [] (Closed (Err e))" for e
    using greet [OF that] by simp
  have "conn_steps auth cid info Greeting [] (Closed (Err OutboundChannelClosed))"
    by (rule conn_steps_single [OF channel_closed])
  moreover have "conn_steps auth cid info Greeting ?sent (Closed (Err (ClientError_Codec e)))" for e
    by (rule step [OF bad_connect])
  moreover have "conn_steps auth cid info Greeting ?sent (Closed (Err (ClientError_Handshake e)))"
    if "e \<in> {ConnectTimeout, ConnectionClosed}" for e
    by (rule step [OF no_connect [OF that]])
  moreover have "conn_steps auth cid info Greeting ?sent
      (Closed (Err (ClientError_Handshake (AuthenticationFailed r))))" if "auth m = Rejected r" for m r
    by (rule step [OF reject [of auth m, OF that]])
  moreover have "conn_steps auth cid info Greeting (?sent @ [Logged (established_line cid)])
      (Serving \<lparr>completed_client_id = cid, connect_info = m\<rparr>)" if "auth m = Accepted" for m
    using greet [OF accept [of auth m, OF that refl]] by (simp add: established_line_def)
  ultimately show ?thesis
    using assms
    by (auto simp: perform_handshake_def first_item_outcome_def Let_def ClientError_from_send_error_def on_connect_def
        split: prod.splits sum.splits option.splits Frame.splits if_splits AuthOutcome.splits)
qed

lemma Client_run_steps:
  assumes "Client_run io c = Some (r, ev, s)"
  shows "conn_steps (authenticator c) (client_id c) (connection_info (client_id c) (client_config c))
    Greeting ev (Closed r)"
proof -
  let ?info = "connection_info (client_id c) (client_config c)"
  obtain hr ev1 s1 where h: "perform_handshake io (connect_timeout (config_quic (client_config c)))
      (PendingHandshake_new (client_id c)) (authenticator c) ?info (client_io c) = (hr, ev1, s1)"
    by (metis prod_cases3)
  note hs = perform_handshake_steps [OF h]
  show ?thesis
  proof (cases hr)
    case (Inl e)
    with assms h hs show ?thesis by (simp add: Client_run_def)
  next
    case (Inr compl)
    with assms h hs obtain ev2 where
      d: "dispatch_loop io compl s1 = Some (r, ev2, s)"
      and ev: "ev = (ev1 @ [Logged (established_line (client_id c))]) @ ev2"
      by (auto simp: Client_run_def bind_eq_Some_conv established_line_def)
    from hs Inr have "conn_steps (authenticator c) (client_id c) ?info Greeting
        (ev1 @ [Logged (established_line (client_id c))]) (Serving compl)" by simp
    from conn_steps_trans [OF this] dispatch_loop_steps [OF d] show ?thesis unfolding ev by simp
  qed
qed

end
