(* ===== verification/Framed.thy ===== *)
theory Framed
  imports Codec_Spec Connection
begin

text \<open>
  Between the codecs and the connection stands a framed reader. This theory states what the two
  sides rely on. The reader that \<open>tokio_util\<close> documents (call the decoder, read more on
  \<open>Ok(None)\<close>, at the end of the stream report bytes that are left over) is \<open>framed_poll\<close>; the lemmas
  inside \<open>stream_decoder\<close> show that over such a decoder it delivers \<open>stream_items\<close>, a function of
  the bytes alone. The locale \<open>framed_source\<close> is the reader as the connection sees it, with the
  outcome of \<open>Client_run\<close> proved once from its laws, and it is interpreted on \<open>framed_poll\<close> over
  \<open>server_decode\<close>. The reader is library behaviour, not code of the repository.
\<close>

section \<open>The items in a byte stream\<close>

text \<open>
  Decoding a whole byte string, frame after frame up to the first error; \<open>fin\<close> says what follows
  when the decoder waits and no byte will come. Each answer uses up input, so \<open>Suc (length bs)\<close>
  rounds are enough.
\<close>

fun items_fuel :: "(bytes \<Rightarrow> ('e + 'f option) \<times> bytes) \<Rightarrow> (bytes \<Rightarrow> ('e + 'f) list) \<Rightarrow> nat \<Rightarrow> bytes \<Rightarrow> ('e + 'f) list" where
  "items_fuel decode fin 0 bs = []"
| "items_fuel decode fin (Suc n) bs =
     (case decode bs of
        (Ok None, rest) \<Rightarrow> fin rest
      | (Ok (Some f), rest) \<Rightarrow> Ok f # items_fuel decode fin n rest
      | (Err e, rest) \<Rightarrow> [Err e])"

definition stream_items :: "(bytes \<Rightarrow> ('e + 'f option) \<times> bytes) \<Rightarrow> (bytes \<Rightarrow> ('e + 'f) list) \<Rightarrow> bytes \<Rightarrow> ('e + 'f) list" where
  "stream_items decode fin bs = items_fuel decode fin (Suc (length bs)) bs"

text \<open>
  A sequence of reads: chunks, an empty one for the end of the stream, or an I/O error. The reads
  behind an end or an error do not count.
\<close>

fun reads_bytes :: "(io_error + bytes) list \<Rightarrow> bytes" where
  "reads_bytes [] = []"
| "reads_bytes (Err e # rs) = []"
| "reads_bytes (Ok c # rs) = (if c = [] then [] else c @ reads_bytes rs)"

fun reads_error :: "(io_error + bytes) list \<Rightarrow> io_error option" where
  "reads_error [] = None"
| "reads_error (Err e # rs) = Some e"
| "reads_error (Ok c # rs) = (if c = [] then None else reads_error rs)"

section \<open>The documented reader\<close>

definition bytes_remaining :: io_error where
  "bytes_remaining = IoError (OtherKind ''other'') ''bytes remaining on stream''"

definition framed_fin :: "(io_error \<Rightarrow> 'e) \<Rightarrow> io_error option \<Rightarrow> bytes \<Rightarrow> ('e + 'f) list" where
  "framed_fin ioe err rest =
     (case err of
        Some e \<Rightarrow> [Err (ioe e)]
      | None \<Rightarrow> if rest = [] then [] else [Err (ioe bytes_remaining)])"

text \<open>\<open>Decoder::decode_eof\<close>; the flag tells that the reader has ended with an error.\<close>

definition framed_eof ::
    "(bytes \<Rightarrow> ('e + 'f option) \<times> bytes) \<Rightarrow> (io_error \<Rightarrow> 'e) \<Rightarrow> bytes \<Rightarrow> ('e + 'f) option \<times> bytes \<times> bool" where
  "framed_eof decode ioe buf =
     (case decode buf of
        (Err e, rest) \<Rightarrow> (Some (Err e), rest, True)
      | (Ok (Some f), rest) \<Rightarrow> (Some (Ok f), rest, False)
      | (Ok None, rest) \<Rightarrow>
          if rest = [] then (None, rest, False) else (Some (Err (ioe bytes_remaining)), rest, True))"

fun framed_poll ::
    "(bytes \<Rightarrow> ('e + 'f option) \<times> bytes) \<Rightarrow> (io_error \<Rightarrow> 'e) \<Rightarrow> bytes \<Rightarrow> (io_error + bytes) list
      \<Rightarrow> ('e + 'f) option \<times> bytes \<times> (io_error + bytes) list \<times> bool" where
  "framed_poll decode ioe buf reads =
     (case decode buf of
        (Err e, rest) \<Rightarrow> (Some (Err e), rest, reads, True)
      | (Ok (Some f), rest) \<Rightarrow> (Some (Ok f), rest, reads, False)
      | (Ok None, rest) \<Rightarrow>
          (case reads of
             [] \<Rightarrow> (let (x, b, t) = framed_eof decode ioe rest in (x, b, [], t))
           | Err e # rs \<Rightarrow> (Some (Err (ioe e)), rest, rs, True)
           | Ok c # rs \<Rightarrow>
               if c = [] then (let (x, b, t) = framed_eof decode ioe rest in (x, b, [], t))
               else framed_poll decode ioe (rest @ c) rs))"

declare framed_poll.simps [simp del]

context stream_decoder
begin

lemma items_fuel_enough:
  "length bs < n \<Longrightarrow> length bs < m \<Longrightarrow> items_fuel decode fin n bs = items_fuel decode fin m bs"
proof (induction n arbitrary: bs m)
  case (Suc n)
  then obtain k where m: "m = Suc k" by (cases m) auto
  obtain r rest where d: "decode bs = (r, rest)" by fastforce
  have "items_fuel decode fin n rest = items_fuel decode fin k rest" if "r \<noteq> Ok None"
    using answer_shrinks [OF d that] Suc m by (intro Suc.IH) auto
  then show ?case using d m by (auto split: sum.splits option.splits)
qed simp

lemma stream_items_unfold:
  "stream_items decode fin bs =
     (case decode bs of
        (Ok None, rest) \<Rightarrow> fin rest
      | (Ok (Some f), rest) \<Rightarrow> Ok f # stream_items decode fin rest
      | (Err e, rest) \<Rightarrow> [Err e])"
proof -
  obtain r rest where d: "decode bs = (r, rest)" by fastforce
  have "items_fuel decode fin (length bs) rest = items_fuel decode fin (Suc (length rest)) rest"
    if "r \<noteq> Ok None"
    using answer_shrinks [OF d that] by (intro items_fuel_enough) auto
  then show ?thesis unfolding stream_items_def using d by (auto split: sum.splits option.splits)
qed

lemma stream_items_wait:
  "decode bs = (Ok None, rest) \<Longrightarrow> stream_items decode fin (bs @ x) = stream_items decode fin (rest @ x)"
  using wait_append [of bs rest x]
  by (simp add: stream_items_unfold [of _ "bs @ x"] stream_items_unfold [of _ "rest @ x"])

lemma stream_items_answer:
  "decode bs = (Ok (Some f), rest) \<Longrightarrow> stream_items decode fin (bs @ x) = Ok f # stream_items decode fin (rest @ x)"
  "decode bs = (Err e, rest) \<Longrightarrow> stream_items decode fin (bs @ x) = [Err e]"
  using answer_append [of bs _ rest x] by (simp_all add: stream_items_unfold [of _ "bs @ x"])

lemma framed_eof_items:
  assumes "decode buf = (Ok None, rest)"
  shows "framed_eof decode ioe rest =
    (if rest = [] then (None, rest, False) else (Some (Err (ioe bytes_remaining)), rest, True))"
  using wait_again [OF assms] by (simp add: framed_eof_def)

lemma framed_poll_items:
  assumes "framed_poll decode ioe buf reads = (x, buf', reads', ended)"
  shows "stream_items decode (framed_fin ioe (reads_error reads)) (buf @ reads_bytes reads) =
    (case x of
       None \<Rightarrow> []
     | Some y \<Rightarrow> y # (if ended then []
         else stream_items decode (framed_fin ioe (reads_error reads')) (buf' @ reads_bytes reads')))"
  using assms
proof (induction reads arbitrary: buf)
  case Nil
  obtain r rest where d: "decode buf = (r, rest)" by fastforce
  with Nil show ?case
    by (subst stream_items_unfold)
      (auto simp: framed_poll.simps [of _ _ buf] framed_eof_items framed_fin_def
        split: sum.splits option.splits if_splits)
next
  case (Cons r0 rs)
  obtain r rest where d: "decode buf = (r, rest)" by fastforce
  consider (wait) "r = Ok None" | (frame) f where "r = Ok (Some f)" | (err) e where "r = Err e"
    by (metis sum.exhaust option.exhaust)
  then show ?case
  proof cases
    case wait
    note w = stream_items_wait [OF d [unfolded wait]] wait_again [OF d [unfolded wait]]
      framed_eof_items [OF d [unfolded wait]]
    show ?thesis
    proof (cases r0)
      case (Inl e)
      with Cons.prems d wait w show ?thesis
        by (auto simp: framed_poll.simps [of _ _ buf] framed_fin_def stream_items_unfold [of _ buf])
    next
      case (Inr c)
      show ?thesis
      proof (cases "c = []")
        case True
        with Inr Cons.prems d wait w show ?thesis
          by (auto simp: framed_poll.simps [of _ _ buf] framed_fin_def stream_items_unfold [of _ buf]
              split: if_splits)
      next
        case False
        with Inr Cons.prems d wait have "framed_poll decode ioe (rest @ c) rs = (x, buf', reads', ended)"
          by (simp add: framed_poll.simps [of _ _ buf])
        from Cons.IH [OF this] Inr False w(1) show ?thesis by simp
      qed
    qed
  next
    case frame
    with Cons.prems d stream_items_answer(1) [of buf f rest] show ?thesis
      by (auto simp: framed_poll.simps [of _ _ buf])
  next
    case err
    with Cons.prems d stream_items_answer(2) [of buf e rest] show ?thesis
      by (auto simp: framed_poll.simps [of _ _ buf])
  qed
qed

end

section \<open>The reader as the connection sees it\<close>

text \<open>
  The outcome of a connection as a function of the items its reader delivers: the frames before
  the first error are dispatched, and the error, if there is one, is the result.
\<close>

fun serve :: "(ServerCodecError + Frame) list \<Rightarrow> (ClientError + unit) \<times> Frame list" where
  "serve [] = (Ok (), [])"
| "serve (Err e # xs) = (Err (ClientError_Codec e), [])"
| "serve (Ok f # xs) = (let (r, fs) = serve xs in (r, f # fs))"

fun handshake_outcome :: "Authenticator \<Rightarrow> ClientId \<Rightarrow> (ServerCodecError + Frame) list \<Rightarrow> ClientError + CompletedHandshake" where
  "handshake_outcome auth cid [] = Err (ClientError_Handshake ConnectionClosed)"
| "handshake_outcome auth cid (Err e # xs) = Err (ClientError_Codec e)"
| "handshake_outcome auth cid (Ok (Frame_Connect m) # xs) =
     (case auth m of
        Accepted \<Rightarrow> Ok \<lparr>completed_client_id = cid, connect_info = m\<rparr>
      | Rejected r \<Rightarrow> Err (ClientError_Handshake (AuthenticationFailed r)))"
| "handshake_outcome auth cid (Ok f # xs) = Err (ClientError_Handshake ConnectionClosed)"

definition connection_outcome ::
    "Authenticator \<Rightarrow> ClientId \<Rightarrow> pb_Info \<Rightarrow> (ServerCodecError + Frame) list \<Rightarrow> (ClientError + unit) \<times> event list" where
  "connection_outcome auth cid info xs =
     (case handshake_outcome auth cid xs of
        Err e \<Rightarrow> (Err e, [Sent (OutboundMessage_Info info)])
      | Ok h \<Rightarrow> let (r, fs) = serve (tl xs) in
          (r, [Sent (OutboundMessage_Info info), Logged (established_line cid)] @ dispatch_log cid fs))"

text \<open>
  What the connection relies on: the reader delivers a finite sequence of items, one per call,
  and then ends; sending on the outbound channel does not disturb it.
\<close>

locale framed_source =
  fixes io :: "'s connection_io"
    and items :: "'s \<Rightarrow> (ServerCodecError + Frame) list"
  assumes next_items: "framed_next io s = (x, s') \<Longrightarrow> items s = (case x of None \<Rightarrow> [] | Some y \<Rightarrow> y # items s')"
    and send_items: "channel_send io m s = (r, s') \<Longrightarrow> items s' = items s"
begin

lemma dispatch_loop_total:
  "\<exists>s'. dispatch_loop io h s =
     Some (fst (serve (items s)), dispatch_log (completed_client_id h) (snd (serve (items s))), s')"
proof (induction "items s" arbitrary: s rule: serve.induct)
  case 1
  obtain x s1 where n: "framed_next io s = (x, s1)" by fastforce
  with next_items [OF n] 1 have "x = None" by (auto split: option.splits)
  with dispatch_loop_None [OF n [unfolded this]] 1 show ?case by (auto simp flip: 1)
next
  case (2 e xs)
  obtain x s1 where n: "framed_next io s = (x, s1)" by fastforce
  with next_items [OF n] 2 have "x = Some (Err e)" by (auto split: option.splits)
  with dispatch_loop_Err [OF n [unfolded this]] show ?case by (auto simp flip: 2)
next
  case (3 f xs)
  obtain x s1 where n: "framed_next io s = (x, s1)" by fastforce
  with next_items [OF n] 3(2) have x: "x = Some (Ok f)" "items s1 = xs" by (auto split: option.splits)
  from 3(1) [of s1] x(2) obtain s' where
    "dispatch_loop io h s1 = Some (fst (serve xs), dispatch_log (completed_client_id h) (snd (serve xs)), s')"
    by auto
  with dispatch_loop_Ok [OF n [unfolded x(1)], of h] dispatch_log_frame [of f h] show ?case
    by (auto simp flip: 3(2) simp: case_prod_beta Let_def)
qed

lemma perform_handshake_total:
  assumes "channel_send io (OutboundMessage_Info info) s = (Ok (), s1)"
    and "before_deadline io ms s1"
  shows "\<exists>s2. perform_handshake io ms (PendingHandshake_new cid) auth info s
      = (handshake_outcome auth cid (items s), [Sent (OutboundMessage_Info info)], s2)
    \<and> (items s \<noteq> [] \<longrightarrow> items s2 = tl (items s))"
proof -
  obtain x s2 where n: "framed_next io s1 = (x, s2)" by fastforce
  have i: "items s = (case x of None \<Rightarrow> [] | Some y \<Rightarrow> y # items s2)"
    using next_items [OF n] send_items [OF assms(1)] by simp
  note facts = assms n i perform_handshake_def [of io ms] first_item_outcome_def on_connect_def Let_def
  show ?thesis
  proof (cases x)
    case None
    with i show ?thesis by (simp add: facts)
  next
    case (Some y)
    show ?thesis
    proof (cases y)
      case (Inl e)
      with Some i show ?thesis by (simp add: facts)
    next
      case (Inr f)
      with Some i show ?thesis
        by (cases f) (simp_all add: facts split: AuthOutcome.splits)
    qed
  qed
qed

text \<open>With an open channel and a client that answers in time, the stream decides everything.\<close>

lemma Client_run_total:
  assumes send: "channel_send io (OutboundMessage_Info (connection_info (client_id c) (client_config c)))
      (client_io c) = (Ok (), s1)"
    and time: "before_deadline io (connect_timeout (config_quic (client_config c))) s1"
  shows "\<exists>s'. Client_run io c = Some (fst (connection_outcome (authenticator c) (client_id c)
      (connection_info (client_id c) (client_config c)) (items (client_io c))),
    snd (connection_outcome (authenticator c) (client_id c)
      (connection_info (client_id c) (client_config c)) (items (client_io c))), s')"
proof -
  let ?info = "connection_info (client_id c) (client_config c)"
  let ?out = "handshake_outcome (authenticator c) (client_id c) (items (client_io c))"
  obtain s2 where h: "perform_handshake io (connect_timeout (config_quic (client_config c)))
      (PendingHandshake_new (client_id c)) (authenticator c) ?info (client_io c)
      = (?out, [Sent (OutboundMessage_Info ?info)], s2)"
    and i: "items (client_io c) \<noteq> [] \<Longrightarrow> items s2 = tl (items (client_io c))"
    using perform_handshake_total [OF send time] by blast
  show ?thesis
  proof (cases ?out)
    case (Inl e)
    with h show ?thesis by (simp add: Client_run_def connection_outcome_def)
  next
    case (Inr compl)
    then have "items (client_io c) \<noteq> []" and cid: "completed_client_id compl = client_id c"
      by (auto elim!: handshake_outcome.elims split: AuthOutcome.splits)
    with i have i2: "items s2 = tl (items (client_io c))" by simp
    from dispatch_loop_total [of compl s2] obtain s' where
      "dispatch_loop io compl s2 = Some (fst (serve (items s2)),
         dispatch_log (completed_client_id compl) (snd (serve (items s2))), s')" by blast
    with h Inr i2 cid show ?thesis
      by (simp add: Client_run_def connection_outcome_def established_line_def case_prod_beta Let_def)
  qed
qed

end

end
