(* ===== verification/Session.thy ===== *)
theory Session
  imports Framed
begin

text \<open>
  The two ends of a connection put together. \<open>tokio_connection\<close> and \<open>tokio_writer\<close> are the
  documented runtime as instances of the interfaces of \<open>Client\<close>: a framed reader over
  \<open>server_decode\<close>, a FIFO channel, and a framed writer over \<open>server_encode\<close>. They interpret
  \<open>framed_source\<close> and \<open>outbound_queue\<close>. \<open>read_next_client_frame\<close> is the reading loop of the
  client in \<open>crates/server/tests/protocol.rs\<close>.
\<close>

section \<open>The reading task on the documented runtime\<close>

record tokio_state =
  tk_buffer :: bytes
  tk_reads :: "(io_error + bytes) list"
  tk_ended :: bool
  tk_queue :: "OutboundMessage list"
  tk_receiver_alive :: bool
  tk_latency_ms :: nat

definition tokio_next :: "prost \<Rightarrow> tokio_state \<Rightarrow> (ServerCodecError + Frame) option \<times> tokio_state" where
  "tokio_next P s =
     (if tk_ended s then (None, s)
      else let (x, buf, reads, ended) =
             framed_poll (server_decode P) ServerCodecError_Io (tk_buffer s) (tk_reads s)
           in (x, s\<lparr>tk_buffer := buf, tk_reads := reads, tk_ended := ended \<or> x = None\<rparr>))"

definition tokio_send :: "OutboundMessage \<Rightarrow> tokio_state \<Rightarrow> (OutboundMessage + unit) \<times> tokio_state" where
  "tokio_send m s =
     (if tk_receiver_alive s then (Ok (), s\<lparr>tk_queue := tk_queue s @ [m]\<rparr>) else (Err m, s))"

definition tokio_connection :: "prost \<Rightarrow> tokio_state connection_io" where
  "tokio_connection P =
     \<lparr>framed_next = tokio_next P, channel_send = tokio_send,
      before_deadline = (\<lambda>ms s. tk_latency_ms s < unat ms)\<rparr>"

definition tokio_items :: "prost \<Rightarrow> tokio_state \<Rightarrow> (ServerCodecError + Frame) list" where
  "tokio_items P s =
     (if tk_ended s then []
      else stream_items (server_decode P) (framed_fin ServerCodecError_Io (reads_error (tk_reads s)))
             (tk_buffer s @ reads_bytes (tk_reads s)))"

interpretation tokio: framed_source "tokio_connection P" "tokio_items P" for P
proof (unfold_locales, goal_cases)
  case (1 s x s')
  show ?case
  proof (cases "tk_ended s")
    case True
    with 1 show ?thesis by (auto simp: tokio_connection_def tokio_next_def tokio_items_def)
  next
    case False
    obtain y buf reads ended where p:
      "framed_poll (server_decode P) ServerCodecError_Io (tk_buffer s) (tk_reads s) = (y, buf, reads, ended)"
      by (metis prod_cases4)
    with 1 False server_stream.framed_poll_items [OF p] show ?thesis
      by (auto simp: tokio_connection_def tokio_next_def tokio_items_def split: option.splits)
  qed
next
  case (2 m s r s')
  then show ?case
    by (auto simp: tokio_connection_def tokio_send_def tokio_items_def split: if_splits)
qed

section \<open>The writer task\<close>

definition outbound_bytes :: "(pb_Info \<Rightarrow> bytes) \<Rightarrow> OutboundMessage list \<Rightarrow> bytes" where
  "outbound_bytes frame_of ms =
     concat [frame_of i. OutboundMessage_Info i \<leftarrow> ms]"

lemma outbound_bytes_simps [simp]:
  "outbound_bytes fr [] = []"
  "outbound_bytes fr (OutboundMessage_Info i # ms) = fr i @ outbound_bytes fr ms"
  "outbound_bytes fr (OutboundMessage_Message m # ms) = outbound_bytes fr ms"
  "outbound_bytes fr (ms @ ms') = outbound_bytes fr ms @ outbound_bytes fr ms'"
  by (simp_all add: outbound_bytes_def)

text \<open>
  What the writer task relies on, in two steps. A \<open>channel_writer\<close> has a channel that hands out the queued
  messages in order, and an \<open>effect\<close> that each call has on the framed writer, whether it succeeds or
  not; the effects of calls in sequence compose. Then the task ends, with the channel empty and the
  composed effect of all messages. \<open>settled\<close> is what a flush establishes and a receive keeps.
\<close>

locale channel_writer =
  fixes io :: "'w writer_io"
    and queued :: "'w \<Rightarrow> OutboundMessage list"
    and effect :: "'w \<Rightarrow> OutboundMessage list \<Rightarrow> 'w \<Rightarrow> bool"
    and settled :: "'w \<Rightarrow> bool"
  assumes recv_effect: "receiver_recv io w = (x, w') \<Longrightarrow>
      (case x of None \<Rightarrow> queued w = [] \<and> queued w' = [] | Some m \<Rightarrow> queued w = m # queued w')
      \<and> effect w [] w' \<and> (settled w \<longrightarrow> settled w')"
    and try_recv_effect: "receiver_try_recv io w = (y, w') \<Longrightarrow>
      (case y of Err u \<Rightarrow> queued w' = queued w | Ok m \<Rightarrow> queued w = m # queued w') \<and> effect w [] w'"
    and dispatch_effect: "dispatch_outbound io m w = (r, w') \<Longrightarrow> queued w' = queued w \<and> effect w [m] w'"
    and flush_effect: "framed_flush io w = (r, w') \<Longrightarrow> queued w' = queued w \<and> effect w [] w' \<and> settled w'"
    and effect_none: "effect w [] w"
    and effect_append: "effect u ms v \<Longrightarrow> effect v ns w \<Longrightarrow> effect u (ms @ ns) w"
begin

lemma effect_Cons: "effect u [] v \<Longrightarrow> effect v [m] w \<Longrightarrow> effect w ns x \<Longrightarrow> effect u (m # ns) x"
  using effect_append [of u "[]" v "[m]" w] effect_append [of u "[m]" w ns x] by simp

lemma drain_queued_effect:
  "\<exists>w' ms. drain_queued io w = Some w' \<and> queued w = ms @ queued w' \<and> effect w ms w'"
proof (induction "length (queued w)" arbitrary: w rule: less_induct)
  case less
  obtain y w1 where t: "receiver_try_recv io w = (y, w1)" by fastforce
  note law = try_recv_effect [OF t]
  show ?case
  proof (cases y)
    case (Inl u)
    with t law show ?thesis by (subst drain_queued.simps) auto
  next
    case (Inr m)
    obtain r w2 where d: "dispatch_outbound io m w1 = (r, w2)" by fastforce
    note dl = dispatch_effect [OF d]
    from Inr law dl have "length (queued w2) < length (queued w)" by simp
    from less [OF this] obtain w' ms where
      "drain_queued io w2 = Some w'" "queued w2 = ms @ queued w'" "effect w2 ms w'" by blast
    then show ?thesis
      using Inr t law dl d effect_Cons by (subst drain_queued.simps) (auto intro!: exI [of _ "m # ms"])
  qed
qed

lemma run_outbound_writer_effect:
  "\<exists>w'. run_outbound_writer io w = Some w' \<and> queued w' = [] \<and> effect w (queued w) w'
     \<and> (settled w \<longrightarrow> settled w')"
proof (induction "length (queued w)" arbitrary: w rule: less_induct)
  case less
  obtain x w1 where t: "receiver_recv io w = (x, w1)" by fastforce
  note law = recv_effect [OF t]
  show ?case
  proof (cases x)
    case None
    with t law show ?thesis by (subst run_outbound_writer.simps) auto
  next
    case (Some m)
    obtain r w2 where d: "dispatch_outbound io m w1 = (r, w2)" by fastforce
    note dl = dispatch_effect [OF d]
    obtain w3 ms where q: "drain_queued io w2 = Some w3" "queued w2 = ms @ queued w3" "effect w2 ms w3"
      using drain_queued_effect [of w2] by blast
    obtain r4 w4 where f: "framed_flush io w3 = (r4, w4)" by fastforce
    note fl = flush_effect [OF f]
    have eq: "queued w = m # ms @ queued w4" using Some law dl q(2) fl by simp
    then have "length (queued w4) < length (queued w)" by simp
    from less [OF this] fl obtain w' where w': "run_outbound_writer io w4 = Some w'" "queued w' = []" "settled w'"
      "effect w4 (queued w4) w'" by blast
    have "effect w3 (queued w4) w'" using effect_append [of w3 "[]" w4 "queued w4" w'] fl w'(4) by simp
    then have "effect w (queued w) w'"
      unfolding eq using effect_Cons [of w w1 m w2] effect_append [OF q(3)] law dl by blast
    then show ?thesis
      using Some t d q(1) f w'(1-3) by (subst run_outbound_writer.simps) simp
  qed
qed

end

text \<open>
  An \<open>outbound_queue\<close> is the case without failures of the transport: the framed writer accepts the
  bytes of a message (or nothing, when encoding fails) at the end of what it has accepted so far, and a
  flush leaves nothing in its buffer.
\<close>

locale outbound_queue =
  fixes io :: "'w writer_io"
    and queued :: "'w \<Rightarrow> OutboundMessage list"
    and fed :: "'w \<Rightarrow> bytes"
    and unflushed :: "'w \<Rightarrow> bytes"
    and frame_of :: "pb_Info \<Rightarrow> bytes"
  assumes recv_law: "receiver_recv io w = (x, w') \<Longrightarrow>
      (case x of None \<Rightarrow> queued w = [] \<and> queued w' = [] | Some m \<Rightarrow> queued w = m # queued w')
      \<and> fed w' = fed w \<and> unflushed w' = unflushed w"
    and try_recv_law: "receiver_try_recv io w = (y, w') \<Longrightarrow>
      (case y of Err u \<Rightarrow> queued w' = queued w | Ok m \<Rightarrow> queued w = m # queued w')
      \<and> fed w' = fed w \<and> unflushed w' = unflushed w"
    and feed_law: "framed_feed io i w = (r, w') \<Longrightarrow> queued w' = queued w \<and> fed w' = fed w @ frame_of i"
    and flush_law: "framed_flush io w = (r, w') \<Longrightarrow> queued w' = queued w \<and> fed w' = fed w \<and> unflushed w' = []"
begin

lemma dispatch_outbound_law:
  "dispatch_outbound io m w = (r, w') \<Longrightarrow> queued w' = queued w \<and> fed w' = fed w @ outbound_bytes frame_of [m]"
  using feed_law by (cases m) (auto simp: dispatch_outbound_def)

end

sublocale outbound_queue \<subseteq> channel_writer io queued "\<lambda>w ms w'. fed w' = fed w @ outbound_bytes frame_of ms"
    "\<lambda>w. unflushed w = []"
proof (unfold_locales, goal_cases)
  case (1 w x w')
  then show ?case using recv_law by (auto split: option.splits)
next
  case (2 w y w')
  then show ?case using try_recv_law by (auto split: sum.splits)
next
  case (3 m w r w')
  then show ?case by (rule dispatch_outbound_law)
next
  case (4 w r w')
  then show ?case using flush_law by simp
qed simp_all

context outbound_queue
begin

lemma run_outbound_writer_total:
  "\<exists>w'. run_outbound_writer io w = Some w' \<and> queued w' = []
     \<and> fed w' = fed w @ outbound_bytes frame_of (queued w) \<and> (unflushed w = [] \<longrightarrow> unflushed w' = [])"
  by (rule run_outbound_writer_effect)

lemma is_channel_writer:
  "channel_writer io queued (\<lambda>w ms w'. fed w' = fed w @ outbound_bytes frame_of ms) (\<lambda>w. unflushed w = [])"
  by unfold_locales

end

section \<open>The writer task on the documented runtime\<close>

text \<open>
  The first of \<open>wr_arrivals\<close> is what the channel holds now; the others arrive later, batch by
  batch, before the sender is dropped. Feeding flushes first when the buffer has reached
  \<open>boundary\<close> bytes.
\<close>

record writer_state =
  wr_arrivals :: "OutboundMessage list list"
  wr_buffer :: bytes
  wr_wire :: bytes

fun next_arrival :: "OutboundMessage list list \<Rightarrow> OutboundMessage option \<times> OutboundMessage list list" where
  "next_arrival [] = (None, [])"
| "next_arrival ([] # bs) = next_arrival bs"
| "next_arrival ((m # ms) # bs) = (Some m, ms # bs)"

definition tokio_recv :: "'z writer_state_scheme \<Rightarrow> OutboundMessage option \<times> 'z writer_state_scheme" where
  "tokio_recv w = (let (x, bs) = next_arrival (wr_arrivals w) in (x, w\<lparr>wr_arrivals := bs\<rparr>))"

definition tokio_try_recv :: "'z writer_state_scheme \<Rightarrow> (unit + OutboundMessage) \<times> 'z writer_state_scheme" where
  "tokio_try_recv w =
     (case wr_arrivals w of
        (m # ms) # bs \<Rightarrow> (Ok m, w\<lparr>wr_arrivals := ms # bs\<rparr>)
      | _ \<Rightarrow> (Err (), w))"

definition tokio_flush :: "writer_state \<Rightarrow> (ServerCodecError + unit) \<times> writer_state" where
  "tokio_flush w = (Ok (), w\<lparr>wr_buffer := [], wr_wire := wr_wire w @ wr_buffer w\<rparr>)"

definition tokio_feed :: "prost \<Rightarrow> nat \<Rightarrow> pb_Info \<Rightarrow> writer_state \<Rightarrow> (ServerCodecError + unit) \<times> writer_state" where
  "tokio_feed P boundary i w =
     (let w1 = (if boundary \<le> length (wr_buffer w) then snd (tokio_flush w) else w);
          (r, buf) = server_encode (Info_codec P) i (wr_buffer w1)
      in (r, w1\<lparr>wr_buffer := buf\<rparr>))"

definition tokio_writer :: "prost \<Rightarrow> nat \<Rightarrow> writer_state writer_io" where
  "tokio_writer P boundary =
     \<lparr>receiver_recv = tokio_recv, receiver_try_recv = tokio_try_recv,
      framed_feed = tokio_feed P boundary, framed_flush = tokio_flush\<rparr>"

definition info_frame :: "prost \<Rightarrow> pb_Info \<Rightarrow> bytes" where
  "info_frame P i = snd (server_encode (Info_codec P) i [])"

lemma server_encode_appends: "snd (server_encode C m out) = out @ snd (server_encode C m [])"
  by (simp add: server_encode_def split: sum.splits)

lemma next_arrival_concat:
  "next_arrival bs = (x, bs') \<Longrightarrow>
     (case x of None \<Rightarrow> concat bs = [] \<and> concat bs' = [] | Some m \<Rightarrow> concat bs = m # concat bs')"
  by (induction bs rule: next_arrival.induct) (auto split: option.splits)

lemma tokio_recv_law:
  assumes "tokio_recv w = (x, w')"
  shows "(case x of None \<Rightarrow> concat (wr_arrivals w) = [] \<and> concat (wr_arrivals w') = []
      | Some m \<Rightarrow> concat (wr_arrivals w) = m # concat (wr_arrivals w'))
    \<and> wr_wire w' = wr_wire w \<and> wr_buffer w' = wr_buffer w"
  using assms next_arrival_concat [of "wr_arrivals w"]
  by (auto simp: tokio_recv_def split: prod.splits option.splits)

lemma tokio_try_recv_law:
  "tokio_try_recv w = (y, w') \<Longrightarrow>
     (case y of Err u \<Rightarrow> concat (wr_arrivals w') = concat (wr_arrivals w)
      | Ok m \<Rightarrow> concat (wr_arrivals w) = m # concat (wr_arrivals w'))
     \<and> wr_wire w' = wr_wire w \<and> wr_buffer w' = wr_buffer w"
  by (auto simp: tokio_try_recv_def split: list.splits)

interpretation tokio_out: outbound_queue "tokio_writer P boundary" "\<lambda>w. concat (wr_arrivals w)"
    "\<lambda>w. wr_wire w @ wr_buffer w" wr_buffer "info_frame P" for P boundary
proof (unfold_locales, goal_cases)
  case (1 w x w')
  then show ?case using tokio_recv_law [of w] by (simp add: tokio_writer_def)
next
  case (2 w y w')
  then show ?case using tokio_try_recv_law [of w] by (simp add: tokio_writer_def)
next
  case (3 i w r w')
  then show ?case
    using server_encode_appends [of "Info_codec P" i "wr_buffer w"]
    by (auto simp: tokio_writer_def tokio_feed_def tokio_flush_def info_frame_def Let_def
        split: prod.splits if_splits)
next
  case (4 w r w')
  then show ?case by (auto simp: tokio_writer_def tokio_flush_def)
qed

section \<open>The client's reading loop\<close>

fun read_next_client_frame ::
    "prost \<Rightarrow> (io_error + bytes) list \<Rightarrow> bytes
      \<Rightarrow> (ClientCodecError + ClientFrame option) \<times> bytes \<times> (io_error + bytes) list" where
  "read_next_client_frame P receive_stream incoming_bytes =
     (case client_decode P incoming_bytes of
        (Err e, incoming1) \<Rightarrow> (Err e, incoming1, receive_stream)
      | (Ok (Some frame), incoming1) \<Rightarrow> (Ok (Some frame), incoming1, receive_stream)
      | (Ok None, incoming1) \<Rightarrow>
          (case receive_stream of
             [] \<Rightarrow> (Ok None, incoming1, [])
           | Err e # rs \<Rightarrow> (Err (ClientCodecError_Io e), incoming1, rs)
           | Ok chunk # rs \<Rightarrow>
               if length chunk = 0 then (Ok None, incoming1, rs)
               else read_next_client_frame P rs (incoming1 @ chunk)))"

declare read_next_client_frame.simps [simp del]

text \<open>Reading chunk by chunk gives what decoding everything at once gives.\<close>

lemma read_next_client_frame_decodes:
  "client_decode P (buf @ reads_bytes rs) = (Ok (Some f), rest) \<Longrightarrow>
     \<exists>buf' rs'. read_next_client_frame P rs buf = (Ok (Some f), buf', rs') \<and> buf' @ reads_bytes rs' = rest"
proof (induction rs arbitrary: buf)
  case Nil
  then show ?case by (simp add: read_next_client_frame.simps)
next
  case (Cons r rs)
  obtain a buf1 where d: "client_decode P buf = (a, buf1)" by fastforce
  show ?case
  proof (cases "a = Ok None")
    case False
    from client_stream.answer_append [OF d False] Cons.prems
    have "a = Ok (Some f)" "rest = buf1 @ reads_bytes (r # rs)" by auto
    with d show ?thesis by (simp add: read_next_client_frame.simps)
  next
    case True
    note w = client_stream.wait_append [OF d [unfolded True]]
    have "\<exists>c. r = Ok c \<and> c \<noteq> []"
      using Cons.prems d True by (cases r) (auto split: if_splits)
    then obtain c where c: "r = Ok c" "c \<noteq> []" by blast
    with Cons.prems w [of "c @ reads_bytes rs"]
    have "client_decode P ((buf1 @ c) @ reads_bytes rs) = (Ok (Some f), rest)" by simp
    from Cons.IH [OF this] d True c show ?thesis
      by (simp add: read_next_client_frame.simps [of P "Ok c # rs"])
  qed
qed

end
