(* ===== verification/Session_Properties.thy ===== *)
theory Session_Properties
  imports Session Codec_Properties
begin

text \<open>
  Properties of connections: the order the handshake enforces, the result of a connection as a
  function of the bytes it reads, what the writer task puts on the wire, and the two ends talking
  to each other. The first group holds for every runtime; the others are stated on the documented
  runtime of \<open>Session\<close>.
\<close>

section \<open>Sending a sequence of frames\<close>

text \<open>A client that encodes one frame after the other into its output buffer.\<close>

fun client_send_all :: "prost \<Rightarrow> Frame list \<Rightarrow> bytes \<Rightarrow> (ClientCodecError + unit) \<times> bytes" where
  "client_send_all P [] out = (Ok (), out)"
| "client_send_all P (f # fs) out =
     (case client_encode_frame P f out of
        (Err e, out1) \<Rightarrow> (Err e, out1)
      | (Ok _, out1) \<Rightarrow> client_send_all P fs out1)"

definition deliverable :: "prost \<Rightarrow> Frame \<Rightarrow> bool" where
  "deliverable P f \<longleftrightarrow> (\<exists>payload. frame_law P f payload \<and> length payload \<le> MAXIMUM_PAYLOAD_BYTES)"

lemma deliverable_bytes:
  assumes "deliverable P f"
  obtains w where "\<And>out. client_encode_frame P f out = (Ok (), out @ w)"
    and "\<And>rest. server_decode P (w @ rest) = (Ok (Some f), rest)"
  using assms client_encode_frame_bytes server_decode_frame max_payload_u32
  unfolding deliverable_def by metis

lemma server_decode_Nil [simp]: "server_decode P [] = (Ok None, [])"
  by (simp add: server_decode.simps parse_header_def)

lemma client_send_all_ok:
  assumes "\<forall>f \<in> set fs. deliverable P f"
  shows "\<exists>w. (\<forall>out. client_send_all P fs out = (Ok (), out @ w))
    \<and> (\<forall>rest fin. stream_items (server_decode P) fin (w @ rest)
        = map Ok fs @ stream_items (server_decode P) fin rest)"
  using assms
proof (induction fs)
  case (Cons f fs)
  from Cons.prems have "deliverable P f" by simp
  then obtain v where v: "\<And>out. client_encode_frame P f out = (Ok (), out @ v)"
    "\<And>rest. server_decode P (v @ rest) = (Ok (Some f), rest)" by (rule deliverable_bytes) blast
  from Cons obtain w where w: "\<And>out. client_send_all P fs out = (Ok (), out @ w)"
    "\<And>rest fin. stream_items (server_decode P) fin (w @ rest)
        = map Ok fs @ stream_items (server_decode P) fin rest" by auto
  have "stream_items (server_decode P) fin ((v @ w) @ rest)
      = Ok f # map Ok fs @ stream_items (server_decode P) fin rest" for rest fin
    using v(2) [of "w @ rest"] w(2) by (subst server_stream.stream_items_unfold) simp
  with v w show ?case by (intro exI [of _ "v @ w"]) simp
qed simp

lemma serve_map_Ok: "serve (map Ok fs) = (Ok (), fs)"
  by (induction fs) auto

section \<open>What a run hands to the channel\<close>

lemma Client_run_sent_info:
  assumes "Client_run io c = Some (r, ev, s)" and "r \<noteq> Err OutboundChannelClosed"
  shows "[m. Sent m \<leftarrow> ev] = [OutboundMessage_Info (connection_info (client_id c) (client_config c))]"
  using reachable_phase_inv [OF Client_run_steps [OF assms(1)]] assms(2)
  by (auto simp: served_def dispatch_log_sent split: sum.splits ClientError.splits)

section \<open>Examples\<close>

text \<open>The CONNECT message of the client builder, and its bytes in the wire format.\<close>

lemma connect_law:
  "frame_law wire_prost (Frame_Connect (ClientOutbound_connect 1 False)) [0x08, 0x01]"
proof -
  have e: "Connect_encode wire_prost (ClientOutbound_connect 1 False) = Ok [0x08, 0x01]"
    by (simp add: wire_prost_def wire_encode_def Connect_fields_def Credentials_fields_def opt_defs ClientOutbound_connect_def
        encode_fields_def encode_varint.simps)
  then show ?thesis
    using wire_Connect.encoded_decodes [OF _ e] by (simp add: Connect_valid_def credentials_ok_def ClientOutbound_connect_def)
qed

definition sample_reads :: "(io_error + bytes) list" where
  "sample_reads = [Ok [0x01, 0, 0], Ok [0, 2, 0x08], Ok [0x01, 0x04, 0, 0, 0, 2, 0x10, 0x2A]]"

definition sample_state :: tokio_state where
  "sample_state = \<lparr>tk_buffer = [], tk_reads = sample_reads, tk_ended = False, tk_queue = [],
     tk_receiver_alive = True, tk_latency_ms = 5\<rparr>"

definition sample_client :: "tokio_state Client" where
  "sample_client = \<lparr>client_id = ClientId 7, client_io = sample_state,
     authenticator = NoAuthAuthenticator, client_config = ServerConfig_new\<rparr>"

abbreviation client_info :: "'s Client \<Rightarrow> pb_Info" where
  "client_info c \<equiv> connection_info (client_id c) (client_config c)"

text \<open>The same connection, described by what arrives and when.\<close>

definition tokio_outcome :: "prost \<Rightarrow> tokio_state Client \<Rightarrow> (ClientError + unit) \<times> event list" where
  "tokio_outcome P c =
     (if \<not> tk_receiver_alive (client_io c) then (Err OutboundChannelClosed, [])
      else if unat (connect_timeout (config_quic (client_config c))) \<le> tk_latency_ms (client_io c)
      then (Err (ClientError_Handshake ConnectTimeout), [Sent (OutboundMessage_Info (client_info c))])
      else connection_outcome (authenticator c) (client_id c) (client_info c) (tokio_items P (client_io c)))"

lemma Client_run_tokio: "\<exists>s. Client_run (tokio_connection P) c =
    Some (fst (tokio_outcome P c), snd (tokio_outcome P c), s)"
proof (cases "tk_receiver_alive (client_io c)
    \<and> tk_latency_ms (client_io c) < unat (connect_timeout (config_quic (client_config c)))")
  case True
  let ?s1 = "snd (tokio_send (OutboundMessage_Info (client_info c)) (client_io c))"
  have "channel_send (tokio_connection P) (OutboundMessage_Info (client_info c)) (client_io c) = (Ok (), ?s1)"
    and "before_deadline (tokio_connection P) (connect_timeout (config_quic (client_config c))) ?s1"
    using True by (auto simp: tokio_connection_def tokio_send_def)
  from tokio.Client_run_total [OF this] True show ?thesis by (simp add: tokio_outcome_def not_le)
next
  case False
  then show ?thesis
    by (auto simp: Client_run_def perform_handshake_def tokio_connection_def tokio_send_def
        tokio_outcome_def ClientError_from_send_error_def Let_def not_le)
qed

lemma sample_items:
  "tokio_items wire_prost sample_state =
     [Ok (Frame_Connect (ClientOutbound_connect 1 False)),
      Ok (Frame_UnSubscribe \<lparr>unsubscribe_subscription_id = 42\<rparr>)]"
proof -
  let ?f = "Frame_Connect (ClientOutbound_connect 1 False)"
  let ?g = "Frame_UnSubscribe \<lparr>unsubscribe_subscription_id = 42\<rparr>"
  have b: "reads_bytes sample_reads = frame_bytes 0x01 [0x08, 0x01] @ frame_bytes 0x04 [0x10, 0x2A] @ []"
    by (simp add: sample_reads_def frame_bytes_def put_u32_def)
  have "server_decode wire_prost (frame_bytes 0x01 [0x08, 0x01] @ rest) = (Ok (Some ?f), rest)" for rest
    using server_decode_frame [OF connect_law] by (simp add: MAXIMUM_PAYLOAD_BYTES_def)
  moreover have "server_decode wire_prost (frame_bytes 0x04 [0x10, 0x2A]) = (Ok (Some ?g), [])"
    using server_decode_frame [OF unsubscribe_42_law, of "[]"] by (simp add: MAXIMUM_PAYLOAD_BYTES_def)
  ultimately show ?thesis
    by (simp add: tokio_items_def sample_state_def b server_stream.stream_items_unfold framed_fin_def
        reads_error.simps sample_reads_def [THEN arg_cong [of _ _ reads_error]])
qed

lemma default_connect_timeout: "unat (connect_timeout (config_quic ServerConfig_new)) = 2000"
  by (simp add: ServerConfig_new_def QuicConfig_default_def QUIC_CONNECT_TIMEOUT_MS_def)

lemma sample_outcome:
  "tokio_outcome wire_prost sample_client =
     (Ok (), [Sent (OutboundMessage_Info (connection_info (ClientId 7) ServerConfig_new)), Logged (established_line (ClientId 7)),
       Dispatched (Frame_UnSubscribe \<lparr>unsubscribe_subscription_id = 42\<rparr>)])"
proof -
  have "tk_receiver_alive sample_state" "tk_latency_ms sample_state = 5"
    by (simp_all add: sample_state_def)
  then show ?thesis
    by (simp add: tokio_outcome_def connection_outcome_def sample_client_def sample_items
        NoAuthAuthenticator_def default_connect_timeout)
qed

abbreviation sample_events :: "event list" where
  "sample_events \<equiv> [Sent (OutboundMessage_Info (connection_info (ClientId 7) ServerConfig_new)),
     Logged (established_line (ClientId 7)),
     Dispatched (Frame_UnSubscribe \<lparr>unsubscribe_subscription_id = 42\<rparr>)]"

lemma sample_run:
  obtains s where "Client_run (tokio_connection wire_prost) sample_client = Some (Ok (), sample_events, s)"
  using Client_run_tokio [of wire_prost sample_client] by (auto simp: sample_outcome)

lemma sample_info_law:
  "client_frame_law wire_prost (ClientFrame_Info (connection_info (ClientId 7) ServerConfig_new))
    [8, 1, 26, 14, 111, 99, 121, 112, 111, 100, 101, 45, 115, 101, 114, 118,
     101, 114, 34, 7, 111, 99, 121, 112, 111, 100, 101, 40, 128, 128, 64, 48, 7]" (is "client_frame_law _ (ClientFrame_Info ?i) ?b")
proof -
  have i: "?i = \<lparr>info_version = 1, info_server_id = ''ocypode-server'', info_server_name = ''ocypode'',
      info_max_payload = 1048576, info_client_id = 7, info_requires_auth = False, info_tls_verify = False\<rparr>"
    by (simp add: connection_info_def ServerOutbound_info_def PROTOCOL_VERSION_def ServerConfig_new_def
        SERVER_ID_def SERVER_NAME_def MAXIMUM_PAYLOAD_BYTES_def)
  have b: "string_bytes ''ocypode-server'' = [111, 99, 121, 112, 111, 100, 101, 45, 115, 101, 114, 118, 101, 114]"
    "string_bytes ''ocypode'' = [111, 99, 121, 112, 111, 100, 101]"
    by (simp_all add: string_bytes_def)
  have e: "Info_encode wire_prost ?i = Ok ?b"
    unfolding i
    by (simp add: wire_prost_def wire_encode_def Info_fields_def opt_defs encode_fields_def b encode_varint.simps)
  have v: "Info_valid ?i"
    unfolding i by (simp add: Info_valid_def text_ok_def b)
  show ?thesis using wire_Info.encoded_decodes [OF v e] e by simp
qed

text \<open>The connection of a client that keeps to the protocol.\<close>

lemma client_served:
  assumes "authenticator c m = Accepted"
    and "\<forall>f \<in> set (Frame_Connect m # fs). deliverable P f"
    and "client_send_all P (Frame_Connect m # fs) [] = (r, w)"
    and "reads_bytes (tk_reads (client_io c)) = w" and "reads_error (tk_reads (client_io c)) = None"
    and "tk_buffer (client_io c) = []" and "\<not> tk_ended (client_io c)" and "tk_receiver_alive (client_io c)"
    and "tk_latency_ms (client_io c) < unat (connect_timeout (config_quic (client_config c)))"
  shows "r = Ok () \<and> (\<exists>s. Client_run (tokio_connection P) c = Some (Ok (),
      [Sent (OutboundMessage_Info (client_info c)), Logged (established_line (client_id c))]
        @ dispatch_log (client_id c) fs, s))"
proof -
  obtain w' where w': "\<And>out. client_send_all P (Frame_Connect m # fs) out = (Ok (), out @ w')"
    "\<And>rest fin. stream_items (server_decode P) fin (w' @ rest)
      = map Ok (Frame_Connect m # fs) @ stream_items (server_decode P) fin rest"
    using client_send_all_ok [OF assms(2)] by blast
  have "w = w'" and r: "r = Ok ()" using w'(1) [of "[]"] assms(3) by auto
  then have "tokio_items P (client_io c) = Ok (Frame_Connect m) # map Ok fs"
    using w'(2) [of _ "[]"] assms(4-7)
    by (simp add: tokio_items_def server_stream.stream_items_unfold [of _ _ "[]"] framed_fin_def)
  then have "tokio_outcome P c = (Ok (), [Sent (OutboundMessage_Info (client_info c)),
      Logged (established_line (client_id c))] @ dispatch_log (client_id c) fs)"
    using assms(1,8,9) by (simp add: tokio_outcome_def connection_outcome_def serve_map_Ok)
  then show ?thesis using Client_run_tokio [of P c] r by simp
qed

section \<open>Properties for every runtime\<close>



text \<open>
  C2: No frame is dispatched before the handshake is done. If a run dispatches any frame, then the
  INFO message was accepted by the outbound channel first, the reader delivered a CONNECT within
  the timeout as its very first item, the authenticator accepted that CONNECT, and only then
  dispatching began; INFO is sent exactly once.
\<close>

theorem dispatch_only_after_accepted_connect:
  assumes "Client_run io c = Some (r, ev, s)" and "Dispatched f \<in> set ev"
  shows "\<exists>s1 s2 m fs.
    channel_send io (OutboundMessage_Info (client_info c)) (client_io c) = (Ok (), s1)
    \<and> before_deadline io (connect_timeout (config_quic (client_config c))) s1
    \<and> framed_next io s1 = (Some (Ok (Frame_Connect m)), s2)
    \<and> authenticator c m = Accepted
    \<and> ev = Sent (OutboundMessage_Info (client_info c)) # Logged (established_line (client_id c))
        # dispatch_log (client_id c) fs"
proof -
  let ?ms = "connect_timeout (config_quic (client_config c))"
  obtain hr ev1 s1 where h: "perform_handshake io ?ms (PendingHandshake_new (client_id c))
      (authenticator c) (client_info c) (client_io c) = (hr, ev1, s1)"
    by (metis prod_cases3)
  have "served (authenticator c) (client_id c) (client_info c) ev"
    using reachable_phase_inv [OF Client_run_steps [OF assms(1)]] assms(2)
    by (auto split: sum.splits ClientError.splits)
  then obtain fs where ev: "ev = Sent (OutboundMessage_Info (client_info c))
      # Logged (established_line (client_id c)) # dispatch_log (client_id c) fs"
    unfolding served_def by blast
  have "\<exists>compl. hr = Ok compl"
    using h assms ev by (cases hr) (auto simp: Client_run_def perform_handshake_def first_item_outcome_def Let_def
        split: prod.splits sum.splits if_splits option.splits Frame.splits)
  then obtain compl where "hr = Ok compl" by blast
  with h ev show ?thesis
    by (auto simp: perform_handshake_def first_item_outcome_def Let_def result_simps on_connect_ok_iff
        split: prod.splits sum.splits if_splits option.splits Frame.splits)
qed

theorem dispatch_only_after_accepted_connect_witness:
  "\<exists>s1 s2 m. channel_send (tokio_connection wire_prost)
        (OutboundMessage_Info (client_info sample_client)) sample_state = (Ok (), s1)
    \<and> framed_next (tokio_connection wire_prost) s1 = (Some (Ok (Frame_Connect m)), s2)
    \<and> NoAuthAuthenticator m = Accepted"
proof -
  obtain s where "Client_run (tokio_connection wire_prost) sample_client = Some (Ok (), sample_events, s)"
    by (rule sample_run)
  from dispatch_only_after_accepted_connect [OF this] show ?thesis
    by (auto simp: sample_client_def)
qed

text \<open>
  What each result of \<open>Client::run\<close> means. A channel that is closed at the start leaves no trace;
  a handshake error comes right after INFO, with nothing dispatched, and is a timeout, a closed
  connection or the reason the authenticator gave for some CONNECT (never \<open>UnexpectedFrame\<close>); a
  clean end and every later codec error come after an accepted CONNECT.
\<close>

theorem Client_run_results:
  assumes "Client_run io c = Some (r, ev, s)"
  shows "case r of
      Err OutboundChannelClosed \<Rightarrow> ev = []
    | Err (ClientError_Handshake e) \<Rightarrow> ev = [Sent (OutboundMessage_Info (client_info c))]
        \<and> (e = ConnectTimeout \<or> e = ConnectionClosed
           \<or> (\<exists>m reason. authenticator c m = Rejected reason \<and> e = AuthenticationFailed reason))
    | Err (ClientError_Codec e) \<Rightarrow> ev = [Sent (OutboundMessage_Info (client_info c))]
        \<or> (\<exists>m fs. authenticator c m = Accepted \<and> ev = Sent (OutboundMessage_Info (client_info c))
             # Logged (established_line (client_id c)) # dispatch_log (client_id c) fs)
    | Ok _ \<Rightarrow> \<exists>m fs. authenticator c m = Accepted \<and> ev = Sent (OutboundMessage_Info (client_info c))
             # Logged (established_line (client_id c)) # dispatch_log (client_id c) fs"
  using reachable_phase_inv [OF Client_run_steps [OF assms]]
  by (cases r) (auto simp: served_def split: ClientError.splits)

theorem Client_run_results_witness:
  "\<exists>m fs. authenticator sample_client m = Accepted
    \<and> [Dispatched (Frame_UnSubscribe \<lparr>unsubscribe_subscription_id = 42\<rparr>)] = dispatch_log (ClientId 7) fs"
proof -
  obtain s where "Client_run (tokio_connection wire_prost) sample_client = Some (Ok (), sample_events, s)"
    by (rule sample_run)
  from Client_run_results [OF this] show ?thesis
    by (auto simp: sample_client_def)
qed

section \<open>Properties on the documented runtime\<close>

text \<open>
  C18: \<open>Client::run\<close> always returns on a stream that ends, and its result and events are a function
  of the outbound channel, the timeout and the items in the bytes read: no INFO gets out when the
  channel is closed; a client that is too slow gets the timeout error; otherwise the first item
  decides the handshake, the frames up to the first error are dispatched in order, and that error
  or a clean end is the result.
\<close>

theorem Client_run_outcome:
  "\<exists>s. Client_run (tokio_connection P) c = Some
    (let st = client_io c; info = client_info c;
         items = (if tk_ended st then []
           else stream_items (server_decode P) (framed_fin ServerCodecError_Io (reads_error (tk_reads st)))
             (tk_buffer st @ reads_bytes (tk_reads st)));
         (r, ev) =
           (if \<not> tk_receiver_alive st then (Err OutboundChannelClosed, [])
            else if unat (connect_timeout (config_quic (client_config c))) \<le> tk_latency_ms st
            then (Err (ClientError_Handshake ConnectTimeout), [Sent (OutboundMessage_Info info)])
            else connection_outcome (authenticator c) (client_id c) info items)
     in (r, ev, s))"
  using Client_run_tokio [of P c]
  unfolding tokio_outcome_def tokio_items_def Let_def case_prod_beta .

text \<open>
  How the network cuts the stream into reads does not matter: two connections that read the same
  bytes, whatever the chunks, end with the same result and the same events.
\<close>

theorem Client_run_chunk_independent:
  assumes "reads_bytes rs1 = reads_bytes rs2" and "reads_error rs1 = reads_error rs2"
  shows "\<exists>r ev s1 s2.
    Client_run (tokio_connection P) (c\<lparr>client_io := st\<lparr>tk_reads := rs1\<rparr>\<rparr>) = Some (r, ev, s1)
    \<and> Client_run (tokio_connection P) (c\<lparr>client_io := st\<lparr>tk_reads := rs2\<rparr>\<rparr>) = Some (r, ev, s2)"
proof -
  have "tokio_outcome P (c\<lparr>client_io := st\<lparr>tk_reads := rs1\<rparr>\<rparr>) = tokio_outcome P (c\<lparr>client_io := st\<lparr>tk_reads := rs2\<rparr>\<rparr>)"
    using assms by (simp add: tokio_outcome_def tokio_items_def)
  then show ?thesis
    using Client_run_tokio [of P "c\<lparr>client_io := st\<lparr>tk_reads := rs1\<rparr>\<rparr>"]
      Client_run_tokio [of P "c\<lparr>client_io := st\<lparr>tk_reads := rs2\<rparr>\<rparr>"] by metis
qed

theorem Client_run_chunk_independent_witness:
  "\<exists>r ev s1 s2.
    Client_run (tokio_connection wire_prost) (sample_client\<lparr>client_io := sample_state\<lparr>tk_reads := [Ok [1], Ok [2]]\<rparr>\<rparr>)
      = Some (r, ev, s1)
    \<and> Client_run (tokio_connection wire_prost) (sample_client\<lparr>client_io := sample_state\<lparr>tk_reads := [Ok [1, 2]]\<rparr>\<rparr>)
      = Some (r, ev, s2)"
  by (rule Client_run_chunk_independent) simp_all

text \<open>
  C5: A well-behaved client is served. A client encodes a CONNECT that the authenticator accepts and
  then any frames, all of them within the size limit; its bytes arrive in time, in any chunks, and
  then the stream ends. Then the encoder reports no error, and the server dispatches exactly
  those frames, in order, and ends the connection cleanly.
\<close>

theorem well_behaved_client_served:
  assumes "authenticator c m = Accepted"
    and "\<forall>f \<in> set (Frame_Connect m # fs). deliverable P f"
    and "client_send_all P (Frame_Connect m # fs) [] = (r, w)"
    and "reads_bytes (tk_reads (client_io c)) = w" and "reads_error (tk_reads (client_io c)) = None"
    and "tk_buffer (client_io c) = []" and "\<not> tk_ended (client_io c)" and "tk_receiver_alive (client_io c)"
    and "tk_latency_ms (client_io c) < unat (connect_timeout (config_quic (client_config c)))"
  shows "r = Ok () \<and> (\<exists>s. Client_run (tokio_connection P) c = Some (Ok (),
      [Sent (OutboundMessage_Info (client_info c)), Logged (established_line (client_id c))]
        @ dispatch_log (client_id c) fs, s))"
  by (rule client_served [OF assms])

theorem well_behaved_client_served_witness:
  "\<exists>s. Client_run (tokio_connection wire_prost) sample_client = Some (Ok (),
      [Sent (OutboundMessage_Info (client_info sample_client)), Logged (established_line (client_id sample_client))]
        @ dispatch_log (client_id sample_client) [Frame_UnSubscribe \<lparr>unsubscribe_subscription_id = 42\<rparr>], s)"
proof -
  let ?m = "ClientOutbound_connect 1 False" and ?u = "Frame_UnSubscribe \<lparr>unsubscribe_subscription_id = 42\<rparr>"
  have d: "deliverable wire_prost (Frame_Connect ?m)" "deliverable wire_prost ?u"
    unfolding deliverable_def MAXIMUM_PAYLOAD_BYTES_def
    by (rule exI, rule conjI, rule connect_law, simp) (rule exI, rule conjI, rule unsubscribe_42_law, simp)
  have s: "client_send_all wire_prost [Frame_Connect ?m, ?u] []
      = (Ok (), frame_bytes 0x01 [0x08, 0x01] @ frame_bytes 0x04 [0x10, 0x2A])"
    using client_encode_frame_bytes [OF connect_law, of "[]"]
      client_encode_frame_bytes [OF unsubscribe_42_law]
    by (simp del: client_encode_frame.simps)
  have "reads_bytes sample_reads = frame_bytes 0x01 [0x08, 0x01] @ frame_bytes 0x04 [0x10, 0x2A]"
    and "reads_error sample_reads = None"
    by (simp_all add: sample_reads_def frame_bytes_def put_u32_def)
  with well_behaved_client_served [of sample_client ?m "[?u]" wire_prost, OF _ _ s] d default_connect_timeout
  show ?thesis by (simp add: sample_client_def sample_state_def NoAuthAuthenticator_def)
qed

text \<open>
  The writer task always returns once the channel is closed, and what it has put on the wire by
  then is exactly the frames of the queued INFO messages, in order, whatever the batches in which
  the messages arrived and wherever the buffer overflowed; nothing stays in the buffer. MESSAGE
  items are dropped.
\<close>

theorem outbound_writer_output:
  assumes "wr_buffer w = []"
  shows "\<exists>w'. run_outbound_writer (tokio_writer P boundary) w = Some w'
    \<and> wr_buffer w' = [] \<and> concat (wr_arrivals w') = []
    \<and> wr_wire w' = wr_wire w
        @ concat [snd (server_encode (Info_codec P) i []). OutboundMessage_Info i \<leftarrow> concat (wr_arrivals w)]"
  using tokio_out.run_outbound_writer_total [of P boundary w] assms
  by (auto simp: outbound_bytes_def info_frame_def)

theorem outbound_writer_output_witness:
  "\<exists>w'. run_outbound_writer (tokio_writer wire_prost 8)
      \<lparr>wr_arrivals = [[OutboundMessage_Info Info_default], [], [OutboundMessage_Info Info_default]],
       wr_buffer = [], wr_wire = []\<rparr> = Some w'
    \<and> wr_wire w' = [0, 0, 0, 0, 0, 0, 0, 0, 0, 0]"
proof -
  have "Info_encode wire_prost Info_default = Ok []"
    by (simp add: wire_prost_def wire_encode_def Info_fields_def Info_default_def opt_defs encode_fields_def)
  then have "snd (server_encode (Info_codec wire_prost) Info_default []) = [0, 0, 0, 0, 0]"
    by (simp add: server_encode_def encode_payload_def codec_defs put_u32_def)
  with outbound_writer_output [of "\<lparr>wr_arrivals = [[OutboundMessage_Info Info_default], [],
      [OutboundMessage_Info Info_default]], wr_buffer = [], wr_wire = []\<rparr>" wire_prost 8]
  show ?thesis by auto
qed

text \<open>
  C25: The greeting arrives. After any run that got INFO into the channel, the writer task puts bytes
  on the wire from which the client's reading loop, in whatever chunks it reads them, gets the
  INFO message the server built for this client, and nothing is left over.
\<close>

theorem info_reaches_client:
  assumes "Client_run io c = Some (r, ev, s)" and "r \<noteq> Err OutboundChannelClosed"
    and "client_frame_law P (ClientFrame_Info (client_info c)) payload"
    and "length payload \<le> MAXIMUM_PAYLOAD_BYTES"
    and "concat arrivals = [m. Sent m \<leftarrow> ev]"
  shows "\<exists>w. run_outbound_writer (tokio_writer P boundary)
        \<lparr>wr_arrivals = arrivals, wr_buffer = [], wr_wire = []\<rparr> = Some w
    \<and> (\<forall>reads. reads_bytes reads = wr_wire w \<longrightarrow>
         (\<exists>buf rs. read_next_client_frame P reads [] = (Ok (Some (ClientFrame_Info (client_info c))), buf, rs)
            \<and> buf @ reads_bytes rs = []))"
proof -
  have "[m. Sent m \<leftarrow> ev] = [OutboundMessage_Info (client_info c)]"
    using Client_run_sent_info [OF assms(1,2)] .
  with assms(5) tokio_out.run_outbound_writer_total
    [of P boundary "\<lparr>wr_arrivals = arrivals, wr_buffer = [], wr_wire = []\<rparr>"]
  obtain w where w: "run_outbound_writer (tokio_writer P boundary)
      \<lparr>wr_arrivals = arrivals, wr_buffer = [], wr_wire = []\<rparr> = Some w"
    "wr_wire w = info_frame P (client_info c)" by auto
  have "info_frame P (client_info c) = frame_bytes 0x00 payload"
    using server_encode_frame_bytes [OF assms(3) max_payload_u32 [OF assms(4)], of "[]"]
    by (simp add: info_frame_def)
  with client_decode_frame [OF assms(3,4), of "[]"] w(2)
  have "client_decode P ([] @ wr_wire w) = (Ok (Some (ClientFrame_Info (client_info c))), [])" by simp
  with w(1) read_next_client_frame_decodes [of P "[]"] show ?thesis by metis
qed

theorem info_reaches_client_witness:
  "\<exists>w. run_outbound_writer (tokio_writer wire_prost 10485760)
        \<lparr>wr_arrivals = [[], [OutboundMessage_Info (connection_info (ClientId 7) ServerConfig_new)]],
         wr_buffer = [], wr_wire = []\<rparr> = Some w
    \<and> (\<forall>reads. reads_bytes reads = wr_wire w \<longrightarrow>
         (\<exists>buf rs. read_next_client_frame wire_prost reads []
              = (Ok (Some (ClientFrame_Info (connection_info (ClientId 7) ServerConfig_new))), buf, rs)
            \<and> buf @ reads_bytes rs = []))"
proof -
  have c: "client_info sample_client = connection_info (ClientId 7) ServerConfig_new"
    by (simp add: sample_client_def)
  obtain s where "Client_run (tokio_connection wire_prost) sample_client = Some (Ok (), sample_events, s)"
    by (rule sample_run)
  from info_reaches_client [OF this _ sample_info_law [folded c]] show ?thesis
    unfolding c by (simp add: MAXIMUM_PAYLOAD_BYTES_def)
qed

end
