(* ===== verification/Quic.thy ===== *)
theory Quic
  imports Session
begin

text \<open>
  \<open>crates/server/src/quic.rs\<close>: starting the endpoint, accepting connections and streams, and the
  task of one stream. The QUIC library is the record \<open>s2n_quic\<close>, one field per builder call the
  code makes; its opaque objects share the type \<open>'h\<close>. The accept loops run over the sequence of
  what the awaited calls give; tasks are listed in the order in which they draw their client
  identifiers. The line that \<open>start\<close> logs is an action of \<open>main_with\<close> in \<open>Boot\<close>; the line about a
  graceful stop is the only effect of the shutdown branch and is not recorded.
\<close>

section \<open>Starting the endpoint\<close>

record ('a, 'h) s2n_quic =
  io_with_receive_address :: "'a \<Rightarrow> string + 'h"
  io_with_gso :: "bool \<Rightarrow> 'h \<Rightarrow> string + 'h"
  io_with_gro :: "bool \<Rightarrow> 'h \<Rightarrow> string + 'h"
  io_build :: "'h \<Rightarrow> string + 'h"
  limits_with_inflight_handshake_limit :: "nat \<Rightarrow> string + 'h"
  limits_build :: "'h \<Rightarrow> string + 'h"
  limits_default :: 'h
  tls_with_certificate :: "string \<Rightarrow> string \<Rightarrow> string + 'h"
  tls_with_client_authentication :: "'h \<Rightarrow> string + 'h"
  tls_build :: "'h \<Rightarrow> string + 'h"
  server_with_tls :: "'h \<Rightarrow> string + 'h"
  server_with_io :: "'h \<Rightarrow> 'h \<Rightarrow> string + 'h"
  server_with_endpoint_limits :: "'h \<Rightarrow> 'h \<Rightarrow> string + 'h"
  server_start :: "'h \<Rightarrow> string + 'h"
  server_local_addr :: "'h \<Rightarrow> string + 'a"

text \<open>\<open>Box<dyn Error>\<close> of either the library's errors or the I/O errors of the path checks.\<close>

datatype start_error = Boxed string | Boxed_io io_error

definition boxed :: "string + 'x \<Rightarrow> start_error + 'x" where
  "boxed r = map_err Boxed r"

definition start_io :: "('a, 'h) s2n_quic \<Rightarrow> ServerConfig \<Rightarrow> 'a \<Rightarrow> start_error + 'h" where
  "start_io q config addr =
     and_then (boxed (io_with_receive_address q addr)) (\<lambda>b1.
     and_then (boxed (io_with_gso q (enable_gso (config_quic config)) b1)) (\<lambda>b2.
     and_then (boxed (io_with_gro q (enable_gro (config_quic config)) b2)) (\<lambda>b3.
     boxed (io_build q b3))))"

definition start_limits :: "('a, 'h) s2n_quic \<Rightarrow> ServerConfig \<Rightarrow> start_error + 'h" where
  "start_limits q config =
     (case endpoint_limits (config_quic config) of
        Some limit \<Rightarrow>
          and_then (boxed (limits_with_inflight_handshake_limit q limit)) (\<lambda>b. boxed (limits_build q b))
      | None \<Rightarrow> Ok (limits_default q))"

definition start_tls ::
    "('a, 'h) s2n_quic \<Rightarrow> (string \<Rightarrow> io_error + bool) \<Rightarrow> ServerConfig \<Rightarrow> start_error + 'h" where
  "start_tls q try_exists config =
     and_then (map_err Boxed_io (cert_file_path try_exists (quic_tls (config_quic config)))) (\<lambda>cert.
     and_then (map_err Boxed_io (key_file_path try_exists (quic_tls (config_quic config)))) (\<lambda>key.
     and_then (boxed (tls_with_certificate q cert key)) (\<lambda>tls_builder.
     if config_tls_verify config
     then and_then (boxed (tls_with_client_authentication q tls_builder)) (\<lambda>b. boxed (tls_build q b))
     else boxed (tls_build q tls_builder))))"

text \<open>
  \<open>start\<close> up to the spawned accept loop: the address it returns, and the server and authenticator
  the loop owns. An address that does not parse is a panic.
\<close>

definition quic_start ::
    "('a, 'h) s2n_quic \<Rightarrow> (string \<Rightarrow> 'a option) \<Rightarrow> (string \<Rightarrow> io_error + bool) \<Rightarrow> ServerConfig
      \<Rightarrow> (start_error + 'a \<times> 'h \<times> Authenticator) option" where
  "quic_start q parse try_exists config =
     (case QuicConfig_socket_addr parse (config_quic config) of
        None \<Rightarrow> None
      | Some addr \<Rightarrow> Some (
          and_then (start_io q config addr) (\<lambda>io.
          and_then (start_limits q config) (\<lambda>limits.
          and_then (start_tls q try_exists config) (\<lambda>tls.
          and_then (boxed (server_with_tls q tls)) (\<lambda>b1.
          and_then (boxed (server_with_io q io b1)) (\<lambda>b2.
          and_then (boxed (server_with_endpoint_limits q limits b2)) (\<lambda>b3.
          and_then (boxed (server_start q b3)) (\<lambda>server.
          and_then (boxed (server_local_addr q server)) (\<lambda>local_addr.
          Ok (local_addr, server, NoAuthAuthenticator)))))))))))"

section \<open>Accepting\<close>

text \<open>What \<open>tokio::select!\<close> finds ready in one round of the accept loop.\<close>

datatype 'conn select_event = Cancelled | Incoming "'conn option"

text \<open>The connections for which a task is spawned, and whether the loop has ended.\<close>

fun accept_loop :: "'conn select_event list \<Rightarrow> 'conn list \<times> bool" where
  "accept_loop [] = ([], False)"
| "accept_loop (Cancelled # es) = ([], True)"
| "accept_loop (Incoming (Some connection) # es) =
     (let (cs, ended) = accept_loop es in (connection # cs, ended))"
| "accept_loop (Incoming None # es) = ([], True)"

text \<open>\<open>while let Ok(Some(stream)) = connection.accept_bidirectional_stream().await\<close>\<close>

fun accept_streams :: "(string + 'stream option) list \<Rightarrow> 'stream list" where
  "accept_streams (Ok (Some stream) # rs) = stream # accept_streams rs"
| "accept_streams rs = []"

section \<open>The task of a stream\<close>

fun ServerCodecError_display :: "ServerCodecError \<Rightarrow> string" where
  "ServerCodecError_display (ServerCodecError_Codec e) = CodecError_display e"
| "ServerCodecError_display (ServerCodecError_Io e) = io_message e"

fun ClientError_display :: "ClientError \<Rightarrow> string" where
  "ClientError_display (ClientError_Handshake e) = HandshakeError_display e"
| "ClientError_display (ClientError_Codec e) = ServerCodecError_display e"
| "ClientError_display OutboundChannelClosed = ''outbound channel closed''"

text \<open>\<open>impl Transport for BidirectionalStream\<close>; \<open>split\<close> is the library's function.\<close>

definition BidirectionalStream_transport :: "('t \<Rightarrow> 'r \<times> 'w) \<Rightarrow> ('t, 'r, 'w) Transport" where
  "BidirectionalStream_transport split = \<lparr>into_split = split\<rparr>"

datatype task_result =
    Panicked
  | Running
  | Finished "ClientError + unit" "event list"

definition handle_bidirectional_stream ::
    "'s connection_io \<Rightarrow> ('t \<Rightarrow> nat \<Rightarrow> nat \<Rightarrow> nat \<Rightarrow> 's) \<Rightarrow> 't \<Rightarrow> ServerConfig \<Rightarrow> Authenticator \<Rightarrow> u64
      \<Rightarrow> task_result \<times> u64" where
  "handle_bidirectional_stream io open_transport stream config auth counter =
     (case Client_new open_transport stream auth config counter of
        (None, counter1) \<Rightarrow> (Panicked, counter1)
      | (Some client, counter1) \<Rightarrow>
          (case Client_run io client of
             None \<Rightarrow> (Running, counter1)
           | Some (r, ev, s) \<Rightarrow> (Finished r ev, counter1)))"

text \<open>The spawned task logs an error of the stream.\<close>

definition stream_task ::
    "'s connection_io \<Rightarrow> ('t \<Rightarrow> nat \<Rightarrow> nat \<Rightarrow> nat \<Rightarrow> 's) \<Rightarrow> ServerConfig \<Rightarrow> Authenticator \<Rightarrow> 't \<Rightarrow> u64
      \<Rightarrow> task_result \<times> u64" where
  "stream_task io open_transport config auth stream counter =
     (case handle_bidirectional_stream io open_transport stream config auth counter of
        (Finished (Err e) ev, counter1) \<Rightarrow>
          (Finished (Err e) (ev @ [Logged (''QUIC stream error: '' @ ClientError_display e)]), counter1)
      | other \<Rightarrow> other)"

fun serve_streams ::
    "'s connection_io \<Rightarrow> ('t \<Rightarrow> nat \<Rightarrow> nat \<Rightarrow> nat \<Rightarrow> 's) \<Rightarrow> ServerConfig \<Rightarrow> Authenticator \<Rightarrow> 't list \<Rightarrow> u64
      \<Rightarrow> task_result list \<times> u64" where
  "serve_streams io open_transport config auth [] counter = ([], counter)"
| "serve_streams io open_transport config auth (stream # streams) counter =
     (let (t, counter1) = stream_task io open_transport config auth stream counter;
          (ts, counter2) = serve_streams io open_transport config auth streams counter1
      in (t # ts, counter2))"

section \<open>Lemmas\<close>

lemma boxed_Ok_iff [result_simps]: "boxed r = Ok x \<longleftrightarrow> r = Ok x"
  by (simp add: boxed_def result_simps)

lemma start_tls_ok_iff:
  "start_tls q ex config = Ok t \<longleftrightarrow>
     (let tls = quic_tls (config_quic config) in
      ex (tls_cert_file_path tls) = Ok True \<and> ex (tls_key_file_path tls) = Ok True
      \<and> (\<exists>b0 b1. tls_with_certificate q (tls_cert_file_path tls) (tls_key_file_path tls) = Ok b0
           \<and> (if config_tls_verify config then tls_with_client_authentication q b0 = Ok b1 else b1 = b0)
           \<and> tls_build q b1 = Ok t))"
  by (cases "config_tls_verify config")
    (auto simp: start_tls_def result_simps cert_file_path_ok_iff key_file_path_ok_iff Let_def)

fun task_events :: "task_result \<Rightarrow> event list" where
  "task_events (Finished r ev) = ev"
| "task_events _ = []"

lemma Client_run_sent:
  assumes "Client_run io c = Some (r, ev, s)" and "Sent m \<in> set ev"
  shows "m = OutboundMessage_Info (connection_info (client_id c) (client_config c))"
proof -
  have "Sent m \<notin> set (dispatch_log cid fs)" for cid fs
    by (induction fs) (auto split: Frame.splits)
  with reachable_phase_inv [OF Client_run_steps [OF assms(1)]] assms(2) show ?thesis
    by (auto simp: served_def split: sum.splits ClientError.splits)
qed

lemma stream_task_counter: "snd (stream_task io op config auth st n) = n + 1"
  by (auto simp: stream_task_def handle_bidirectional_stream_def Client_new_def ClientId_new_def Let_def
      split: prod.splits task_result.splits sum.splits option.splits)

lemma stream_task_sent:
  assumes "Sent (OutboundMessage_Info i) \<in> set (task_events (fst (stream_task io op config auth st n)))"
  shows "i = connection_info (ClientId n) config"
proof -
  let ?q = "config_quic config"
  let ?c = "\<lparr>client_id = ClientId n, client_io = op st (read_buffer_size ?q) (write_buffer_size ?q)
      (outbound_channel_capacity ?q), authenticator = auth, client_config = config\<rparr>"
  from assms obtain r ev s where run: "Client_run io ?c = Some (r, ev, s)"
    and "Sent (OutboundMessage_Info i) \<in> set ev"
    by (auto simp: stream_task_def handle_bidirectional_stream_def Client_new_def ClientId_new_def Let_def
        split: prod.splits task_result.splits sum.splits option.splits if_splits)
  from Client_run_sent [OF this] show ?thesis by simp
qed

lemma serve_streams_nth:
  "length (fst (serve_streams io op config auth sts n)) = length sts
   \<and> (\<forall>k < length sts. fst (serve_streams io op config auth sts n) ! k
        = fst (stream_task io op config auth (sts ! k) (n + of_nat k)))"
proof (induction sts arbitrary: n)
  case (Cons st sts)
  obtain t where t: "stream_task io op config auth st n = (t, n + 1)"
    using stream_task_counter by (metis prod.collapse)
  have "fst (serve_streams io op config auth (st # sts) n) ! k
      = fst (stream_task io op config auth ((st # sts) ! k) (n + of_nat k))" if "k < Suc (length sts)" for k
    using that t Cons.IH [of "n + 1"] by (cases k) (auto simp: case_prod_beta Let_def add.assoc)
  then show ?case using t Cons.IH [of "n + 1"] by (auto simp: case_prod_beta Let_def)
qed simp

end
