(* ===== verification/Logger.thy ===== *)
theory Logger
  imports Config
begin

text \<open>
  \<open>crates/server/src/logger.rs\<close>: the tracing subscriber of the process. The layers the function builds are
  data; the state it changes is the global default subscriber, which can be set once, and the threads
  it spawns. A panic is an error that carries the message of the failed \<open>expect\<close>; what was done
  before it stays done. What a layer filters is the business of \<open>tracing_subscriber\<close> and is not modelled.
\<close>

section \<open>Layers\<close>

record Targets =
  targets_default :: "LevelFilter option"
  targets_directives :: "(string \<times> LevelFilter) list"

definition Targets_new :: Targets where
  "Targets_new = \<lparr>targets_default = None, targets_directives = []\<rparr>"

definition with_default :: "LevelFilter \<Rightarrow> Targets \<Rightarrow> Targets" where
  "with_default level t = t\<lparr>targets_default := Some level\<rparr>"

definition with_target :: "string \<Rightarrow> LevelFilter \<Rightarrow> Targets \<Rightarrow> Targets" where
  "with_target target level t = t\<lparr>targets_directives := targets_directives t @ [(target, level)]\<rparr>"

datatype layer = Fmt_layer bool Targets | Console_layer Targets

record logging =
  global_default :: "layer list option"
  spawned_threads :: "string list"

definition no_logging :: logging where
  "no_logging = \<lparr>global_default = None, spawned_threads = []\<rparr>"

section \<open>Set-up\<close>

text \<open>
  The branch for the console: the layer, and the thread that serves it. \<open>spawn\<close> is the result of
  \<open>std::thread::Builder::spawn\<close> for a thread of that name.
\<close>

definition console_branch ::
    "(string \<Rightarrow> io_error + unit) \<Rightarrow> LoggerConfig \<Rightarrow> layer list \<Rightarrow> logging \<Rightarrow> (string + layer list) \<times> logging" where
  "console_branch spawn config layers st =
     (let console_layer = Console_layer
            (with_target ''runtime'' LF_TRACE (with_target ''tokio'' LF_TRACE Targets_new));
          thread_name = logger_name config @ '' tokio-console''
      in case spawn thread_name of
           Err _ \<Rightarrow> (Err ''failed to spawn console subscriber thread'', st)
         | Ok _ \<Rightarrow> (Ok (layers @ [console_layer]), st\<lparr>spawned_threads := spawned_threads st @ [thread_name]\<rparr>))"

definition init_ocypode_logger ::
    "(string \<Rightarrow> io_error + unit) \<Rightarrow> LoggerConfig \<Rightarrow> logging \<Rightarrow> (string + unit) \<times> logging" where
  "init_ocypode_logger spawn config st =
     (let targets = with_default (default_level config) Targets_new;
          layers = [Fmt_layer (with_thread_name config) targets]
      in case (if enable_tokio_console config then console_branch spawn config layers st else (Ok layers, st)) of
           (Err e, st1) \<Rightarrow> (Err e, st1)
         | (Ok layers1, st1) \<Rightarrow>
             (case global_default st1 of
                Some _ \<Rightarrow> (Err ''failed to set global tracing subscriber'', st1)
              | None \<Rightarrow> (Ok (), st1\<lparr>global_default := Some layers1\<rparr>)))"

text \<open>
  The body of the console thread: \<open>runtime\<close> is the result of building its runtime, \<open>serve\<close> that of the
  server. The result has the panic, if there is one, and the lines printed.
\<close>

definition console_thread :: "io_error + unit \<Rightarrow> string + unit \<Rightarrow> (string + unit) \<times> string list" where
  "console_thread runtime serve =
     (case runtime of
        Err _ \<Rightarrow> (Err ''failed to build tokio-console runtime'', [])
      | Ok _ \<Rightarrow> (Ok (), ''serving console subscriber'' #
          (case serve of Err e \<Rightarrow> [''console subscriber server error: '' @ e] | Ok _ \<Rightarrow> [])))"

section \<open>Lemmas\<close>

lemma init_default_logger:
  "\<not> enable_tokio_console config \<Longrightarrow> global_default st = None \<Longrightarrow>
     init_ocypode_logger spawn config st =
       (Ok (), st\<lparr>global_default := Some [Fmt_layer (with_thread_name config) (with_default (default_level config) Targets_new)]\<rparr>)"
  by (simp add: init_ocypode_logger_def)

lemma init_logger_ok_iff:
  "fst (init_ocypode_logger spawn config st) = Ok () \<longleftrightarrow> global_default st = None
     \<and> (enable_tokio_console config \<longrightarrow> is_ok (spawn (logger_name config @ '' tokio-console'')))"
  by (auto simp: init_ocypode_logger_def console_branch_def Let_def result_simps split: sum.splits option.splits)

section \<open>Properties\<close>

text \<open>
  The subscriber is installed at most once. A first set-up whose console thread, if one is
  configured, can be spawned succeeds, and installs the formatting layer at the configured level,
  followed by the console layer exactly when the console is enabled. From then on every set-up
  panics and leaves the installed layers as they are, even though its console thread may have been
  spawned already.
\<close>

theorem logger_installed_once:
  assumes "global_default st = None"
    and "enable_tokio_console config \<longrightarrow> is_ok (spawn (logger_name config @ '' tokio-console''))"
  shows "\<exists>st1. init_ocypode_logger spawn config st = (Ok (), st1)
    \<and> global_default st1 = Some (Fmt_layer (with_thread_name config) (with_default (default_level config) Targets_new)
        # (if enable_tokio_console config
           then [Console_layer \<lparr>targets_default = None, targets_directives = [(''tokio'', LF_TRACE), (''runtime'', LF_TRACE)]\<rparr>]
           else []))
    \<and> spawned_threads st1 = spawned_threads st
        @ (if enable_tokio_console config then [logger_name config @ '' tokio-console''] else [])
    \<and> (\<forall>spawn2 config2. \<exists>e st2. init_ocypode_logger spawn2 config2 st1 = (Err e, st2)
         \<and> global_default st2 = global_default st1)"
  using assms
  by (auto simp: init_ocypode_logger_def console_branch_def Let_def result_simps with_target_def Targets_new_def
      split: sum.splits)

theorem logger_installed_once_witness:
  "\<exists>st1. init_ocypode_logger (\<lambda>name. Ok ()) LoggerConfig_default no_logging = (Ok (), st1)"
  using logger_installed_once [of no_logging LoggerConfig_default "\<lambda>name. Ok ()"]
  by (auto simp: no_logging_def LoggerConfig_default_def LoggerConfig_new_def)

end
