(* ===== verification/Metrics.thy ===== *)
theory Metrics
  imports Ocypode_Error
begin

text \<open>
  \<open>crates/server/src/metrics.rs\<close>: the metrics of the process and the service that serves them. The default
  registry of \<open>prometheus\<close> is the list of the names registered so far, and registering a name twice is
  an error; the three \<open>LazyLock\<close> statics are cells that are empty until they are first used. \<open>None\<close>
  stands for a panic.
\<close>

section \<open>The statics\<close>

datatype metric = Gauge string | Counter string

fun metric_name :: "metric \<Rightarrow> string" where
  "metric_name (Gauge n) = n"
| "metric_name (Counter n) = n"

type_synonym registry = "string list"

text \<open>\<open>register_int_gauge!\<close> and \<open>register_int_counter!\<close> on the default registry.\<close>

definition register :: "metric \<Rightarrow> registry \<Rightarrow> (unit + metric) \<times> registry" where
  "register m r = (if metric_name m \<in> set r then (Err (), r) else (Ok m, r @ [metric_name m]))"

record metrics_state =
  ACTIVE_CONNECTIONS :: "metric option"
  MESSAGES_TOTAL :: "metric option"
  ERRORS_TOTAL :: "metric option"
  default_registry :: registry

definition metrics_init :: metrics_state where
  "metrics_init = \<lparr>ACTIVE_CONNECTIONS = None, MESSAGES_TOTAL = None, ERRORS_TOTAL = None, default_registry = []\<rparr>"

text \<open>\<open>LazyLock::force\<close>: the initialiser runs when the cell is empty, and its \<open>unwrap\<close> may panic.\<close>

definition force :: "metric option \<Rightarrow> metric \<Rightarrow> registry \<Rightarrow> (metric \<times> registry) option" where
  "force cell m r =
     (case cell of
        Some v \<Rightarrow> Some (v, r)
      | None \<Rightarrow> (case register m r of (Err _, r1) \<Rightarrow> None | (Ok v, r1) \<Rightarrow> Some (v, r1)))"

definition OCYPODE_ACTIVE_CONNECTIONS :: "metrics_state \<Rightarrow> (metric \<times> metrics_state) option" where
  "OCYPODE_ACTIVE_CONNECTIONS s =
     map_option (\<lambda>(v, r). (v, s\<lparr>ACTIVE_CONNECTIONS := Some v, default_registry := r\<rparr>))
       (force (ACTIVE_CONNECTIONS s) (Gauge ''ocypode_active_connections'') (default_registry s))"

definition OCYPODE_MESSAGES_TOTAL :: "metrics_state \<Rightarrow> (metric \<times> metrics_state) option" where
  "OCYPODE_MESSAGES_TOTAL s =
     map_option (\<lambda>(v, r). (v, s\<lparr>MESSAGES_TOTAL := Some v, default_registry := r\<rparr>))
       (force (MESSAGES_TOTAL s) (Counter ''ocypode_messages_total'') (default_registry s))"

definition OCYPODE_ERRORS_TOTAL :: "metrics_state \<Rightarrow> (metric \<times> metrics_state) option" where
  "OCYPODE_ERRORS_TOTAL s =
     map_option (\<lambda>(v, r). (v, s\<lparr>ERRORS_TOTAL := Some v, default_registry := r\<rparr>))
       (force (ERRORS_TOTAL s) (Counter ''ocypode_errors_total'') (default_registry s))"

section \<open>The service\<close>

record metrics_response =
  response_headers :: "(string \<times> string) list"
  response_body :: bytes

text \<open>
  The handler of \<open>/metrics\<close>. \<open>encode\<close> is the text encoder applied to the gathered families, \<open>valid_header\<close>
  what the response builder accepts as a header value.
\<close>

definition metrics_handler ::
    "('mf \<Rightarrow> string + bytes) \<Rightarrow> string \<Rightarrow> (string \<Rightarrow> bool) \<Rightarrow> 'mf \<Rightarrow> metrics_response option" where
  "metrics_handler encode format_type valid_header mf =
     (case encode mf of
        Err _ \<Rightarrow> None
      | Ok buffer \<Rightarrow>
          if valid_header format_type
          then Some \<lparr>response_headers = [(''content-type'', format_type)], response_body = buffer\<rparr>
          else None)"

text \<open>
  The task \<open>boot_metrics_service\<close> spawns: \<open>bind\<close> is the result of binding the listener, \<open>shutdown\<close> tells
  whether the token was cancelled before \<open>serve\<close>, the result of the server. It returns the lines it logs.
\<close>

definition metrics_task :: "io_error + unit \<Rightarrow> bool \<Rightarrow> string + unit \<Rightarrow> string list option" where
  "metrics_task bind shutdown serve =
     (case bind of
        Err _ \<Rightarrow> None
      | Ok _ \<Rightarrow> Some ((if shutdown then [''Prometheus service shutting down''] else [])
          @ (case serve of Err err \<Rightarrow> [''metrics service exited with error err='' @ err] | Ok _ \<Rightarrow> [])))"

section \<open>Uses of the statics\<close>

datatype metric_use = Use_active | Use_messages | Use_errors

fun use_metric :: "metric_use \<Rightarrow> metrics_state \<Rightarrow> (metric \<times> metrics_state) option" where
  "use_metric Use_active s = OCYPODE_ACTIVE_CONNECTIONS s"
| "use_metric Use_messages s = OCYPODE_MESSAGES_TOTAL s"
| "use_metric Use_errors s = OCYPODE_ERRORS_TOTAL s"

fun use_metrics :: "metric_use list \<Rightarrow> metrics_state \<Rightarrow> (metric list \<times> metrics_state) option" where
  "use_metrics [] s = Some ([], s)"
| "use_metrics (u # us) s =
     Option.bind (use_metric u s) (\<lambda>(m, s1). map_option (\<lambda>(ms, s2). (m # ms, s2)) (use_metrics us s1))"

fun metric_of :: "metric_use \<Rightarrow> metric" where
  "metric_of Use_active = Gauge ''ocypode_active_connections''"
| "metric_of Use_messages = Counter ''ocypode_messages_total''"
| "metric_of Use_errors = Counter ''ocypode_errors_total''"

fun cell_of :: "metric_use \<Rightarrow> metrics_state \<Rightarrow> metric option" where
  "cell_of Use_active s = ACTIVE_CONNECTIONS s"
| "cell_of Use_messages s = MESSAGES_TOTAL s"
| "cell_of Use_errors s = ERRORS_TOTAL s"

text \<open>A name is registered, once, exactly when its cell is filled, and then with its own metric.\<close>

definition metrics_inv :: "metrics_state \<Rightarrow> bool" where
  "metrics_inv s \<longleftrightarrow> distinct (default_registry s)
     \<and> (\<forall>u. cell_of u s \<in> {None, Some (metric_of u)}
          \<and> (metric_name (metric_of u) \<in> set (default_registry s) \<longleftrightarrow> cell_of u s \<noteq> None))"

lemma metric_names_distinct: "metric_name (metric_of u) = metric_name (metric_of v) \<longleftrightarrow> u = v"
  by (cases u; cases v) simp_all

lemma use_metric_result:
  assumes "force (cell_of u s) (metric_of u) (default_registry s) = Some (v, r)"
  shows "\<exists>s1. use_metric u s = Some (v, s1) \<and> default_registry s1 = r
    \<and> (\<forall>w. cell_of w s1 = (if w = u then Some v else cell_of w s))"
proof -
  have "(\<forall>w. Q w) \<longleftrightarrow> Q Use_active \<and> Q Use_messages \<and> Q Use_errors" for Q
    by (metis metric_use.exhaust)
  with assms show ?thesis
    by (cases u) (simp_all add: OCYPODE_ACTIVE_CONNECTIONS_def OCYPODE_MESSAGES_TOTAL_def OCYPODE_ERRORS_TOTAL_def)
qed

lemma use_metric_ok:
  assumes "metrics_inv s"
  shows "\<exists>s1. use_metric u s = Some (metric_of u, s1) \<and> metrics_inv s1
    \<and> set (default_registry s1) = insert (metric_name (metric_of u)) (set (default_registry s))"
proof (cases "cell_of u s")
  case None
  let ?n = "metric_name (metric_of u)" and ?r = "default_registry s"
  have n: "?n \<notin> set ?r" using assms None by (auto simp: metrics_inv_def)
  then have "force (cell_of u s) (metric_of u) ?r = Some (metric_of u, ?r @ [?n])"
    using None by (simp add: force_def register_def)
  from use_metric_result [OF this] obtain s1 where s1: "use_metric u s = Some (metric_of u, s1)"
    "default_registry s1 = ?r @ [?n]" "\<And>w. cell_of w s1 = (if w = u then Some (metric_of u) else cell_of w s)" by blast
  moreover have "metrics_inv s1"
    using assms n unfolding metrics_inv_def s1(2,3) by (auto simp: metric_names_distinct)
  ultimately show ?thesis by auto
next
  case (Some v)
  have v: "v = metric_of u" "metric_name (metric_of u) \<in> set (default_registry s)"
    using assms Some unfolding metrics_inv_def by fastforce+
  have "force (cell_of u s) (metric_of u) (default_registry s) = Some (metric_of u, default_registry s)"
    using Some v(1) by (simp add: force_def)
  from use_metric_result [OF this] obtain s1 where s1: "use_metric u s = Some (metric_of u, s1)"
    "default_registry s1 = default_registry s"
    "\<And>w. cell_of w s1 = (if w = u then Some (metric_of u) else cell_of w s)" by blast
  moreover have "metrics_inv s1"
    using assms v Some unfolding metrics_inv_def s1(2,3) by auto
  ultimately show ?thesis using v(2) by (auto simp: insert_absorb)
qed

text \<open>
  However often and in whatever order the three metrics are used, no use panics, every use gives
  the metric of its static, and each name is in the registry exactly once when the metric has been
  used and not at all otherwise.
\<close>

theorem metrics_register_once:
  "\<exists>s. use_metrics us metrics_init = Some (map metric_of us, s)
    \<and> distinct (default_registry s)
    \<and> set (default_registry s) = (metric_name \<circ> metric_of) ` set us"
proof -
  have "\<exists>s. use_metrics us s0 = Some (map metric_of us, s) \<and> metrics_inv s
      \<and> set (default_registry s) = (metric_name \<circ> metric_of) ` set us \<union> set (default_registry s0)"
    if "metrics_inv s0" for s0
    using that
  proof (induction us arbitrary: s0)
    case (Cons u us)
    from use_metric_ok [OF Cons.prems, of u] obtain s1 where s1: "use_metric u s0 = Some (metric_of u, s1)"
      "metrics_inv s1" "set (default_registry s1) = insert (metric_name (metric_of u)) (set (default_registry s0))"
      by blast
    from Cons.IH [OF s1(2)] s1 show ?case by auto
  qed simp
  moreover have "metrics_inv metrics_init"
  proof -
    have "cell_of u metrics_init = None" for u by (cases u) (simp_all add: metrics_init_def)
    then show ?thesis by (simp add: metrics_inv_def) (simp add: metrics_init_def)
  qed
  ultimately show ?thesis by (fastforce simp: metrics_inv_def metrics_init_def)
qed

end
