(* ===== verification/Boot.thy ===== *)
theory Boot
  imports Quic Logger Metrics
begin

text \<open>
  Start-up: \<open>crates/server/src/main.rs\<close>, the health service of \<open>grpc.rs\<close> and the start of the metrics
  service of \<open>metrics.rs\<close>. Each definition returns the actions it takes, in order; \<open>None\<close> is a panic. The
  standard library's address parser and printer, the sockets, the thread builder and the signal are
  arguments.
\<close>

text \<open>\<open>tonic_health::ServingStatus\<close>, and the number the health protocol gives it.\<close>

datatype ServingStatus = ServingStatus_Unknown | ServingStatus_Serving | ServingStatus_NotServing

fun ServingStatus_as_i32 :: "ServingStatus \<Rightarrow> int" where
  "ServingStatus_as_i32 ServingStatus_Unknown = 0"
| "ServingStatus_as_i32 ServingStatus_Serving = 1"
| "ServingStatus_as_i32 ServingStatus_NotServing = 2"

datatype boot_action =
    LogLine string
  | InitLogger logging
  | HealthStatus string ServingStatus
  | GrpcListening string
  | MetricsListening string
  | QuicListening string

section \<open>Metrics\<close>

text \<open>
  \<open>METRICS_SERVICE_LISTEN_ADDR\<close> is the state: a \<open>OnceLock\<close>, empty until the first \<open>get_or_init\<close>
  runs its initialiser.
\<close>

definition boot_metrics_service :: "string \<Rightarrow> string option \<Rightarrow> boot_action list \<times> string option" where
  "boot_metrics_service listen_addr lock =
     (let (actions, current) =
        (case lock of
           None \<Rightarrow> ([LogLine (''Prometheus listening to '' @ listen_addr), MetricsListening listen_addr], listen_addr)
         | Some addr \<Rightarrow> ([], addr))
      in (actions @ (if listen_addr \<noteq> current
            then [LogLine (''unable to listen port '' @ listen_addr
                @ '' for metrics service. Currently listening on '' @ current)]
            else []),
          Some current))"

fun boot_metrics_all :: "string list \<Rightarrow> string option \<Rightarrow> boot_action list \<times> string option" where
  "boot_metrics_all [] lock = ([], lock)"
| "boot_metrics_all (addr # addrs) lock =
     (let (as1, lock1) = boot_metrics_service addr lock; (as2, lock2) = boot_metrics_all addrs lock1
      in (as1 @ as2, lock2))"

section \<open>gRPC health service\<close>

definition grpc_serve ::
    "(string \<Rightarrow> 'a option) \<Rightarrow> ('a \<Rightarrow> string) \<Rightarrow> ('a \<Rightarrow> io_error + 'l) \<Rightarrow> ('l \<Rightarrow> io_error + 'a) \<Rightarrow> GrpcConfig
      \<Rightarrow> ('a \<times> boot_action list) option" where
  "grpc_serve parse show_addr bind_tcp local_addr config =
     (case GrpcConfig_socket_addr parse config of
        None \<Rightarrow> None
      | Some addr \<Rightarrow>
          (case bind_tcp addr of
             Err _ \<Rightarrow> None
           | Ok listener \<Rightarrow>
               (case local_addr listener of
                  Err _ \<Rightarrow> None
                | Ok listen_addr \<Rightarrow>
                    Some (listen_addr, [HealthStatus ''ocypode-service'' ServingStatus_Serving,
                      GrpcListening (show_addr listen_addr),
                      LogLine (''Ocypode gRPC server listening to '' @ show_addr listen_addr)]))))"

text \<open>What \<open>tokio::select!\<close> finds ready first in the spawned task, and the line the task logs.\<close>

datatype grpc_event = GrpcResponse "string + unit" | GrpcShutdown

fun grpc_task :: "grpc_event \<Rightarrow> string list" where
  "grpc_task (GrpcResponse (Err e)) = [''Ocypose gRPC server error: '' @ e]"
| "grpc_task (GrpcResponse (Ok _)) = []"
| "grpc_task GrpcShutdown = [''Ocypose gRPC server received shutdown signal'']"

text \<open>
  The health check of \<open>crates/server/tests/grpc_tests.rs\<close>: the service answers with the status set last for
  the name; the test expects the number 1.
\<close>

fun health_check :: "string \<Rightarrow> boot_action list \<Rightarrow> ServingStatus option" where
  "health_check service [] = None"
| "health_check service (HealthStatus name status # as) =
     (case health_check service as of
        Some s \<Rightarrow> Some s
      | None \<Rightarrow> if name = service then Some status else None)"
| "health_check service (_ # as) = health_check service as"

definition test_grpc_health_check ::
    "(string \<Rightarrow> 'a option) \<Rightarrow> ('a \<Rightarrow> string) \<Rightarrow> ('a \<Rightarrow> io_error + 'l) \<Rightarrow> ('l \<Rightarrow> io_error + 'a) \<Rightarrow> bool" where
  "test_grpc_health_check parse show_addr bind_tcp local_addr \<longleftrightarrow>
     asserting (grpc_serve parse show_addr bind_tcp local_addr \<lparr>grpc_listen_addr = ''127.0.0.1:0''\<rparr>)
       (\<lambda>(listen_addr, actions). asserting (health_check ''ocypode-service'' actions)
         (\<lambda>status. ServingStatus_as_i32 status = 1))"

section \<open>main\<close>

text \<open>\<open>ctrl_c\<close> is the outcome of waiting for the signal.\<close>

definition main_with ::
    "(string \<Rightarrow> io_error + unit) \<Rightarrow> (string \<Rightarrow> 'a option) \<Rightarrow> ('a \<Rightarrow> string) \<Rightarrow> ('a \<Rightarrow> io_error + 'l)
      \<Rightarrow> ('l \<Rightarrow> io_error + 'a) \<Rightarrow> ('a, 'h) s2n_quic \<Rightarrow> (string \<Rightarrow> io_error + bool) \<Rightarrow> io_error + unit \<Rightarrow> ServerConfig
      \<Rightarrow> ((start_error + unit) \<times> boot_action list) option" where
  "main_with spawn parse show_addr bind_tcp local_addr q try_exists ctrl_c config =
     (case init_ocypode_logger spawn (config_logger config) no_logging of
        (Err _, _) \<Rightarrow> None
      | (Ok _, logging) \<Rightarrow>
          (let as1 = [InitLogger logging, LogLine ''Starting ocypode-server'']
           in case grpc_serve parse show_addr bind_tcp local_addr (config_grpc config) of
                None \<Rightarrow> None
              | Some (_, as2) \<Rightarrow>
                  (let as3 = (if metrics_level (config_metrics config) > Disabled
                       then fst (boot_metrics_service (metrics_listen_addr (config_metrics config)) None)
                       else [])
                   in case quic_start q parse try_exists config of
                        None \<Rightarrow> None
                      | Some (Err e) \<Rightarrow> Some (Err e, as1 @ as2 @ as3)
                      | Some (Ok (addr, server, auth)) \<Rightarrow>
                          Some (map_err Boxed_io ctrl_c, as1 @ as2 @ as3
                            @ [QuicListening (show_addr addr),
                               LogLine (''Ocypode server listening to '' @ show_addr addr),
                               LogLine (''QUIC server listening on '' @ show_addr addr),
                               LogLine ''Server is ready'']))))"

definition main_server where
  "main_server spawn parse show_addr bind_tcp local_addr q try_exists ctrl_c =
     main_with spawn parse show_addr bind_tcp local_addr q try_exists ctrl_c ServerConfig_new"

section \<open>Lemmas\<close>

lemma grpc_serve_actions:
  "grpc_serve parse show_addr bind_tcp local_addr config = Some (a, as) \<Longrightarrow>
     as = [HealthStatus ''ocypode-service'' ServingStatus_Serving, GrpcListening (show_addr a), LogLine (''Ocypode gRPC server listening to '' @ show_addr a)]"
  by (auto simp: grpc_serve_def split: option.splits sum.splits)

lemma default_logging:
  "init_ocypode_logger spawn (config_logger ServerConfig_new) no_logging =
     (Ok (), \<lparr>global_default = Some [Fmt_layer False (with_default LF_INFO Targets_new)], spawned_threads = []\<rparr>)"
  by (simp add: init_default_logger no_logging_def ServerConfig_new_def LoggerConfig_default_def LoggerConfig_new_def)

lemma grpc_test_passes:
  "grpc_serve parse show_addr bind_tcp local_addr \<lparr>grpc_listen_addr = ''127.0.0.1:0''\<rparr> \<noteq> None \<Longrightarrow>
     test_grpc_health_check parse show_addr bind_tcp local_addr"
  using grpc_serve_actions by (fastforce simp: test_grpc_health_check_def)

lemma boot_metrics_service_None:
  "boot_metrics_service addr None =
     ([LogLine (''Prometheus listening to '' @ addr), MetricsListening addr], Some addr)"
  by (simp add: boot_metrics_service_def)

lemma boot_metrics_service_Some:
  "boot_metrics_service addr (Some a) = ((if addr \<noteq> a then
     [LogLine (''unable to listen port '' @ addr @ '' for metrics service. Currently listening on '' @ a)] else []), Some a)"
  by (simp add: boot_metrics_service_def)

lemma boot_metrics_all_Some:
  "boot_metrics_all addrs (Some a) =
     (map (\<lambda>addr. LogLine (''unable to listen port '' @ addr @ '' for metrics service. Currently listening on '' @ a))
        (filter (\<lambda>addr. addr \<noteq> a) addrs), Some a)"
  by (induction addrs) (auto simp: boot_metrics_service_Some)

end
