(* ===== verification/Server_Properties.thy ===== *)
theory Server_Properties
  imports Boot Session_Properties
begin

text \<open>
  Properties of the server around the connections: identifiers across streams, the start of the
  endpoint, the accept loops, and the metrics service.
\<close>

text \<open>
  Every stream of the process is greeted with its own client identifier. Among any number of
  streams below \<open>2 ^ 64\<close>, whatever the runtime does on each, the INFO messages that get sent carry
  pairwise different, non-zero identifiers, together with the configured server data.
\<close>

theorem streams_greeted_with_unique_ids:
  assumes "length streams < 2 ^ 64" and "j < k" and "k < length streams"
    and "(results, counter) = serve_streams io open_transport config auth streams CLIENT_ID_COUNTER_init"
    and "Sent (OutboundMessage_Info info1) \<in> set (task_events (results ! j))"
    and "Sent (OutboundMessage_Info info2) \<in> set (task_events (results ! k))"
  shows "info_client_id info1 \<noteq> info_client_id info2
    \<and> info_client_id info1 \<noteq> 0 \<and> info_client_id info2 \<noteq> 0
    \<and> info_requires_auth info1 = config_requires_auth config \<and> info_max_payload info1 = 1048576"
proof -
  have r: "results ! i = fst (stream_task io open_transport config auth (streams ! i) (1 + of_nat i))"
    if "i < length streams" for i
    using serve_streams_nth [of io open_transport config auth streams 1] assms(4) that
    by (simp add: CLIENT_ID_COUNTER_init_def) (metis fst_conv)
  have i1: "info1 = connection_info (ClientId (1 + of_nat j)) config"
    using stream_task_sent assms(2,3,5) r [of j] by (metis order.strict_trans)
  have i2: "info2 = connection_info (ClientId (1 + of_nat k)) config"
    using stream_task_sent assms(3,6) r [of k] by metis
  have v: "unat (1 + of_nat i :: u64) = Suc i" if "i < length streams" for i
  proof -
    have "Suc i < 2 ^ 64" using that assms(1) by simp
    then show ?thesis by (simp flip: of_nat_Suc add: unat_of_nat)
  qed
  have "(1 + of_nat j :: u64) \<noteq> 1 + of_nat k" "(1 + of_nat j :: u64) \<noteq> 0" "(1 + of_nat k :: u64) \<noteq> 0"
    using v [of j] v [of k] assms(2,3) by auto
  then show ?thesis
    unfolding i1 i2 by (simp add: connection_info_def ServerOutbound_info_def MAXIMUM_PAYLOAD_BYTES_def)
qed

lemma sample_streams_sent:
  assumes "k < length sts" and "\<forall>st \<in> set sts. st = sample_state"
  shows "Sent (OutboundMessage_Info (connection_info (ClientId (n + of_nat k)) ServerConfig_new)) \<in>
    set (task_events (fst (serve_streams (tokio_connection wire_prost) (\<lambda>st r w c. st) ServerConfig_new
      NoAuthAuthenticator sts n) ! k))"
proof -
  let ?c = "\<lparr>client_id = ClientId (n + of_nat k), client_io = sample_state,
      authenticator = NoAuthAuthenticator, client_config = ServerConfig_new\<rparr>"
  have "tk_receiver_alive sample_state" "tk_latency_ms sample_state = 5"
    by (simp_all add: sample_state_def)
  then have "tokio_outcome wire_prost ?c = (Ok (), [Sent (OutboundMessage_Info (client_info ?c)),
      Logged (established_line (client_id ?c)),
      Dispatched (Frame_UnSubscribe \<lparr>unsubscribe_subscription_id = 42\<rparr>)])"
    by (simp add: tokio_outcome_def connection_outcome_def sample_items
        NoAuthAuthenticator_def default_connect_timeout)
  then obtain s where "Client_run (tokio_connection wire_prost) ?c = Some (Ok (),
      [Sent (OutboundMessage_Info (client_info ?c)), Logged (established_line (client_id ?c)),
      Dispatched (Frame_UnSubscribe \<lparr>unsubscribe_subscription_id = 42\<rparr>)], s)"
    using Client_run_tokio [of wire_prost ?c] by auto
  moreover have "outbound_channel_capacity (config_quic ServerConfig_new) \<noteq> 0"
    by (simp add: ServerConfig_new_def QuicConfig_default_def QUIC_OUTBOUND_CHANNEL_CAPACITY_def)
  moreover have "sts ! k = sample_state" using assms by simp
  ultimately show ?thesis
    using serve_streams_nth [of "tokio_connection wire_prost" "\<lambda>st r w c. st" ServerConfig_new NoAuthAuthenticator sts n]
      assms(1)
    by (simp add: stream_task_def handle_bidirectional_stream_def Client_new_def ClientId_new_def Let_def)
qed

theorem streams_greeted_with_unique_ids_witness:
  "\<exists>info1 info2. (let results = fst (serve_streams (tokio_connection wire_prost) (\<lambda>st r w c. st)
        ServerConfig_new NoAuthAuthenticator [sample_state, sample_state] CLIENT_ID_COUNTER_init) in
      Sent (OutboundMessage_Info info1) \<in> set (task_events (results ! 0))
    \<and> Sent (OutboundMessage_Info info2) \<in> set (task_events (results ! 1)))
    \<and> info_client_id info1 \<noteq> info_client_id info2"
proof -
  let ?run = "serve_streams (tokio_connection wire_prost) (\<lambda>st r w c. st) ServerConfig_new
      NoAuthAuthenticator [sample_state, sample_state] CLIENT_ID_COUNTER_init"
  have s: "Sent (OutboundMessage_Info (connection_info (ClientId (1 + of_nat k)) ServerConfig_new))
      \<in> set (task_events (fst ?run ! k))" if "k < 2" for k
    using sample_streams_sent [of k "[sample_state, sample_state]" 1] that
    by (simp add: CLIENT_ID_COUNTER_init_def del: serve_streams.simps)
  have "info_client_id (connection_info (ClientId (1 + of_nat 0)) ServerConfig_new)
      \<noteq> info_client_id (connection_info (ClientId (1 + of_nat 1)) ServerConfig_new)"
    by (rule streams_greeted_with_unique_ids [OF _ _ _ prod.collapse s s, THEN conjunct1]) simp_all
  with s [of 0] s [of 1] show ?thesis unfolding Let_def by (metis one_less_numeral_iff zero_less_numeral semiring_norm(76))
qed

text \<open>A QUIC library whose calls all succeed, on strings for its objects.\<close>

definition sample_quic :: "(string, string) s2n_quic" where
  "sample_quic = \<lparr>io_with_receive_address = Ok, io_with_gso = (\<lambda>b. Ok), io_with_gro = (\<lambda>b. Ok), io_build = Ok,
     limits_with_inflight_handshake_limit = (\<lambda>n. Ok ''limits''), limits_build = Ok, limits_default = ''limits'',
     tls_with_certificate = (\<lambda>c k. Ok (c @ k)), tls_with_client_authentication = (\<lambda>b. Ok (b @ ''+mtls'')),
     tls_build = Ok, server_with_tls = Ok, server_with_io = (\<lambda>i. Ok), server_with_endpoint_limits = (\<lambda>l. Ok),
     server_start = Ok, server_local_addr = (\<lambda>s. Ok ''127.0.0.1:4433'')\<rparr>"

lemma sample_quic_start:
  "quic_start sample_quic Some (\<lambda>p. Ok True) (ServerConfig_new\<lparr>config_requires_auth := True\<rparr>)
     = Some (Ok (''127.0.0.1:4433'', ''crates/certs/server.crtcrates/certs/key.pem'', NoAuthAuthenticator))"
  by (simp add: quic_start_def QuicConfig_socket_addr_def start_io_def start_limits_def start_tls_def
      cert_file_path_def key_file_path_def boxed_def sample_quic_def ServerConfig_new_def
      QuicConfig_default_def TLSConfig_default_def)

text \<open>
  C36: An authentication requirement in the configuration is advertised but not enforced: over the
  authenticator the endpoint installs, a CONNECT of any version and with any or no credentials is
  accepted, on a server whose INFO message says that authentication is required.
\<close>

theorem advertised_auth_not_enforced:
  assumes "quic_start q parse try_exists config = Some (Ok (addr, server, auth))"
    and "config_requires_auth config" and "0 < outbound_channel_capacity (config_quic config)"
    and "tk_receiver_alive st" and "tk_latency_ms st < unat (connect_timeout (config_quic config))"
    and "tokio_items P st = Ok (Frame_Connect m) # xs"
  shows "\<exists>r info ev. fst (handle_bidirectional_stream (tokio_connection P) (\<lambda>t a b c. t) st config auth n)
      = Finished r (Sent (OutboundMessage_Info info) # Logged (established_line (ClientId n)) # ev)
    \<and> info_requires_auth info"
proof -
  have auth: "auth = NoAuthAuthenticator"
    using assms(1) by (auto simp: quic_start_def result_simps split: option.splits)
  let ?c = "\<lparr>client_id = ClientId n, client_io = st, authenticator = auth, client_config = config\<rparr>"
  obtain s where "Client_run (tokio_connection P) ?c = Some (fst (tokio_outcome P ?c), snd (tokio_outcome P ?c), s)"
    using Client_run_tokio [of P ?c] by blast
  moreover have "\<exists>ev. snd (tokio_outcome P ?c) = Sent (OutboundMessage_Info (client_info ?c))
      # Logged (established_line (ClientId n)) # ev"
    using assms(4-6) auth
    by (simp add: tokio_outcome_def connection_outcome_def NoAuthAuthenticator_def case_prod_beta Let_def)
  moreover have "info_requires_auth (client_info ?c)"
    using assms(2) by (simp add: connection_info_def ServerOutbound_info_def)
  ultimately show ?thesis
    using assms(3) by (auto simp: handle_bidirectional_stream_def Client_new_def ClientId_new_def Let_def)
qed

theorem advertised_auth_not_enforced_witness:
  "\<exists>r info ev. fst (handle_bidirectional_stream (tokio_connection wire_prost) (\<lambda>t a b c. t) sample_state
        (ServerConfig_new\<lparr>config_requires_auth := True\<rparr>) NoAuthAuthenticator 7)
      = Finished r (Sent (OutboundMessage_Info info) # Logged (established_line (ClientId 7)) # ev)
    \<and> info_requires_auth info"
proof (rule advertised_auth_not_enforced [OF sample_quic_start _ _ _ _ sample_items])
  show "0 < outbound_channel_capacity (config_quic (ServerConfig_new\<lparr>config_requires_auth := True\<rparr>))"
    by (simp add: ServerConfig_new_def QuicConfig_default_def QUIC_OUTBOUND_CHANNEL_CAPACITY_def)
  show "tk_latency_ms sample_state
      < unat (connect_timeout (config_quic (ServerConfig_new\<lparr>config_requires_auth := True\<rparr>)))"
    using default_connect_timeout by (simp add: sample_state_def)
qed (simp_all add: sample_state_def)

text \<open>
  C37: The endpoint starts only with its files in place. If \<open>start\<close> succeeds, the certificate and the
  key file exist, the TLS provider was built from exactly these two paths, and it was asked for
  client certificates exactly when \<open>tls_verify\<close> is set; the authenticator is the one that accepts
  everybody.
\<close>

theorem quic_start_requirements:
  assumes "quic_start q parse try_exists config = Some (Ok (addr, server, auth))"
  shows "let tls = quic_tls (config_quic config) in
    parse (quic_listen_addr (config_quic config)) \<noteq> None
    \<and> try_exists (tls_cert_file_path tls) = Ok True \<and> try_exists (tls_key_file_path tls) = Ok True
    \<and> (\<exists>b0 b1 t. tls_with_certificate q (tls_cert_file_path tls) (tls_key_file_path tls) = Ok b0
        \<and> (if config_tls_verify config then tls_with_client_authentication q b0 = Ok b1 else b1 = b0)
        \<and> tls_build q b1 = Ok t \<and> (\<exists>b. server_with_tls q t = Ok b))
    \<and> auth = NoAuthAuthenticator"
proof -
  from assms obtain t b where "start_tls q try_exists config = Ok t" "server_with_tls q t = Ok b"
    "parse (quic_listen_addr (config_quic config)) \<noteq> None" "auth = NoAuthAuthenticator"
    by (auto simp: quic_start_def QuicConfig_socket_addr_def result_simps split: option.splits)
  then show ?thesis unfolding start_tls_ok_iff Let_def by blast
qed

theorem quic_start_requirements_witness:
  "\<exists>b0 t b. tls_with_certificate sample_quic ''crates/certs/server.crt'' ''crates/certs/key.pem'' = Ok b0
     \<and> tls_build sample_quic b0 = Ok t \<and> server_with_tls sample_quic t = Ok b"
  using quic_start_requirements [OF sample_quic_start]
  by (auto simp: Let_def ServerConfig_new_def QuicConfig_default_def TLSConfig_default_def)

text \<open>
  The accept loop spawns one task per connection that arrives before the shutdown signal or the
  end of the endpoint, in the order of arrival, and ends exactly when one of the two comes.
\<close>

theorem accept_loop_until_stop:
  "accept_loop es =
     ([c. Incoming (Some c) \<leftarrow> takeWhile (\<lambda>e. e \<noteq> Cancelled \<and> e \<noteq> Incoming None) es],
      Cancelled \<in> set es \<or> Incoming None \<in> set es)"
  by (induction es rule: accept_loop.induct) auto

text \<open>
  The metrics service is bound at most once per process, to the address of the first request;
  every later request for another address is answered with a warning that names both, and does
  not bind.
\<close>

theorem metrics_first_address_wins:
  "boot_metrics_all (a # addrs) None =
     ([LogLine (''Prometheus listening to '' @ a), MetricsListening a]
        @ map (\<lambda>b. LogLine (''unable to listen port '' @ b @ '' for metrics service. Currently listening on '' @ a))
            (filter (\<lambda>b. b \<noteq> a) addrs),
      Some a)"
  by (simp add: boot_metrics_service_None boot_metrics_all_Some)



end
