(* ===== verification/Tasks.thy ===== *)
theory Tasks
  imports Session
begin

text \<open>
  The two tasks of one connection running concurrently: the task of \<open>Client::run\<close>, which owns the
  sender of the outbound channel, and the writer task, which owns the receiver. A step of the
  system is what one task does between two points where it can be suspended; the scheduler may
  choose any enabled step. The channel is the bounded FIFO that the runtime documents: a send
  waits while it is full and fails when the receiver is gone, a receive waits while it is empty
  and a sender is alive.

  Finite runs and progress are proved once, in the locale \<open>measured_system\<close>, for systems whose
  steps decrease a measure, and used for the connection through its interpretation.
\<close>

section \<open>Systems that run down\<close>

locale measured_system =
  fixes step :: "'s \<Rightarrow> 's \<Rightarrow> bool"
    and inv :: "'s \<Rightarrow> bool"
    and final :: "'s \<Rightarrow> bool"
    and mu :: "'s \<Rightarrow> nat"
  assumes inv_step: "inv s \<Longrightarrow> step s t \<Longrightarrow> inv t"
    and mu_step: "inv s \<Longrightarrow> step s t \<Longrightarrow> mu t < mu s"
    and progress: "inv s \<Longrightarrow> \<not> final s \<Longrightarrow> \<exists>t. step s t"
begin

lemma inv_steps: "rtranclp step s t \<Longrightarrow> inv s \<Longrightarrow> inv t"
  by (induction rule: rtranclp_induct) (auto intro: inv_step)

lemma stuck_final: "rtranclp step s t \<Longrightarrow> inv s \<Longrightarrow> \<not> (\<exists>u. step t u) \<Longrightarrow> final t \<and> inv t"
  using inv_steps progress by blast

lemma no_infinite_run:
  assumes "inv (run 0)" and "\<forall>i. step (run i) (run (Suc i))"
  shows False
proof -
  have i: "inv (run n)" for n
    by (induction n) (use assms inv_step in auto)
  have "mu (run n) + n \<le> mu (run 0)" for n
  proof (induction n)
    case (Suc n)
    have "mu (run (Suc n)) < mu (run n)" using mu_step [OF i] assms(2) by blast
    with Suc show ?case by simp
  qed simp
  from this [of "Suc (mu (run 0))"] show False by simp
qed

lemma reaches_stuck: "inv s \<Longrightarrow> \<exists>t. rtranclp step s t \<and> \<not> (\<exists>u. step t u)"
proof (induction "mu s" arbitrary: s rule: less_induct)
  case less
  show ?case
  proof (cases "\<exists>t. step s t")
    case True
    then obtain t where t: "step s t" by blast
    with less obtain u where "rtranclp step t u" "\<not> (\<exists>v. step u v)"
      using inv_step mu_step by metis
    with t show ?thesis by (meson converse_rtranclp_into_rtranclp)
  qed blast
qed

end

section \<open>The system\<close>

text \<open>Where the writer task is: waiting in \<open>recv\<close>, draining with \<open>try_recv\<close>, flushing, or ended.\<close>

datatype writer_pc = At_Recv | At_Drain | At_Flush | Ended

record 'w connection_system =
  sys_phase :: phase
  sys_items :: "(ServerCodecError + Frame) list"
  sys_queue :: "OutboundMessage list"
  sys_pc :: writer_pc
  sys_out :: 'w
  sys_trace :: "event list"

definition sys_start :: "'w \<Rightarrow> (ServerCodecError + Frame) list \<Rightarrow> 'w connection_system" where
  "sys_start w items = \<lparr>sys_phase = Greeting, sys_items = items, sys_queue = [], sys_pc = At_Recv,
     sys_out = w, sys_trace = []\<rparr>"

abbreviation fresh_writer :: writer_state where
  "fresh_writer \<equiv> \<lparr>wr_arrivals = [], wr_buffer = [], wr_wire = []\<rparr>"

abbreviation sys_init :: "(ServerCodecError + Frame) list \<Rightarrow> writer_state connection_system" where
  "sys_init items \<equiv> sys_start fresh_writer items"

text \<open>
  The steps; \<open>io\<close> has the framed writer with the state \<open>sys_out\<close>, \<open>cap\<close> is the capacity of the channel.
  The steps of the first task are those of \<open>perform_handshake\<close> and of the dispatch loop, the others
  those of \<open>run_outbound_writer\<close>. Ending the first task drops the sender.
\<close>

inductive sys_step ::
    "'w writer_io \<Rightarrow> nat \<Rightarrow> Authenticator \<Rightarrow> ClientId \<Rightarrow> pb_Info \<Rightarrow> 'w connection_system \<Rightarrow> 'w connection_system \<Rightarrow> bool"
  for io cap auth cid info where
  sys_send: "sys_phase s = Greeting \<Longrightarrow> sys_pc s \<noteq> Ended \<Longrightarrow> length (sys_queue s) < cap \<Longrightarrow>
    sys_step io cap auth cid info s
      (s\<lparr>sys_phase := Waiting (PendingHandshake_new cid), sys_queue := sys_queue s @ [OutboundMessage_Info info],
         sys_trace := sys_trace s @ [Sent (OutboundMessage_Info info)]\<rparr>)"
| sys_send_fails: "sys_phase s = Greeting \<Longrightarrow> sys_pc s = Ended \<Longrightarrow>
    sys_step io cap auth cid info s
      (s\<lparr>sys_phase := Closed (Err (ClientError_from_send_error (OutboundMessage_Info info)))\<rparr>)"
| sys_timeout: "sys_phase s = Waiting p \<Longrightarrow>
    sys_step io cap auth cid info s (s\<lparr>sys_phase := Closed (Err (ClientError_Handshake ConnectTimeout))\<rparr>)"
| sys_refuse: "sys_phase s = Waiting p \<Longrightarrow>
    first_item_outcome p auth (case sys_items s of [] \<Rightarrow> None | x # xs \<Rightarrow> Some x) = Err e \<Longrightarrow>
    sys_step io cap auth cid info s
      (s\<lparr>sys_phase := Closed (Err e), sys_items := tl (sys_items s)\<rparr>)"
| sys_accept: "sys_phase s = Waiting p \<Longrightarrow>
    first_item_outcome p auth (case sys_items s of [] \<Rightarrow> None | x # xs \<Rightarrow> Some x) = Ok h \<Longrightarrow>
    sys_step io cap auth cid info s
      (s\<lparr>sys_phase := Serving h, sys_items := tl (sys_items s),
         sys_trace := sys_trace s @ [Logged (established_line (completed_client_id h))]\<rparr>)"
| sys_dispatch: "sys_phase s = Serving h \<Longrightarrow> sys_items s = Ok f # xs \<Longrightarrow>
    sys_step io cap auth cid info s
      (s\<lparr>sys_items := xs, sys_trace := sys_trace s @ Dispatched f # snd (dispatch_frame f h)\<rparr>)"
| sys_codec_error: "sys_phase s = Serving h \<Longrightarrow> sys_items s = Err e # xs \<Longrightarrow>
    sys_step io cap auth cid info s (s\<lparr>sys_phase := Closed (Err (ClientError_Codec e)), sys_items := xs\<rparr>)"
| sys_eof: "sys_phase s = Serving h \<Longrightarrow> sys_items s = [] \<Longrightarrow>
    sys_step io cap auth cid info s (s\<lparr>sys_phase := Closed (Ok ())\<rparr>)"
| wr_receive: "sys_pc s \<in> {At_Recv, At_Drain} \<Longrightarrow> sys_queue s = m # q \<Longrightarrow>
    sys_step io cap auth cid info s
      (s\<lparr>sys_queue := q, sys_pc := At_Drain,
         sys_out := snd (dispatch_outbound io m (sys_out s))\<rparr>)"
| wr_drained: "sys_pc s = At_Drain \<Longrightarrow> sys_queue s = [] \<Longrightarrow>
    sys_step io cap auth cid info s (s\<lparr>sys_pc := At_Flush\<rparr>)"
| wr_flush: "sys_pc s = At_Flush \<Longrightarrow>
    sys_step io cap auth cid info s
      (s\<lparr>sys_pc := At_Recv, sys_out := snd (framed_flush io (sys_out s))\<rparr>)"
| wr_end: "sys_pc s = At_Recv \<Longrightarrow> sys_queue s = [] \<Longrightarrow> sys_phase s = Closed r \<Longrightarrow>
    sys_step io cap auth cid info s (s\<lparr>sys_pc := Ended\<rparr>)"

section \<open>Invariant\<close>

text \<open>What the first task has done, given the items \<open>xs\<close> the reader had at the start.\<close>

fun reader_inv :: "Authenticator \<Rightarrow> ClientId \<Rightarrow> pb_Info \<Rightarrow> (ServerCodecError + Frame) list
    \<Rightarrow> phase \<Rightarrow> (ServerCodecError + Frame) list \<Rightarrow> event list \<Rightarrow> bool" where
  "reader_inv auth cid info xs Greeting items ev \<longleftrightarrow> items = xs \<and> ev = []"
| "reader_inv auth cid info xs (Waiting p) items ev \<longleftrightarrow>
     items = xs \<and> p = PendingHandshake_new cid \<and> ev = [Sent (OutboundMessage_Info info)]"
| "reader_inv auth cid info xs (Serving h) items ev \<longleftrightarrow>
     (\<exists>m fs. auth m = Accepted \<and> h = \<lparr>completed_client_id = cid, connect_info = m\<rparr>
        \<and> xs = Ok (Frame_Connect m) # map Ok fs @ items
        \<and> ev = [Sent (OutboundMessage_Info info), Logged (established_line cid)] @ dispatch_log cid fs)"
| "reader_inv auth cid info xs (Closed r) items ev \<longleftrightarrow>
     r = Err (ClientError_Handshake ConnectTimeout) \<and> ev = [Sent (OutboundMessage_Info info)]
     \<or> (r, ev) = connection_outcome auth cid info xs"

text \<open>Where the channel and the tasks can be, whatever the framed writer does.\<close>

definition channel_inv :: "nat \<Rightarrow> 'w connection_system \<Rightarrow> bool" where
  "channel_inv cap s \<longleftrightarrow> length (sys_queue s) \<le> cap
     \<and> (sys_phase s = Greeting \<longrightarrow> sys_queue s = [])
     \<and> (sys_pc s = Ended \<longrightarrow> sys_queue s = [] \<and> (\<exists>r. sys_phase s = Closed r))"

definition sys_inv :: "nat \<Rightarrow> Authenticator \<Rightarrow> ClientId \<Rightarrow> pb_Info
    \<Rightarrow> (ServerCodecError + Frame) list \<Rightarrow> 'w connection_system \<Rightarrow> bool" where
  "sys_inv cap auth cid info xs s \<longleftrightarrow>
     reader_inv auth cid info xs (sys_phase s) (sys_items s) (sys_trace s) \<and> channel_inv cap s"

text \<open>
  What the writer has done so far, by its contract \<open>channel_writer\<close>: the effect, since the state \<open>w\<close> it
  started in, of the messages that are no longer in the channel.
\<close>

definition writer_inv :: "('w \<Rightarrow> OutboundMessage list \<Rightarrow> 'w \<Rightarrow> bool) \<Rightarrow> ('w \<Rightarrow> bool) \<Rightarrow> 'w \<Rightarrow> pb_Info
    \<Rightarrow> 'w connection_system \<Rightarrow> bool" where
  "writer_inv effect settled w info s \<longleftrightarrow>
     (\<exists>ms. effect w ms (sys_out s)
        \<and> ms @ sys_queue s = (if sys_phase s = Greeting then [] else [OutboundMessage_Info info]))
     \<and> (sys_pc s \<in> {At_Recv, Ended} \<longrightarrow> settled (sys_out s))"

definition sys_final :: "'w connection_system \<Rightarrow> bool" where
  "sys_final s \<longleftrightarrow> sys_pc s = Ended"

fun phase_rank :: "phase \<Rightarrow> nat" where
  "phase_rank Greeting = 7"
| "phase_rank (Waiting p) = 3"
| "phase_rank (Serving h) = 2"
| "phase_rank (Closed r) = 0"

fun pc_rank :: "writer_pc \<Rightarrow> nat" where
  "pc_rank At_Recv = 1"
| "pc_rank At_Drain = 3"
| "pc_rank At_Flush = 2"
| "pc_rank Ended = 0"

definition sys_mu :: "'w connection_system \<Rightarrow> nat" where
  "sys_mu s = phase_rank (sys_phase s) + length (sys_items s) + 3 * length (sys_queue s) + pc_rank (sys_pc s)"

section \<open>Preservation and progress\<close>

lemma first_item_outcome_eq:
  "first_item_outcome (PendingHandshake_new cid) auth (case xs of [] \<Rightarrow> None | x # ys \<Rightarrow> Some x)
     = handshake_outcome auth cid xs"
  by (induction auth cid xs rule: handshake_outcome.induct)
    (auto simp: first_item_outcome_def on_connect_def split: AuthOutcome.splits)

lemma handshake_outcome_Ok:
  "handshake_outcome auth cid xs = Ok h \<longleftrightarrow>
     (\<exists>m ys. xs = Ok (Frame_Connect m) # ys \<and> auth m = Accepted
        \<and> h = \<lparr>completed_client_id = cid, connect_info = m\<rparr>)"
  by (induction auth cid xs rule: handshake_outcome.induct) (auto split: AuthOutcome.splits)

lemma serve_append: "serve (map Ok fs @ ys) = (fst (serve ys), fs @ snd (serve ys))"
  by (induction fs) (auto simp: case_prod_beta Let_def)

lemma connection_outcome_serving:
  assumes "auth m = Accepted" and "xs = Ok (Frame_Connect m) # map Ok fs @ ys"
  shows "connection_outcome auth cid info xs = (fst (serve ys),
    [Sent (OutboundMessage_Info info), Logged (established_line cid)] @ dispatch_log cid (fs @ snd (serve ys)))"
  using assms by (simp add: connection_outcome_def serve_append)

lemma reader_inv_step:
  assumes "sys_step io cap auth cid info s t" and "sys_pc s \<noteq> Ended \<or> sys_phase s \<noteq> Greeting"
    and "reader_inv auth cid info xs (sys_phase s) (sys_items s) (sys_trace s)"
  shows "reader_inv auth cid info xs (sys_phase t) (sys_items t) (sys_trace t)"
  using assms(1)
proof cases
  case (sys_refuse p e)
  then have "handshake_outcome auth cid xs = Err e"
    using assms(3) by (simp add: first_item_outcome_eq)
  with sys_refuse assms(3) show ?thesis by (simp add: connection_outcome_def)
next
  case (sys_accept p h)
  then have "handshake_outcome auth cid xs = Ok h"
    using assms(3) by (simp add: first_item_outcome_eq)
  with sys_accept assms(3) show ?thesis by (auto simp: handshake_outcome_Ok intro!: exI [of _ "[]"])
next
  case (sys_dispatch h f ys)
  with assms(3) obtain m fs where m: "auth m = Accepted" "h = \<lparr>completed_client_id = cid, connect_info = m\<rparr>"
    "xs = Ok (Frame_Connect m) # map Ok fs @ Ok f # ys"
    "sys_trace s = [Sent (OutboundMessage_Info info), Logged (established_line cid)] @ dispatch_log cid fs"
    by auto
  have "Dispatched f # snd (dispatch_frame f h) = dispatch_log cid [f]"
    using dispatch_log_frame [of f h] m(2) by simp
  with sys_dispatch m show ?thesis
    by (auto simp: dispatch_log_append intro!: exI [of _ m] exI [of _ "fs @ [f]"])
next
  case (sys_codec_error h e ys)
  with assms(3) connection_outcome_serving [of auth _ xs _ "Err e # ys"] show ?thesis by auto
next
  case (sys_eof h)
  with assms(3) connection_outcome_serving [of auth _ xs _ "[]"] show ?thesis by auto
qed (use assms in auto)

lemma channel_inv_step:
  "sys_step io cap auth cid info s t \<Longrightarrow> channel_inv cap s \<Longrightarrow> channel_inv cap t"
  by (induction rule: sys_step.induct) (auto simp: channel_inv_def)

lemma sys_inv_step:
  assumes "sys_inv cap auth cid info xs s" and "sys_step io cap auth cid info s t"
  shows "sys_inv cap auth cid info xs t"
proof -
  have "sys_pc s \<noteq> Ended \<or> sys_phase s \<noteq> Greeting"
    using assms(1) by (auto simp: sys_inv_def channel_inv_def)
  then show ?thesis
    using assms(1) reader_inv_step [OF assms(2)] channel_inv_step [OF assms(2)] by (simp add: sys_inv_def)
qed

context channel_writer
begin

lemma writer_inv_step:
  assumes "sys_step io cap auth cid info s t" and "channel_inv cap s" and "writer_inv effect settled w info s"
  shows "writer_inv effect settled w info t"
  using assms(1)
proof cases
  case (wr_receive m q)
  obtain r v where d: "dispatch_outbound io m (sys_out s) = (r, v)" by fastforce
  from assms(3) obtain ms where "effect w ms (sys_out s)"
    "ms @ m # q = (if sys_phase s = Greeting then [] else [OutboundMessage_Info info])"
    using wr_receive by (auto simp: writer_inv_def)
  with effect_append [of w ms "sys_out s" "[m]" v] dispatch_effect [OF d] wr_receive d show ?thesis
    by (auto simp: writer_inv_def intro!: exI [of _ "ms @ [m]"])
next
  case wr_flush
  obtain r v where f: "framed_flush io (sys_out s) = (r, v)" by fastforce
  from assms(3) obtain ms where "effect w ms (sys_out s)"
    "ms @ sys_queue s = (if sys_phase s = Greeting then [] else [OutboundMessage_Info info])"
    by (auto simp: writer_inv_def)
  with effect_append [of w ms "sys_out s" "[]" v] flush_effect [OF f] wr_flush f show ?thesis
    by (auto simp: writer_inv_def)
qed (use assms(2,3) in \<open>auto simp: writer_inv_def channel_inv_def split: if_splits\<close>)

end

lemma sys_mu_step: "sys_step io cap auth cid info s t \<Longrightarrow> sys_mu t < sys_mu s"
  by (induction rule: sys_step.induct) (auto simp: sys_mu_def)

lemma sys_progress:
  assumes "0 < cap" and "sys_inv cap auth cid info xs s" and "\<not> sys_final s"
  shows "\<exists>t. sys_step io cap auth cid info s t"
proof (cases "sys_pc s")
  case At_Recv
  show ?thesis
  proof (cases "sys_queue s")
    case Nil
    show ?thesis
    proof (cases "sys_phase s")
      case Greeting
      show ?thesis
        by (rule exI, rule sys_send) (use At_Recv Nil Greeting assms(1) in simp_all)
    next
      case (Waiting p)
      then show ?thesis by (blast intro: sys_timeout)
    next
      case (Serving h)
      then show ?thesis
        by (cases "sys_items s"; cases "hd (sys_items s)") (auto intro: sys_dispatch sys_codec_error sys_eof)
    next
      case (Closed r)
      with At_Recv Nil show ?thesis by (blast intro: wr_end)
    qed
  next
    case (Cons m q)
    with At_Recv show ?thesis by (blast intro: wr_receive)
  qed
next
  case At_Drain
  then show ?thesis by (cases "sys_queue s") (blast intro: wr_receive wr_drained)+
next
  case At_Flush
  then show ?thesis by (blast intro: wr_flush)
next
  case Ended
  with assms(3) show ?thesis by (simp add: sys_final_def)
qed

lemma sys_inv_start: "sys_inv cap auth cid info xs (sys_start w xs)"
  by (simp add: sys_inv_def sys_start_def channel_inv_def)

text \<open>The capacity of a channel is positive: \<open>Client_new\<close> panics otherwise.\<close>

interpretation tasks: measured_system "sys_step io (Suc n) auth cid info"
    "sys_inv (Suc n) auth cid info xs" sys_final sys_mu for io n auth cid info xs
proof (unfold_locales, goal_cases)
  case (1 s t)
  then show ?case by (rule sys_inv_step)
next
  case (2 s t)
  then show ?case by (intro sys_mu_step)
next
  case (3 s)
  then show ?case by (intro sys_progress) simp_all
qed

lemma tasks_reachable:
  assumes "0 < cap" and "rtranclp (sys_step io cap auth cid info) (sys_start w xs) s"
  shows "sys_inv cap auth cid info xs s"
proof -
  obtain n where n: "cap = Suc n" using assms(1) by (cases cap) auto
  from tasks.inv_steps [OF assms(2) [unfolded n] sys_inv_start] show ?thesis by (simp add: n)
qed

lemma tasks_stuck:
  assumes "0 < cap" and "rtranclp (sys_step io cap auth cid info) (sys_start w xs) t"
    and "\<not> (\<exists>u. sys_step io cap auth cid info t u)"
  shows "sys_pc t = Ended \<and> sys_inv cap auth cid info xs t"
proof -
  obtain n where n: "cap = Suc n" using assms(1) by (cases cap) auto
  from tasks.stuck_final [OF assms(2) [unfolded n] sys_inv_start assms(3) [unfolded n]] show ?thesis
    by (simp add: n sys_final_def)
qed

context channel_writer
begin

lemma writer_reachable:
  assumes "0 < cap" and "rtranclp (sys_step io cap auth cid info) (sys_start w xs) s" and "settled w"
  shows "writer_inv effect settled w info s"
  using assms(2)
proof (induction rule: rtranclp_induct)
  case base
  then show ?case
    using assms(3) effect_none by (simp add: writer_inv_def sys_start_def)
next
  case (step s t)
  have "channel_inv cap s" using tasks_reachable [OF assms(1) step(1)] by (simp add: sys_inv_def)
  with step show ?case by (blast intro: writer_inv_step)
qed

end

text \<open>The writer of the documented runtime: everything it took from the channel is on the wire or in the buffer.\<close>

lemma tokio_writer_reachable:
  assumes "0 < cap" and "rtranclp (sys_step (tokio_writer P boundary) cap auth cid info) (sys_init xs) s"
  shows "wr_wire (sys_out s) @ wr_buffer (sys_out s) @ outbound_bytes (info_frame P) (sys_queue s)
      = (if sys_phase s = Greeting then [] else info_frame P info)"
    and "sys_pc s \<in> {At_Recv, Ended} \<Longrightarrow> wr_buffer (sys_out s) = []"
proof -
  note inv = tokio_out.writer_reachable [OF assms, simplified]
  then obtain ms where ms: "wr_wire (sys_out s) @ wr_buffer (sys_out s) = outbound_bytes (info_frame P) ms"
    "ms @ sys_queue s = (if sys_phase s = Greeting then [] else [OutboundMessage_Info info])"
    by (auto simp: writer_inv_def)
  then have "outbound_bytes (info_frame P) (ms @ sys_queue s)
      = (if sys_phase s = Greeting then [] else info_frame P info)" by simp
  with ms(1) show "wr_wire (sys_out s) @ wr_buffer (sys_out s) @ outbound_bytes (info_frame P) (sys_queue s)
      = (if sys_phase s = Greeting then [] else info_frame P info)"
    by (metis append.assoc outbound_bytes_simps(4))
  from inv show "sys_pc s \<in> {At_Recv, Ended} \<Longrightarrow> wr_buffer (sys_out s) = []" by (simp add: writer_inv_def)
qed

lemma connection_outcome_not_channel_closed:
  "fst (connection_outcome auth cid info xs) \<noteq> Err OutboundChannelClosed"
proof -
  have "fst (serve ys) \<noteq> Err OutboundChannelClosed" for ys
    by (induction ys rule: serve.induct) (auto simp: case_prod_beta Let_def)
  moreover have "handshake_outcome auth cid xs \<noteq> Err OutboundChannelClosed"
    by (induction auth cid xs rule: handshake_outcome.induct) (auto split: AuthOutcome.splits)
  ultimately show ?thesis by (auto simp: connection_outcome_def case_prod_beta Let_def split: sum.splits)
qed

end
