(* ===== verification/Tasks_Properties.thy ===== *)
theory Tasks_Properties
  imports Tasks Session_Properties
begin

text \<open>
  Properties of the two concurrent tasks of a connection, over all interleavings: an invariant of
  every reachable state, completion of every run, and agreement of completed runs with the
  sequential functions \<open>Client_run\<close> and \<open>run_outbound_writer\<close>.
\<close>

section \<open>Completion with any writer\<close>

lemma tasks_complete:
  assumes "0 < cap"
  shows "\<not> (\<exists>run. run 0 = sys_start w xs \<and> (\<forall>i. sys_step io cap auth cid info (run i) (run (Suc i))))"
    and "\<exists>t. rtranclp (sys_step io cap auth cid info) (sys_start w xs) t
         \<and> \<not> (\<exists>u. sys_step io cap auth cid info t u)"
    and "rtranclp (sys_step io cap auth cid info) (sys_start w xs) t
         \<and> \<not> (\<exists>u. sys_step io cap auth cid info t u) \<Longrightarrow>
         (\<exists>r. sys_phase t = Closed r
            \<and> (r = Err (ClientError_Handshake ConnectTimeout) \<and> sys_trace t = [Sent (OutboundMessage_Info info)]
               \<or> (r, sys_trace t) = connection_outcome auth cid info xs))
         \<and> sys_pc t = Ended \<and> sys_queue t = []"
proof -
  obtain n where n: "cap = Suc n" using assms by (cases cap) auto
  show "\<not> (\<exists>run. run 0 = sys_start w xs \<and> (\<forall>i. sys_step io cap auth cid info (run i) (run (Suc i))))"
    unfolding n using tasks.no_infinite_run [of n auth cid info xs _ io] sys_inv_start by metis
  show "\<exists>t. rtranclp (sys_step io cap auth cid info) (sys_start w xs) t
         \<and> \<not> (\<exists>u. sys_step io cap auth cid info t u)"
    unfolding n by (rule tasks.reaches_stuck [OF sys_inv_start])
  show "(\<exists>r. sys_phase t = Closed r
            \<and> (r = Err (ClientError_Handshake ConnectTimeout) \<and> sys_trace t = [Sent (OutboundMessage_Info info)]
               \<or> (r, sys_trace t) = connection_outcome auth cid info xs))
         \<and> sys_pc t = Ended \<and> sys_queue t = []"
    if "rtranclp (sys_step io cap auth cid info) (sys_start w xs) t
         \<and> \<not> (\<exists>u. sys_step io cap auth cid info t u)"
    using tasks_stuck [OF assms] that by (fastforce simp: sys_inv_def channel_inv_def)
qed

lemma channel_never_closed:
  assumes "0 < cap" and "rtranclp (sys_step io cap auth cid info) (sys_start w xs) s"
  shows "sys_phase s \<noteq> Closed (Err OutboundChannelClosed)"
proof
  assume "sys_phase s = Closed (Err OutboundChannelClosed)"
  with tasks_reachable [OF assms] have "(Err OutboundChannelClosed, sys_trace s) = connection_outcome auth cid info xs"
    by (simp add: sys_inv_def)
  with connection_outcome_not_channel_closed [of auth cid info xs] show False by (metis fst_conv)
qed

lemma dispatch_needs_connect:
  assumes "0 < cap" and "rtranclp (sys_step io cap auth cid info) (sys_start w xs) s" and "Dispatched f \<in> set (sys_trace s)"
  shows "\<exists>m ys. xs = Ok (Frame_Connect m) # ys \<and> auth m = Accepted"
proof -
  have "reader_inv auth cid info xs (sys_phase s) (sys_items s) (sys_trace s)"
    using tasks_reachable [OF assms(1,2)] by (simp add: sys_inv_def)
  with assms(3) show ?thesis
    by (cases "sys_phase s") (auto simp: connection_outcome_def handshake_outcome_Ok split: sum.splits)
qed

section \<open>Agreement with the sequential functions\<close>

text \<open>The first task, whatever the writer does.\<close>

lemma first_task_agrees:
  assumes "0 < outbound_channel_capacity (config_quic (client_config c))"
    and "0 < connect_timeout (config_quic (client_config c))" and "tk_receiver_alive (client_io c)"
    and "rtranclp (sys_step io (outbound_channel_capacity (config_quic (client_config c)))
        (authenticator c) (client_id c) (client_info c)) (sys_start w (tokio_items P (client_io c))) t"
    and "sys_pc t = Ended"
  shows "\<exists>r latency s. sys_phase t = Closed r \<and> r \<noteq> Err OutboundChannelClosed
    \<and> Client_run (tokio_connection P) (c\<lparr>client_io := (client_io c)\<lparr>tk_latency_ms := latency\<rparr>\<rparr>)
        = Some (r, sys_trace t, s)"
proof -
  let ?ms = "unat (connect_timeout (config_quic (client_config c)))"
  let ?c = "\<lambda>l. c\<lparr>client_io := (client_io c)\<lparr>tk_latency_ms := l\<rparr>\<rparr>"
  have inv: "sys_inv (outbound_channel_capacity (config_quic (client_config c))) (authenticator c) (client_id c)
      (client_info c) (tokio_items P (client_io c)) t"
    by (rule tasks_reachable [OF assms(1,4)])
  with assms(5) obtain r where r: "sys_phase t = Closed r" by (auto simp: sys_inv_def channel_inv_def)
  have pos: "0 < ?ms" using assms(2) by (simp add: unat_gt_0 word_gt_0)
  have out: "tokio_outcome P (?c l) = (if ?ms \<le> l
      then (Err (ClientError_Handshake ConnectTimeout), [Sent (OutboundMessage_Info (client_info c))])
      else connection_outcome (authenticator c) (client_id c) (client_info c) (tokio_items P (client_io c)))" for l
    using assms(3) by (simp add: tokio_outcome_def tokio_items_def)
  have "\<exists>l. tokio_outcome P (?c l) = (r, sys_trace t)"
  proof (cases "r = Err (ClientError_Handshake ConnectTimeout) \<and> sys_trace t = [Sent (OutboundMessage_Info (client_info c))]")
    case True
    then show ?thesis using out [of ?ms] by auto
  next
    case False
    with inv r have "(r, sys_trace t) = connection_outcome (authenticator c) (client_id c) (client_info c)
        (tokio_items P (client_io c))" by (auto simp: sys_inv_def)
    then show ?thesis using out [of 0] pos by auto
  qed
  then obtain l where "tokio_outcome P (?c l) = (r, sys_trace t)" by blast
  then have "\<exists>s. Client_run (tokio_connection P) (?c l) = Some (r, sys_trace t, s)"
    using Client_run_tokio [of P "?c l"] by auto
  moreover have "r \<noteq> Err OutboundChannelClosed"
    using channel_never_closed [OF assms(1,4)] r by auto
  ultimately show ?thesis using r by blast
qed

lemma tasks_agree_with_run:
  assumes "0 < outbound_channel_capacity (config_quic (client_config c))"
    and "0 < connect_timeout (config_quic (client_config c))" and "tk_receiver_alive (client_io c)"
    and "rtranclp (sys_step (tokio_writer P boundary) (outbound_channel_capacity (config_quic (client_config c)))
        (authenticator c) (client_id c) (client_info c)) (sys_init (tokio_items P (client_io c))) t"
    and "sys_pc t = Ended"
  shows "\<exists>r latency s w. sys_phase t = Closed r
    \<and> Client_run (tokio_connection P) (c\<lparr>client_io := (client_io c)\<lparr>tk_latency_ms := latency\<rparr>\<rparr>)
        = Some (r, sys_trace t, s)
    \<and> run_outbound_writer (tokio_writer P boundary)
        \<lparr>wr_arrivals = [[m. Sent m \<leftarrow> sys_trace t]], wr_buffer = [], wr_wire = []\<rparr> = Some w
    \<and> wr_wire w = wr_wire (sys_out t)"
proof -
  from first_task_agrees [OF assms] obtain r l s where r: "sys_phase t = Closed r" "r \<noteq> Err OutboundChannelClosed"
    and run: "Client_run (tokio_connection P) (c\<lparr>client_io := (client_io c)\<lparr>tk_latency_ms := l\<rparr>\<rparr>)
      = Some (r, sys_trace t, s)" by blast
  have "[m. Sent m \<leftarrow> sys_trace t] = [OutboundMessage_Info (client_info c)]"
    using Client_run_sent_info [OF run r(2)] by simp
  moreover have "wr_wire (sys_out t) = info_frame P (client_info c)"
    using tokio_writer_reachable [OF assms(1,4)] tasks_reachable [OF assms(1,4)] r assms(5)
    by (simp add: sys_inv_def channel_inv_def)
  ultimately show ?thesis
    using r run tokio_out.run_outbound_writer_total [of P boundary
        "\<lparr>wr_arrivals = [[m. Sent m \<leftarrow> sys_trace t]], wr_buffer = [], wr_wire = []\<rparr>"]
    by auto
qed

lemma default_channel_capacity: "outbound_channel_capacity (config_quic ServerConfig_new) = 1024"
  by (simp add: ServerConfig_new_def QuicConfig_default_def QUIC_OUTBOUND_CHANNEL_CAPACITY_def)

section \<open>Properties\<close>



text \<open>
  C10: Completion of the concurrent tasks. On a stream that ends, no schedule runs for ever, and every
  schedule that cannot go on has ended both tasks: the first with the timeout error or with the
  result and events that the items of the stream determine, the writer with exactly the INFO frame
  on the wire and nothing left in the channel or the buffer.
\<close>

theorem connection_tasks_complete:
  assumes "0 < cap"
  shows "\<not> (\<exists>run. run 0 = sys_init xs \<and> (\<forall>i. sys_step (tokio_writer P boundary) cap auth cid info (run i) (run (Suc i))))
    \<and> (\<exists>t. rtranclp (sys_step (tokio_writer P boundary) cap auth cid info) (sys_init xs) t
         \<and> \<not> (\<exists>u. sys_step (tokio_writer P boundary) cap auth cid info t u))
    \<and> (\<forall>t. rtranclp (sys_step (tokio_writer P boundary) cap auth cid info) (sys_init xs) t
         \<and> \<not> (\<exists>u. sys_step (tokio_writer P boundary) cap auth cid info t u) \<longrightarrow>
         (\<exists>r. sys_phase t = Closed r
            \<and> (r = Err (ClientError_Handshake ConnectTimeout) \<and> sys_trace t = [Sent (OutboundMessage_Info info)]
               \<or> (r, sys_trace t) = connection_outcome auth cid info xs))
         \<and> sys_pc t = Ended \<and> sys_queue t = [] \<and> wr_buffer (sys_out t) = []
         \<and> wr_wire (sys_out t) = snd (server_encode (Info_codec P) info []))"
proof (intro conjI allI impI)
  fix t
  assume t: "rtranclp (sys_step (tokio_writer P boundary) cap auth cid info) (sys_init xs) t
     \<and> \<not> (\<exists>u. sys_step (tokio_writer P boundary) cap auth cid info t u)"
  note c = tasks_complete(3) [OF assms t]
  then show "\<exists>r. sys_phase t = Closed r
        \<and> (r = Err (ClientError_Handshake ConnectTimeout) \<and> sys_trace t = [Sent (OutboundMessage_Info info)]
           \<or> (r, sys_trace t) = connection_outcome auth cid info xs)" and "sys_pc t = Ended" and "sys_queue t = []"
    by blast+
  show "wr_buffer (sys_out t) = []" "wr_wire (sys_out t) = snd (server_encode (Info_codec P) info [])"
    using tokio_writer_reachable [OF assms conjunct1 [OF t]] c by (auto simp: info_frame_def)
qed (rule tasks_complete(1,2) [OF assms])+

theorem connection_tasks_complete_witness:
  "\<exists>t. rtranclp (sys_step (tokio_writer wire_prost 8) 1 NoAuthAuthenticator (ClientId 7) Info_default) (sys_init []) t
     \<and> sys_pc t = Ended \<and> wr_wire (sys_out t) = [0, 0, 0, 0, 0]"
proof -
  have "Info_encode wire_prost Info_default = Ok []"
    by (simp add: wire_prost_def wire_encode_def Info_fields_def Info_default_def opt_defs encode_fields_def)
  then have "snd (server_encode (Info_codec wire_prost) Info_default []) = [0, 0, 0, 0, 0]"
    by (simp add: server_encode_def encode_payload_def codec_defs put_u32_def)
  with connection_tasks_complete [of 1 "[]" wire_prost 8 NoAuthAuthenticator "ClientId 7" Info_default]
  show ?thesis by auto
qed

text \<open>
  C9: The concurrent tasks refine the sequential functions. Whatever the interleaving, when both tasks
  have ended, the first has the result and the events that \<open>Client_run\<close> gives on the same stream for
  some arrival time of the first frame, and the wire holds what \<open>run_outbound_writer\<close> writes for the
  messages of these events.
\<close>

theorem connection_tasks_refine_run:
  assumes "0 < outbound_channel_capacity (config_quic (client_config c))"
    and "0 < connect_timeout (config_quic (client_config c))" and "tk_receiver_alive (client_io c)"
    and "rtranclp (sys_step (tokio_writer P boundary) (outbound_channel_capacity (config_quic (client_config c)))
        (authenticator c) (client_id c) (client_info c)) (sys_init (tokio_items P (client_io c))) t"
    and "sys_pc t = Ended"
  shows "\<exists>r latency s w. sys_phase t = Closed r
    \<and> Client_run (tokio_connection P) (c\<lparr>client_io := (client_io c)\<lparr>tk_latency_ms := latency\<rparr>\<rparr>)
        = Some (r, sys_trace t, s)
    \<and> run_outbound_writer (tokio_writer P boundary)
        \<lparr>wr_arrivals = [[m. Sent m \<leftarrow> sys_trace t]], wr_buffer = [], wr_wire = []\<rparr> = Some w
    \<and> wr_wire w = wr_wire (sys_out t)"
  by (rule tasks_agree_with_run [OF assms])

theorem connection_tasks_refine_run_witness:
  "\<exists>t r latency s. rtranclp (sys_step (tokio_writer wire_prost 8) 1024 NoAuthAuthenticator (ClientId 7) (client_info sample_client))
      (sys_init (tokio_items wire_prost sample_state)) t
    \<and> sys_phase t = Closed r
    \<and> Client_run (tokio_connection wire_prost)
        (sample_client\<lparr>client_io := sample_state\<lparr>tk_latency_ms := latency\<rparr>\<rparr>) = Some (r, sys_trace t, s)"
proof -
  let ?step = "sys_step (tokio_writer wire_prost 8) (Suc 1023) NoAuthAuthenticator (ClientId 7) (client_info sample_client)"
  have "\<exists>t. rtranclp ?step (sys_init (tokio_items wire_prost sample_state)) t \<and> \<not> (\<exists>u. ?step t u)"
    by (rule tasks.reaches_stuck [OF sys_inv_start])
  then obtain t where t: "rtranclp ?step (sys_init (tokio_items wire_prost sample_state)) t" "\<not> (\<exists>u. ?step t u)"
    by blast
  have c: "client_config sample_client = ServerConfig_new" "client_io sample_client = sample_state"
    "authenticator sample_client = NoAuthAuthenticator" "client_id sample_client = ClientId 7"
    by (simp_all add: sample_client_def)
  have "sys_pc t = Ended" using tasks_stuck [OF _ t] by simp
  moreover have "tk_receiver_alive sample_state" by (simp add: sample_state_def)
  moreover have "0 < connect_timeout (config_quic ServerConfig_new)"
    by (simp add: ServerConfig_new_def QuicConfig_default_def QUIC_CONNECT_TIMEOUT_MS_def)
  ultimately have "\<exists>r latency s. sys_phase t = Closed r
    \<and> Client_run (tokio_connection wire_prost)
        (sample_client\<lparr>client_io := sample_state\<lparr>tk_latency_ms := latency\<rparr>\<rparr>) = Some (r, sys_trace t, s)"
    using connection_tasks_refine_run [of sample_client wire_prost 8 t] t(1)
    unfolding c default_channel_capacity by auto
  with t(1) show ?thesis by auto
qed

end
