(* ===== verification/Writer_Faults.thy ===== *)
theory Writer_Faults
  imports Tasks_Properties "HOL-Library.Sublist"
begin

text \<open>
  The writer task of \<open>crates/server/src/client.rs\<close> on a transport that fails. \<open>run_outbound_writer\<close> ignores the
  results of feeding and flushing (\<open>let _ =\<close>), so it goes on after a failure; what then reaches
  the wire depends on what the framed writer keeps in its buffer. The transport is arbitrary: for each of
  its calls, how many bytes it takes or the error it returns.
\<close>

section \<open>A framed writer over a failing transport\<close>

text \<open>
  The documented \<open>FramedWrite\<close>: a flush writes the buffer piece by piece, dropping from it what
  the transport took, and stops at the first error; taking no byte counts as one. Feeding a message
  flushes first when the buffer has reached the boundary, and does not encode the message when that
  fails. The third component counts the calls of the transport.
\<close>

record transport =
  transport_write :: "nat \<Rightarrow> io_error + nat"
  transport_flush :: "nat \<Rightarrow> io_error + unit"

definition write_zero :: io_error where
  "write_zero = IoError (OtherKind ''write zero'') ''failed to write frame to transport''"

function write_out ::
    "(nat \<Rightarrow> io_error + nat) \<Rightarrow> nat \<Rightarrow> bytes \<Rightarrow> bytes \<Rightarrow> (io_error + unit) \<times> nat \<times> bytes \<times> bytes" where
  "write_out tw k [] wire = (Ok (), k, [], wire)"
| "write_out tw k (b # bs) wire =
     (case tw k of
        Err e \<Rightarrow> (Err e, Suc k, b # bs, wire)
      | Ok 0 \<Rightarrow> (Err write_zero, Suc k, b # bs, wire)
      | Ok (Suc n) \<Rightarrow> write_out tw (Suc k) (drop n bs) (wire @ b # take n bs))"
  by pat_completeness auto
termination
  by (relation "measure (\<lambda>(tw, k, buf, wire). length buf)") auto

record faulty_state = writer_state +
  wr_calls :: nat

definition faulty_flush :: "transport \<Rightarrow> faulty_state \<Rightarrow> (ServerCodecError + unit) \<times> faulty_state" where
  "faulty_flush tr w =
     (case write_out (transport_write tr) (wr_calls w) (wr_buffer w) (wr_wire w) of
        (Err e, k, buf, wire) \<Rightarrow> (Err (ServerCodecError_Io e), w\<lparr>wr_buffer := buf, wr_wire := wire, wr_calls := k\<rparr>)
      | (Ok _, k, buf, wire) \<Rightarrow>
          (map_err ServerCodecError_Io (transport_flush tr k), w\<lparr>wr_buffer := buf, wr_wire := wire, wr_calls := Suc k\<rparr>))"

definition faulty_feed ::
    "prost \<Rightarrow> nat \<Rightarrow> transport \<Rightarrow> pb_Info \<Rightarrow> faulty_state \<Rightarrow> (ServerCodecError + unit) \<times> faulty_state" where
  "faulty_feed P boundary tr i w =
     (case (if boundary \<le> length (wr_buffer w) then faulty_flush tr w else (Ok (), w)) of
        (Err e, w1) \<Rightarrow> (Err e, w1)
      | (Ok _, w1) \<Rightarrow>
          (let (r, buf) = server_encode (Info_codec P) i (wr_buffer w1) in (r, w1\<lparr>wr_buffer := buf\<rparr>)))"

definition faulty_writer :: "prost \<Rightarrow> nat \<Rightarrow> transport \<Rightarrow> faulty_state writer_io" where
  "faulty_writer P boundary tr =
     \<lparr>receiver_recv = tokio_recv, receiver_try_recv = tokio_try_recv,
      framed_feed = faulty_feed P boundary tr, framed_flush = faulty_flush tr\<rparr>"

section \<open>What every call keeps\<close>

lemma write_out_bytes: "write_out tw k buf wire = (r, k', buf', wire') \<Longrightarrow> wire' @ buf' = wire @ buf"
  by (induction tw k buf wire rule: write_out.induct) (auto split: sum.splits nat.splits)

lemma faulty_flush_keeps:
  "faulty_flush tr w = (r, w') \<Longrightarrow> wr_arrivals w' = wr_arrivals w \<and> wr_wire w' @ wr_buffer w' = wr_wire w @ wr_buffer w"
  using write_out_bytes [of "transport_write tr" "wr_calls w" "wr_buffer w" "wr_wire w"]
  by (auto simp: faulty_flush_def split: prod.splits sum.splits)

lemma faulty_feed_keeps:
  assumes "faulty_feed P boundary tr i w = (r, w')"
  shows "wr_arrivals w' = wr_arrivals w
    \<and> (wr_wire w' @ wr_buffer w' = wr_wire w @ wr_buffer w
       \<or> wr_wire w' @ wr_buffer w' = (wr_wire w @ wr_buffer w) @ info_frame P i)"
proof -
  obtain r1 w1 where f: "(if boundary \<le> length (wr_buffer w) then faulty_flush tr w else (Ok (), w)) = (r1, w1)"
    by fastforce
  then have k: "wr_arrivals w1 = wr_arrivals w" "wr_wire w1 @ wr_buffer w1 = wr_wire w @ wr_buffer w"
    using faulty_flush_keeps [of tr w] by (auto split: if_splits)
  have e: "snd (server_encode (Info_codec P) i (wr_buffer w1)) = wr_buffer w1 @ info_frame P i"
    unfolding info_frame_def by (rule server_encode_appends)
  from assms f k e show ?thesis
    by (cases r1) (auto simp: faulty_feed_def case_prod_beta Let_def)
qed

abbreviation fed_bytes :: "faulty_state \<Rightarrow> bytes" where
  "fed_bytes w \<equiv> wr_wire w @ wr_buffer w"

interpretation faulty: channel_writer "faulty_writer P boundary tr" "\<lambda>w. concat (wr_arrivals w)"
    "\<lambda>w ms w'. \<exists>ns. subseq ns ms \<and> fed_bytes w' = fed_bytes w @ outbound_bytes (info_frame P) ns" "\<lambda>w. True"
  for P boundary tr
proof (unfold_locales, goal_cases)
  case (1 w x w')
  then show ?case using tokio_recv_law [of w] by (auto simp: faulty_writer_def intro: exI [of _ "[]"])
next
  case (2 w y w')
  then show ?case using tokio_try_recv_law [of w] by (auto simp: faulty_writer_def intro: exI [of _ "[]"])
next
  case (3 m w r w')
  show ?case
  proof (cases m)
    case (OutboundMessage_Info i)
    with 3 have "faulty_feed P boundary tr i w = (r, w')" by (simp add: dispatch_outbound_def faulty_writer_def)
    from faulty_feed_keeps [OF this] OutboundMessage_Info show ?thesis
      by (auto intro: exI [of _ "[]"] exI [of _ "[m]"])
  next
    case (OutboundMessage_Message x)
    with 3 show ?thesis by (auto simp: dispatch_outbound_def intro: exI [of _ "[]"])
  qed
next
  case (4 w r w')
  then show ?case using faulty_flush_keeps [of tr w] by (auto simp: faulty_writer_def)
next
  case (5 w)
  then show ?case by (intro exI [of _ "[]"]) simp
next
  case (6 u ms v ns w)
  then obtain a b where "subseq a ms" "subseq b ns" "fed_bytes v = fed_bytes u @ outbound_bytes (info_frame P) a"
    "fed_bytes w = fed_bytes v @ outbound_bytes (info_frame P) b" by blast
  then show ?case by (intro exI [of _ "a @ b"]) (simp add: list_emb_append_mono)
qed

text \<open>A transport that takes some bytes at every call is a queue without failures.\<close>

definition healthy :: "transport \<Rightarrow> bool" where
  "healthy tr \<longleftrightarrow> (\<forall>k. (\<exists>n. transport_write tr k = Ok (Suc n)) \<and> transport_flush tr k = Ok ())"

lemma write_out_healthy:
  "\<forall>k. \<exists>n. tw k = Ok (Suc n) \<Longrightarrow> \<exists>k'. write_out tw k buf wire = (Ok (), k', [], wire @ buf)"
proof (induction tw k buf wire rule: write_out.induct)
  case (2 tw k b bs wire)
  obtain n where n: "tw k = Ok (Suc n)" using 2(2) by blast
  from 2(1) [OF n refl 2(2)] n show ?case by auto
qed simp

lemma faulty_flush_healthy:
  "healthy tr \<Longrightarrow> \<exists>k. faulty_flush tr w = (Ok (), w\<lparr>wr_buffer := [], wr_wire := fed_bytes w, wr_calls := k\<rparr>)"
  using write_out_healthy [of "transport_write tr" "wr_calls w" "wr_buffer w" "wr_wire w"]
  by (auto simp: healthy_def faulty_flush_def)

lemma healthy_queue:
  assumes "healthy tr"
  shows "outbound_queue (faulty_writer P boundary tr) (\<lambda>w. concat (wr_arrivals w)) fed_bytes wr_buffer (info_frame P)"
proof (unfold_locales, goal_cases)
  case (1 w x w')
  then show ?case using tokio_recv_law [of w] by (simp add: faulty_writer_def)
next
  case (2 w y w')
  then show ?case using tokio_try_recv_law [of w] by (simp add: faulty_writer_def)
next
  case (3 i w r w')
  moreover have "snd (server_encode (Info_codec P) i (wr_buffer w)) = wr_buffer w @ info_frame P i"
    unfolding info_frame_def by (rule server_encode_appends)
  ultimately show ?case
    using faulty_flush_healthy [OF assms, of w]
    by (auto simp: faulty_writer_def faulty_feed_def info_frame_def Let_def case_prod_beta split: if_splits)
next
  case (4 w r w')
  then show ?case using faulty_flush_healthy [OF assms, of w] by (auto simp: faulty_writer_def)
qed

lemma subseq_single: "subseq ms [m] \<Longrightarrow> ms = [] \<or> ms = [m]"
  by (cases ms) (auto simp: subseq_Cons2_iff split: if_splits)

lemma subseq_set: "subseq xs ys \<Longrightarrow> set xs \<subseteq> set ys"
  by (induction rule: list_emb.induct) auto

text \<open>
  Two transports: one takes three bytes of the first frame, fails once, and then works again; the other
  takes at most two bytes at a time.
\<close>

definition broken_transport :: transport where
  "broken_transport = \<lparr>transport_write = (\<lambda>k. if k = 0 then Ok 3
       else if k = 1 then Err (IoError (OtherKind ''broken pipe'') ''broken pipe'') else Ok 100),
     transport_flush = (\<lambda>k. Ok ())\<rparr>"

definition slow_transport :: transport where
  "slow_transport = \<lparr>transport_write = (\<lambda>k. Ok 2), transport_flush = (\<lambda>k. Ok ())\<rparr>"

abbreviation two_greetings :: faulty_state where
  "two_greetings \<equiv> \<lparr>wr_arrivals = [[OutboundMessage_Info Info_default], [OutboundMessage_Info Info_default]],
     wr_buffer = [], wr_wire = [], wr_calls = 0\<rparr>"

text \<open>In every reachable state the wire holds a beginning of the INFO frame.\<close>

lemma faulty_writer_reachable:
  assumes "0 < cap" and "rtranclp (sys_step (faulty_writer P boundary tr) cap auth cid info) (sys_start w xs) s"
    and "wr_buffer w = []" and "wr_wire w = []"
  shows "wr_wire (sys_out s) @ wr_buffer (sys_out s) \<in> {[], info_frame P info}"
    and "healthy tr \<Longrightarrow> sys_pc s = Ended \<Longrightarrow> wr_wire (sys_out s) = info_frame P info"
proof -
  from faulty.writer_reachable [OF assms(1,2)] assms(3,4) obtain ms ns where
    "subseq ns ms" "fed_bytes (sys_out s) = outbound_bytes (info_frame P) ns"
    "ms @ sys_queue s = (if sys_phase s = Greeting then [] else [OutboundMessage_Info info])"
    by (auto simp: writer_inv_def)
  moreover from this have "ms = [] \<or> ms = [OutboundMessage_Info info]"
    by (cases ms) (auto split: if_splits)
  ultimately show "wr_wire (sys_out s) @ wr_buffer (sys_out s) \<in> {[], info_frame P info}"
    by (auto simp del: append_is_Nil_conv dest: subseq_single list_emb_Nil2)
  have c: "channel_inv cap s" using tasks_reachable [OF assms(1,2)] by (simp add: sys_inv_def)
  show "wr_wire (sys_out s) = info_frame P info" if "healthy tr" "sys_pc s = Ended"
    using channel_writer.writer_reachable [OF outbound_queue.is_channel_writer [OF healthy_queue [OF that(1)]]
        assms(1-3)] c that(2) assms(3,4)
    by (auto simp: writer_inv_def channel_inv_def)
qed

section \<open>Properties\<close>



text \<open>
  C12: The two tasks of a connection over a failing transport. Whatever the transport does and however the tasks
  interleave, the first task never finds the channel closed, no schedule runs for ever, and a schedule
  that cannot go on has ended both tasks: the first with the timeout error or the result and events that
  the items of the stream determine, as on a working transport, and the writer with nothing or
  exactly one INFO frame divided between wire and buffer. A transport that always takes some
  bytes has the whole frame on the wire.
\<close>

theorem connection_tasks_survive_faults:
  assumes "0 < cap" and "wr_buffer w = []" and "wr_wire w = []"
  shows "\<not> (\<exists>run. run 0 = sys_start w xs
        \<and> (\<forall>i. sys_step (faulty_writer P boundary tr) cap auth cid info (run i) (run (Suc i))))
    \<and> (\<forall>s. rtranclp (sys_step (faulty_writer P boundary tr) cap auth cid info) (sys_start w xs) s
         \<longrightarrow> sys_phase s \<noteq> Closed (Err OutboundChannelClosed))
    \<and> (\<forall>t. rtranclp (sys_step (faulty_writer P boundary tr) cap auth cid info) (sys_start w xs) t
         \<and> \<not> (\<exists>u. sys_step (faulty_writer P boundary tr) cap auth cid info t u) \<longrightarrow>
         (\<exists>r. sys_phase t = Closed r
            \<and> (r = Err (ClientError_Handshake ConnectTimeout) \<and> sys_trace t = [Sent (OutboundMessage_Info info)]
               \<or> (r, sys_trace t) = connection_outcome auth cid info xs))
         \<and> sys_pc t = Ended
         \<and> wr_wire (sys_out t) @ wr_buffer (sys_out t) \<in> {[], snd (server_encode (Info_codec P) info [])}
         \<and> (healthy tr \<longrightarrow> wr_wire (sys_out t) = snd (server_encode (Info_codec P) info [])))"
proof (intro conjI allI impI)
  fix s
  assume "rtranclp (sys_step (faulty_writer P boundary tr) cap auth cid info) (sys_start w xs) s"
  then show "sys_phase s \<noteq> Closed (Err OutboundChannelClosed)" by (rule channel_never_closed [OF assms(1)])
next
  fix t
  assume t: "rtranclp (sys_step (faulty_writer P boundary tr) cap auth cid info) (sys_start w xs) t
     \<and> \<not> (\<exists>u. sys_step (faulty_writer P boundary tr) cap auth cid info t u)"
  note c = tasks_complete(3) [OF assms(1) t]
  then show "\<exists>r. sys_phase t = Closed r
        \<and> (r = Err (ClientError_Handshake ConnectTimeout) \<and> sys_trace t = [Sent (OutboundMessage_Info info)]
           \<or> (r, sys_trace t) = connection_outcome auth cid info xs)" and "sys_pc t = Ended" by blast+
  note w = faulty_writer_reachable [OF assms(1) conjunct1 [OF t] assms(2,3), unfolded info_frame_def]
  then show "wr_wire (sys_out t) @ wr_buffer (sys_out t) \<in> {[], snd (server_encode (Info_codec P) info [])}" by simp
  show "wr_wire (sys_out t) = snd (server_encode (Info_codec P) info [])" if "healthy tr"
    using w(2) [OF that] c by simp
qed (rule tasks_complete(1) [OF assms(1)])

theorem connection_tasks_survive_faults_witness:
  "\<exists>t. rtranclp (sys_step (faulty_writer wire_prost 8 broken_transport) 1 NoAuthAuthenticator (ClientId 7) Info_default)
        (sys_start (two_greetings\<lparr>wr_arrivals := []\<rparr>) []) t
     \<and> sys_pc t = Ended
     \<and> wr_wire (sys_out t) @ wr_buffer (sys_out t) \<in> {[], snd (server_encode (Info_codec wire_prost) Info_default [])}"
proof -
  let ?step = "sys_step (faulty_writer wire_prost 8 broken_transport) 1 NoAuthAuthenticator (ClientId 7) Info_default"
  have "\<exists>t. rtranclp ?step (sys_start (two_greetings\<lparr>wr_arrivals := []\<rparr>) []) t \<and> \<not> (\<exists>u. ?step t u)"
    by (rule tasks_complete(2)) simp
  with connection_tasks_survive_faults [of 1 "two_greetings\<lparr>wr_arrivals := []\<rparr>" "[]" wire_prost 8 broken_transport
      NoAuthAuthenticator "ClientId 7" Info_default]
  show ?thesis by (auto simp del: faulty_state.update_convs)
qed

end
