(* ===== verification/Endpoint.thy ===== *)
theory Endpoint
  imports Quic Writer_Faults
begin

text \<open>
  The running server as one concurrent system: the accept loop that \<open>start\<close> of \<open>crates/server/src/quic.rs\<close>
  spawns, one task per accepted connection, one task per accepted stream with its writer task, and
  the process-wide identifier counter they share. A step is a step of one of these tasks; the
  others keep their state, and the scheduler may choose any enabled step.

  What the network will deliver is part of the state: the events the \<open>select!\<close> of the accept loop
  finds, and for each connection the results of \<open>accept_bidirectional_stream\<close>. A stream is what its reader
  delivers, a \<open>tokio_state\<close>; what its writing half does with each write is a \<open>transport\<close>, given by \<open>net\<close>
  for the identifier of the stream, and may fail.
\<close>

section \<open>The system\<close>

type_synonym quic_connection = "(string + tokio_state option) list"

text \<open>
  The task of a stream: spawned; running, with its identifier, the system of its two tasks and, once
  \<open>Client::run\<close> has returned, what the task logged; or panicked in \<open>Client::new\<close>.
\<close>

datatype stream_state =
    Spawned tokio_state
  | Started tokio_state ClientId "faulty_state connection_system" "event list option"
  | Crashed tokio_state ClientId

record endpoint =
  ep_events :: "quic_connection select_event list"
  ep_accepting :: bool
  ep_connections :: "quic_connection list"
  ep_tasks :: "stream_state list"
  ep_counter :: u64

definition ep_init :: "quic_connection select_event list \<Rightarrow> endpoint" where
  "ep_init events = \<lparr>ep_events = events, ep_accepting = True, ep_connections = [], ep_tasks = [],
     ep_counter = CLIENT_ID_COUNTER_init\<rparr>"

abbreviation stream_writer :: faulty_state where
  "stream_writer \<equiv> \<lparr>wr_arrivals = [], wr_buffer = [], wr_wire = [], wr_calls = 0\<rparr>"

text \<open>\<open>Client::new\<close> in the task of a stream.\<close>

definition start_stream :: "prost \<Rightarrow> Authenticator \<Rightarrow> ServerConfig \<Rightarrow> tokio_state \<Rightarrow> u64 \<Rightarrow> stream_state \<times> u64" where
  "start_stream P auth config stream counter =
     (case Client_new (\<lambda>t r w c. t) stream auth config counter of
        (None, counter1) \<Rightarrow> (Crashed stream (ClientId counter), counter1)
      | (Some client, counter1) \<Rightarrow>
          (Started stream (client_id client) (sys_start stream_writer (tokio_items P (client_io client))) None, counter1))"

text \<open>\<open>if let Err(error) = handle_bidirectional_stream(stream, config, auth).await\<close>\<close>

definition stream_report :: "ClientError + unit \<Rightarrow> event list" where
  "stream_report r =
     (case r of Err e \<Rightarrow> [Logged (''QUIC stream error: '' @ ClientError_display e)] | Ok _ \<Rightarrow> [])"

abbreviation stream_step ::
    "prost \<Rightarrow> nat \<Rightarrow> (ClientId \<Rightarrow> transport) \<Rightarrow> Authenticator \<Rightarrow> ServerConfig \<Rightarrow> ClientId \<Rightarrow> faulty_state connection_system
      \<Rightarrow> faulty_state connection_system \<Rightarrow> bool" where
  "stream_step P boundary net auth config cid \<equiv>
     sys_step (faulty_writer P boundary (net cid)) (outbound_channel_capacity (config_quic config)) auth cid (connection_info cid config)"

inductive ep_step :: "prost \<Rightarrow> nat \<Rightarrow> (ClientId \<Rightarrow> transport) \<Rightarrow> Authenticator \<Rightarrow> ServerConfig \<Rightarrow> endpoint \<Rightarrow> endpoint \<Rightarrow> bool"
  for P boundary net auth config where
  ep_accept: "ep_accepting s \<Longrightarrow> ep_events s = Incoming (Some c) # es \<Longrightarrow>
    ep_step P boundary net auth config s (s\<lparr>ep_events := es, ep_connections := ep_connections s @ [c]\<rparr>)"
| ep_stop: "ep_accepting s \<Longrightarrow> ep_events s = e # es \<Longrightarrow> e = Cancelled \<or> e = Incoming None \<Longrightarrow>
    ep_step P boundary net auth config s (s\<lparr>ep_events := es, ep_accepting := False\<rparr>)"
| ep_stream: "ep_connections s = cs @ (Ok (Some stream) # rs) # ds \<Longrightarrow>
    ep_step P boundary net auth config s
      (s\<lparr>ep_connections := cs @ rs # ds, ep_tasks := ep_tasks s @ [Spawned stream]\<rparr>)"
| ep_connection_end: "ep_connections s = cs @ (r # rs) # ds \<Longrightarrow> \<forall>stream. r \<noteq> Ok (Some stream) \<Longrightarrow>
    ep_step P boundary net auth config s (s\<lparr>ep_connections := cs @ [] # ds\<rparr>)"
| ep_start: "ep_tasks s = ts @ Spawned stream # us \<Longrightarrow> start_stream P auth config stream (ep_counter s) = (t, n) \<Longrightarrow>
    ep_step P boundary net auth config s (s\<lparr>ep_tasks := ts @ t # us, ep_counter := n\<rparr>)"
| ep_task: "ep_tasks s = ts @ Started stream cid sys log # us \<Longrightarrow> stream_step P boundary net auth config cid sys sys' \<Longrightarrow>
    ep_step P boundary net auth config s (s\<lparr>ep_tasks := ts @ Started stream cid sys' log # us\<rparr>)"
| ep_report: "ep_tasks s = ts @ Started stream cid sys None # us \<Longrightarrow> sys_phase sys = Closed r \<Longrightarrow>
    ep_step P boundary net auth config s
      (s\<lparr>ep_tasks := ts @ Started stream cid sys (Some (stream_report r)) # us\<rparr>)"

section \<open>Accounting\<close>

fun task_stream :: "stream_state \<Rightarrow> tokio_state" where
  "task_stream (Spawned st) = st"
| "task_stream (Started st cid sys log) = st"
| "task_stream (Crashed st cid) = st"

fun task_ids :: "stream_state \<Rightarrow> ClientId list" where
  "task_ids (Spawned st) = []"
| "task_ids (Started st cid sys log) = [cid]"
| "task_ids (Crashed st cid) = [cid]"

abbreviation ep_ids :: "endpoint \<Rightarrow> ClientId list" where
  "ep_ids s \<equiv> concat (map task_ids (ep_tasks s))"

text \<open>The streams that are still to be accepted, and those that have been.\<close>

definition streams_to_come :: "endpoint \<Rightarrow> tokio_state list" where
  "streams_to_come s = concat (map accept_streams (ep_connections s
     @ (if ep_accepting s then fst (accept_loop (ep_events s)) else [])))"

definition all_streams :: "quic_connection select_event list \<Rightarrow> tokio_state list" where
  "all_streams events = concat (map accept_streams (fst (accept_loop events)))"

text \<open>What is known of one task: its system is in a state it can reach on its own.\<close>

fun task_inv :: "prost \<Rightarrow> nat \<Rightarrow> (ClientId \<Rightarrow> transport) \<Rightarrow> Authenticator \<Rightarrow> ServerConfig \<Rightarrow> stream_state \<Rightarrow> bool" where
  "task_inv P boundary net auth config (Spawned st) \<longleftrightarrow> True"
| "task_inv P boundary net auth config (Crashed st cid) \<longleftrightarrow> False"
| "task_inv P boundary net auth config (Started st cid sys log) \<longleftrightarrow>
     rtranclp (stream_step P boundary net auth config cid) (sys_start stream_writer (tokio_items P st)) sys
     \<and> (\<forall>l. log = Some l \<longrightarrow> (\<exists>r. sys_phase sys = Closed r \<and> l = stream_report r))"

definition ep_inv ::
    "prost \<Rightarrow> nat \<Rightarrow> (ClientId \<Rightarrow> transport) \<Rightarrow> Authenticator \<Rightarrow> ServerConfig \<Rightarrow> quic_connection select_event list \<Rightarrow> endpoint \<Rightarrow> bool" where
  "ep_inv P boundary net auth config events s \<longleftrightarrow>
     0 < outbound_channel_capacity (config_quic config)
     \<and> list_all (task_inv P boundary net auth config) (ep_tasks s)
     \<and> mset (map task_stream (ep_tasks s) @ streams_to_come s) = mset (all_streams events)
     \<and> (ep_accepting s \<and> \<not> snd (accept_loop (ep_events s)) \<longleftrightarrow> \<not> snd (accept_loop events))
     \<and> (mset (ep_ids s), ep_counter s) =
         map_prod mset id (allocate (length (ep_ids s)) CLIENT_ID_COUNTER_init)"

lemma allocate_Suc:
  "allocate (Suc k) n = (fst (allocate k n) @ [ClientId (snd (allocate k n))], snd (allocate k n) + 1)"
  by (simp add: allocate_eq add.assoc)

lemma closed_stays:
  "sys_step io cap auth cid info s t \<Longrightarrow> sys_phase s = Closed r \<Longrightarrow> sys_phase t = Closed r"
  by (induction rule: sys_step.induct) auto

lemma start_stream_ok:
  "0 < outbound_channel_capacity (config_quic config) \<Longrightarrow>
     start_stream P auth config st n = (Started st (ClientId n) (sys_start stream_writer (tokio_items P st)) None, n + 1)"
  by (simp add: start_stream_def Client_new_def ClientId_new_def Let_def)

lemma accept_streams_other: "\<forall>stream. r \<noteq> Ok (Some stream) \<Longrightarrow> accept_streams (r # rs) = []"
  by (cases "r # rs" rule: accept_streams.cases) auto

lemma ep_inv_init:
  "0 < outbound_channel_capacity (config_quic config) \<Longrightarrow> ep_inv P boundary net auth config events (ep_init events)"
  by (simp add: ep_inv_def ep_init_def streams_to_come_def all_streams_def)

lemma ep_inv_step:
  assumes "ep_inv P boundary net auth config events s" and "ep_step P boundary net auth config s t"
  shows "ep_inv P boundary net auth config events t"
  using assms(2)
proof cases
  case (ep_accept c es)
  with assms(1) show ?thesis
    by (simp add: ep_inv_def streams_to_come_def case_prod_beta Let_def ac_simps)
next
  case (ep_stop e es)
  then have "fst (accept_loop (ep_events s)) = []" "snd (accept_loop (ep_events s))" by auto
  with ep_stop assms(1) show ?thesis by (simp add: ep_inv_def streams_to_come_def)
next
  case (ep_stream cs st rs ds)
  with assms(1) show ?thesis
    by (cases "ep_accepting s") (simp_all add: ep_inv_def streams_to_come_def ac_simps)
next
  case (ep_connection_end cs r rs ds)
  with assms(1) accept_streams_other [of r rs] show ?thesis
    by (cases "ep_accepting s") (simp_all add: ep_inv_def streams_to_come_def)
next
  case (ep_start ts st us x n)
  with assms(1) have "x = Started st (ClientId (ep_counter s)) (sys_start stream_writer (tokio_items P st)) None" "n = ep_counter s + 1"
    by (simp_all add: ep_inv_def start_stream_ok)
  with ep_start assms(1) show ?thesis
    by (cases "ep_accepting s")
      (simp_all add: ep_inv_def streams_to_come_def allocate_Suc map_prod_def case_prod_beta del: allocate.simps)
next
  case (ep_task ts st cid sys log us sys')
  with assms(1) closed_stays show ?thesis
    by (fastforce simp: ep_inv_def streams_to_come_def)
next
  case (ep_report ts st cid sys us r)
  with assms(1) show ?thesis
    by (cases "ep_accepting s") (simp_all add: ep_inv_def streams_to_come_def del: allocate.simps)
qed

section \<open>Measure and progress\<close>

definition stream_weight :: "prost \<Rightarrow> tokio_state \<Rightarrow> nat" where
  "stream_weight P st = sys_mu (sys_start stream_writer (tokio_items P st)) + 2"

fun result_weight :: "prost \<Rightarrow> string + tokio_state option \<Rightarrow> nat" where
  "result_weight P (Ok (Some st)) = Suc (stream_weight P st)"
| "result_weight P _ = 1"

definition connection_weight :: "prost \<Rightarrow> quic_connection \<Rightarrow> nat" where
  "connection_weight P c = sum_list (map (result_weight P) c)"

fun event_weight :: "prost \<Rightarrow> quic_connection select_event \<Rightarrow> nat" where
  "event_weight P (Incoming (Some c)) = Suc (connection_weight P c)"
| "event_weight P _ = 1"

fun task_weight :: "prost \<Rightarrow> stream_state \<Rightarrow> nat" where
  "task_weight P (Spawned st) = stream_weight P st"
| "task_weight P (Started st cid sys log) = sys_mu sys + (if log = None then 1 else 0)"
| "task_weight P (Crashed st cid) = 0"

definition ep_mu :: "prost \<Rightarrow> endpoint \<Rightarrow> nat" where
  "ep_mu P s = sum_list (map (event_weight P) (ep_events s)) + sum_list (map (connection_weight P) (ep_connections s))
     + sum_list (map (task_weight P) (ep_tasks s))"

lemma ep_mu_step:
  assumes "0 < outbound_channel_capacity (config_quic config)" and "ep_step P boundary net auth config s t"
  shows "ep_mu P t < ep_mu P s"
  using assms(2)
proof cases
  case (ep_connection_end cs r rs ds)
  have "0 < result_weight P r" by (induction P r rule: result_weight.induct) simp_all
  with ep_connection_end show ?thesis by (simp add: ep_mu_def connection_weight_def)
next
  case (ep_start ts st us x n)
  then show ?thesis using assms(1) by (auto simp: ep_mu_def start_stream_ok stream_weight_def)
next
  case (ep_task ts st cid sys log us sys')
  then show ?thesis using sys_mu_step by (simp add: ep_mu_def)
qed (auto simp: ep_mu_def connection_weight_def)

text \<open>The accept loop, the connections and the tasks of all streams have come to their end.\<close>

definition task_ended :: "stream_state \<Rightarrow> bool" where
  "task_ended t \<longleftrightarrow> (\<exists>st cid sys l. t = Started st cid sys (Some l) \<and> sys_pc sys = Ended)"

definition ep_final :: "endpoint \<Rightarrow> bool" where
  "ep_final s \<longleftrightarrow> (\<not> ep_accepting s \<or> ep_events s = []) \<and> list_all (\<lambda>c. c = []) (ep_connections s)
     \<and> list_all task_ended (ep_tasks s)"

lemma task_progress:
  assumes "0 < outbound_channel_capacity (config_quic config)" and "task_inv P boundary net auth config t"
    and "\<not> task_ended t" and "ep_tasks s = ts @ t # us"
  shows "\<exists>s'. ep_step P boundary net auth config s s'"
proof (cases t)
  case (Spawned st)
  obtain x n where "start_stream P auth config st (ep_counter s) = (x, n)" by fastforce
  with assms(4) Spawned show ?thesis by (blast intro: ep_start)
next
  case (Started st cid sys log)
  from assms(2) Started have reach: "rtranclp (stream_step P boundary net auth config cid) (sys_start stream_writer (tokio_items P st)) sys"
    by simp
  note inv = tasks_reachable [OF assms(1) reach]
  show ?thesis
  proof (cases "sys_pc sys = Ended")
    case True
    with inv obtain r where "sys_phase sys = Closed r" by (auto simp: sys_inv_def channel_inv_def)
    moreover have "log = None" using assms(3) Started True by (auto simp: task_ended_def)
    ultimately show ?thesis using assms(4) Started by (blast intro: ep_report)
  next
    case False
    with sys_progress [OF assms(1) inv] obtain sys' where "stream_step P boundary net auth config cid sys sys'"
      by (auto simp: sys_final_def)
    with assms(4) Started show ?thesis by (blast intro: ep_task)
  qed
next
  case (Crashed st cid)
  with assms(2) show ?thesis by simp
qed

lemma connection_progress:
  assumes "c \<in> set (ep_connections s)" and "c \<noteq> []"
  shows "\<exists>s'. ep_step P boundary net auth config s s'"
proof -
  obtain cs ds where s: "ep_connections s = cs @ c # ds" using assms(1) by (meson split_list)
  obtain r rs where c: "c = r # rs" using assms(2) by (cases c) auto
  show ?thesis
  proof (cases "\<exists>st. r = Ok (Some st)")
    case True
    then obtain st where "r = Ok (Some st)" by blast
    with s c ep_stream [of s cs st rs ds] show ?thesis by blast
  next
    case False
    then have "\<forall>st. r \<noteq> Ok (Some st)" by blast
    from ep_connection_end [OF s [unfolded c] this] show ?thesis by blast
  qed
qed

lemma accept_progress:
  assumes "ep_accepting s" and "ep_events s \<noteq> []"
  shows "\<exists>s'. ep_step P boundary net auth config s s'"
proof -
  obtain e es where e: "ep_events s = e # es" using assms(2) by (cases "ep_events s") auto
  show ?thesis
  proof (cases "\<exists>c. e = Incoming (Some c)")
    case True
    then obtain c where "e = Incoming (Some c)" by blast
    with e ep_accept [OF assms(1), of c es] show ?thesis by blast
  next
    case False
    then have "e = Cancelled \<or> e = Incoming None" by (metis select_event.exhaust option.exhaust)
    from ep_stop [OF assms(1) e this] show ?thesis by blast
  qed
qed

lemma ep_progress:
  assumes "ep_inv P boundary net auth config events s" and "\<not> ep_final s"
  shows "\<exists>s'. ep_step P boundary net auth config s s'"
proof -
  have cap: "0 < outbound_channel_capacity (config_quic config)"
    and tasks: "list_all (task_inv P boundary net auth config) (ep_tasks s)"
    using assms(1) by (simp_all add: ep_inv_def)
  from assms(2) consider "ep_accepting s" "ep_events s \<noteq> []" | c where "c \<in> set (ep_connections s)" "c \<noteq> []"
    | t where "t \<in> set (ep_tasks s)" "\<not> task_ended t"
    by (auto simp: ep_final_def list_all_iff)
  then show ?thesis
  proof cases
    case 1
    then show ?thesis by (rule accept_progress)
  next
    case 2
    then show ?thesis by (rule connection_progress)
  next
    case 3
    then obtain ts us where "ep_tasks s = ts @ t # us" by (meson split_list)
    moreover have "task_inv P boundary net auth config t" using tasks 3(1) by (simp add: list_all_iff)
    ultimately show ?thesis using task_progress [OF cap] 3(2) by blast
  qed
qed

interpretation server: measured_system "ep_step P boundary net auth config" "ep_inv P boundary net auth config events"
    ep_final "ep_mu P" for P boundary net auth config events
proof (unfold_locales, goal_cases)
  case (1 s t)
  then show ?case by (rule ep_inv_step)
next
  case (2 s t)
  then show ?case by (intro ep_mu_step) (simp_all add: ep_inv_def)
next
  case (3 s)
  then show ?case by (rule ep_progress)
qed

end
