(* ===== verification/Endpoint_Properties.thy ===== *)
theory Endpoint_Properties
  imports Endpoint
begin

text \<open>
  Properties of the running server over every schedule of its tasks: isolation of the streams,
  completion, and agreement of every ended stream task with the sequential \<open>stream_task\<close>.
\<close>

section \<open>Shared lemmas\<close>

lemma ep_reachable:
  assumes "0 < outbound_channel_capacity (config_quic config)"
    and "rtranclp (ep_step P boundary net auth config) (ep_init events) s"
  shows "ep_inv P boundary net auth config events s"
  using server.inv_steps [OF assms(2)] ep_inv_init [OF assms(1)] by blast

lemma allocated_distinct: "n \<le> 2 ^ 64 \<Longrightarrow> distinct (fst (allocate n CLIENT_ID_COUNTER_init))"
  using client_ids_unique_nonzero by blast

lemma allocated_nonzero:
  assumes "n < 2 ^ 64"
  shows "ClientId 0 \<notin> set (fst (allocate n CLIENT_ID_COUNTER_init))"
proof
  assume "ClientId 0 \<in> set (fst (allocate n CLIENT_ID_COUNTER_init))"
  then obtain i where "i < n" "fst (allocate n CLIENT_ID_COUNTER_init) ! i = ClientId 0"
    by (auto simp: in_set_conv_nth allocate_eq)
  with client_ids_unique_nonzero [of n] assms show False by auto
qed

lemma task_ids_length: "length (concat (map task_ids ts)) \<le> length ts"
proof (induction ts)
  case (Cons t ts)
  have "length (task_ids t) \<le> 1" by (cases t) simp_all
  with Cons show ?case by simp
qed simp

lemma ids_le_streams:
  assumes "ep_inv P boundary net auth config events s"
  shows "length (ep_ids s) \<le> length (all_streams events)"
proof -
  have "length (ep_ids s) \<le> length (map task_stream (ep_tasks s) @ streams_to_come s)"
    using task_ids_length [of "ep_tasks s"] by simp
  also have "\<dots> = length (all_streams events)"
    using assms by (metis ep_inv_def size_mset)
  finally show ?thesis .
qed

lemma ep_ids_allocated:
  assumes "ep_inv P boundary net auth config events s"
  shows "mset (ep_ids s) = mset (fst (allocate (length (ep_ids s)) CLIENT_ID_COUNTER_init))"
  using assms by (simp add: ep_inv_def map_prod_def case_prod_beta)


lemma reorder_by_image:
  "mset (map f xs) = mset ys \<Longrightarrow> \<exists>zs. mset zs = mset xs \<and> map f zs = ys"
proof (induction ys arbitrary: xs)
  case (Cons y ys)
  then have "y \<in> set (map f xs)" by (metis list.set_intros(1) mset_eq_setD)
  then obtain us x vs where x: "xs = us @ x # vs" "y = f x" by (auto dest: split_list)
  with Cons.prems have "mset (map f (us @ vs)) = mset ys" by simp
  from Cons.IH [OF this] obtain zs where "mset zs = mset (us @ vs)" "map f zs = ys" by blast
  with x show ?case by (intro exI [of _ "x # zs"]) simp
qed simp

lemma serve_streams_counter: "snd (serve_streams io op config auth sts n) = n + of_nat (length sts)"
  by (induction sts arbitrary: n) (auto simp: case_prod_beta Let_def stream_task_counter)

section \<open>Outcomes of the tasks\<close>

text \<open>What an ended task has come to, as \<open>stream_task\<close> reports it.\<close>

fun task_outcome :: "stream_state \<Rightarrow> task_result" where
  "task_outcome (Started st cid sys (Some l)) =
     (case sys_phase sys of Closed r \<Rightarrow> Finished r (sys_trace sys @ l) | _ \<Rightarrow> Running)"
| "task_outcome (Crashed st cid) = Panicked"
| "task_outcome _ = Running"

lemma task_agrees_with_stream_task:
  assumes "0 < outbound_channel_capacity (config_quic config)" and "0 < connect_timeout (config_quic config)"
    and "tk_receiver_alive (task_stream t)" and "task_inv P boundary net auth config t" and "task_ended t"
    and "task_ids t = [ClientId n]"
  shows "\<exists>latency. fst (stream_task (tokio_connection P) (\<lambda>t a b c. t) config auth
      ((task_stream t)\<lparr>tk_latency_ms := latency\<rparr>) n) = task_outcome t"
proof -
  from assms(5) obtain st cid sys l where t: "t = Started st cid sys (Some l)" "sys_pc sys = Ended"
    by (auto simp: task_ended_def)
  with assms(6) have cid: "cid = ClientId n" by simp
  let ?c = "\<lparr>client_id = cid, client_io = st, authenticator = auth, client_config = config\<rparr>"
  have "rtranclp (sys_step (faulty_writer P boundary (net cid)) (outbound_channel_capacity (config_quic (client_config ?c)))
        (authenticator ?c) (client_id ?c) (client_info ?c)) (sys_start stream_writer (tokio_items P (client_io ?c))) sys"
    using assms(4) t by simp
  from first_task_agrees [OF _ _ _ this t(2)] assms(1-3) t obtain r latency s where
    run: "sys_phase sys = Closed r" "Client_run (tokio_connection P) (?c\<lparr>client_io := st\<lparr>tk_latency_ms := latency\<rparr>\<rparr>)
      = Some (r, sys_trace sys, s)" by auto
  moreover have "l = stream_report r" using assms(4) t run(1) by auto
  ultimately show ?thesis
    using assms(1) t cid by (intro exI [of _ latency], cases r)
      (auto simp: stream_task_def handle_bidirectional_stream_def Client_new_def ClientId_new_def Let_def stream_report_def)
qed

lemma ended_ids: "list_all task_ended ts \<Longrightarrow> concat (map task_ids ts) = map (hd \<circ> task_ids) ts"
  by (induction ts) (auto simp: task_ended_def)

lemma tasks_in_id_order:
  assumes "ep_inv P boundary net auth config events s" and "list_all task_ended (ep_tasks s)"
  shows "\<exists>ts. mset ts = mset (ep_tasks s) \<and> (\<forall>k < length ts. task_ids (ts ! k) = [ClientId (CLIENT_ID_COUNTER_init + of_nat k)])"
proof -
  have "mset (map (hd \<circ> task_ids) (ep_tasks s)) = mset (map (\<lambda>i. ClientId (CLIENT_ID_COUNTER_init + of_nat i)) [0..<length (ep_ids s)])"
    using ep_ids_allocated [OF assms(1)] ended_ids [OF assms(2)] by (simp add: allocate_eq)
  from reorder_by_image [OF this] obtain ts where ts: "mset ts = mset (ep_tasks s)"
    "map (hd \<circ> task_ids) ts = map (\<lambda>i. ClientId (CLIENT_ID_COUNTER_init + of_nat i)) [0..<length (ep_ids s)]" by blast
  have "task_ids (ts ! k) = [ClientId (CLIENT_ID_COUNTER_init + of_nat k)]" if "k < length ts" for k
  proof -
    have "length (ep_ids s) = length ts" using ts(2) by (metis length_map map_nth)
    then have "hd (task_ids (ts ! k)) = ClientId (CLIENT_ID_COUNTER_init + of_nat k)"
      using arg_cong [OF ts(2), of "\<lambda>xs. xs ! k"] that by simp
    moreover have "task_ended (ts ! k)"
      using assms(2) ts(1) that by (metis list_all_iff mset_eq_setD nth_mem)
    ultimately show ?thesis by (auto simp: task_ended_def)
  qed
  with ts(1) show ?thesis by blast
qed

lemma task_wire_and_dispatch:
  assumes "0 < outbound_channel_capacity (config_quic config)"
    and "rtranclp (stream_step P boundary net auth config cid) (sys_start stream_writer xs) sys"
  shows "(\<exists>rest. wr_wire (sys_out sys) @ rest = snd (server_encode (Info_codec P) (connection_info cid config) []))
    \<and> ((\<exists>f. Dispatched f \<in> set (sys_trace sys)) \<longrightarrow> (\<exists>m ys. xs = Ok (Frame_Connect m) # ys \<and> auth m = Accepted))"
proof -
  have "wr_wire (sys_out sys) @ wr_buffer (sys_out sys) \<in> {[], info_frame P (connection_info cid config)}"
    by (rule faulty_writer_reachable [OF assms]) simp_all
  then have "\<exists>rest. wr_wire (sys_out sys) @ rest = info_frame P (connection_info cid config)" by auto
  then show ?thesis using dispatch_needs_connect [OF assms] by (auto simp: info_frame_def)
qed

lemma ep_final_streams:
  assumes "ep_inv P boundary net auth config events s" and "ep_final s"
  shows "mset (map task_stream (ep_tasks s)) = mset (all_streams events)"
proof -
  have "concat (map accept_streams cs) = []" if "list_all (\<lambda>c. c = []) cs" for cs :: "quic_connection list"
    using that by (induction cs) auto
  then have "streams_to_come s = []"
    using assms(2) by (auto simp: streams_to_come_def ep_final_def)
  with assms(1) show ?thesis by (simp add: ep_inv_def)
qed

lemma ep_final_served:
  assumes "0 < outbound_channel_capacity (config_quic config)" and "ep_final s \<and> ep_inv P boundary net auth config events s"
  shows "ep_accepting s = (\<not> snd (accept_loop events)) \<and> (ep_accepting s \<longrightarrow> ep_events s = [])
         \<and> (\<forall>c \<in> set (ep_connections s). c = [])
         \<and> mset (map task_stream (ep_tasks s)) = mset (all_streams events)
         \<and> (\<forall>t \<in> set (ep_tasks s). \<exists>st cid sys r. t = Started st cid sys (Some (stream_report r))
              \<and> sys_phase sys = Closed r \<and> sys_pc sys = Ended
              \<and> (healthy (net cid) \<longrightarrow> wr_wire (sys_out sys) = snd (server_encode (Info_codec P) (connection_info cid config) [])))"
proof -
  have "\<exists>st cid sys r. t = Started st cid sys (Some (stream_report r)) \<and> sys_phase sys = Closed r \<and> sys_pc sys = Ended
      \<and> (healthy (net cid) \<longrightarrow> wr_wire (sys_out sys) = snd (server_encode (Info_codec P) (connection_info cid config) []))"
    if "t \<in> set (ep_tasks s)" for t
  proof -
    from that assms(2) have "task_ended t" and inv: "task_inv P boundary net auth config t"
      by (auto simp: ep_final_def ep_inv_def list_all_iff)
    then obtain st cid sys l where t: "t = Started st cid sys (Some l)" "sys_pc sys = Ended"
      by (auto simp: task_ended_def)
    with inv have "rtranclp (stream_step P boundary net auth config cid) (sys_start stream_writer (tokio_items P st)) sys" by simp
    from tasks_reachable [OF assms(1) this] faulty_writer_reachable [OF assms(1) this] t inv show ?thesis
      by (auto simp: sys_inv_def channel_inv_def info_frame_def)
  qed
  moreover have "ep_accepting s = (\<not> snd (accept_loop events))"
    using assms(2) by (auto simp: ep_final_def ep_inv_def)
  ultimately show ?thesis
    using assms(2) ep_final_streams by (auto simp: ep_final_def list_all_iff)
qed

lemma serve_in_order:
  assumes "\<And>k. k < length ts \<Longrightarrow> \<exists>latency. fst (stream_task io op config auth
      ((task_stream (ts ! k))\<lparr>tk_latency_ms := latency\<rparr>) (n + of_nat k)) = task_outcome (ts ! k)"
  shows "\<exists>sts. list_all2 (\<lambda>t st. \<exists>latency. st = (task_stream t)\<lparr>tk_latency_ms := latency\<rparr>) ts sts
    \<and> serve_streams io op config auth sts n = (map task_outcome ts, n + of_nat (length ts))"
proof -
  from assms obtain latency where l: "\<And>k. k < length ts \<Longrightarrow> fst (stream_task io op config auth
      ((task_stream (ts ! k))\<lparr>tk_latency_ms := latency k\<rparr>) (n + of_nat k)) = task_outcome (ts ! k)"
    by metis
  let ?sts = "map (\<lambda>k. (task_stream (ts ! k))\<lparr>tk_latency_ms := latency k\<rparr>) [0..<length ts]"
  have "fst (serve_streams io op config auth ?sts n) = map task_outcome ts"
    using serve_streams_nth [of io op config auth ?sts n] l by (intro nth_equalityI) auto
  then have "serve_streams io op config auth ?sts n = (map task_outcome ts, n + of_nat (length ts))"
    using serve_streams_counter [of io op config auth ?sts n] by (metis length_map length_upt minus_nat.diff_0 prod.collapse)
  moreover have "list_all2 (\<lambda>t st. \<exists>latency. st = (task_stream t)\<lparr>tk_latency_ms := latency\<rparr>) ts ?sts"
    by (auto simp: list_all2_conv_all_nth)
  ultimately show ?thesis by blast
qed

text \<open>Two connections with a stream each, the second reset by the peer, then the shutdown.\<close>

definition sample_network :: "quic_connection select_event list" where
  "sample_network = [Incoming (Some [Ok (Some sample_state), Ok None]),
     Incoming (Some [Ok (Some sample_state), Err ''connection reset'']), Cancelled]"

text \<open>The transport of the first stream fails once, that of the second takes two bytes at a time.\<close>

definition sample_net :: "ClientId \<Rightarrow> transport" where
  "sample_net cid = (if cid = ClientId 1 then broken_transport else slow_transport)"

lemma sample_streams: "all_streams sample_network = [sample_state, sample_state]" "snd (accept_loop sample_network)"
  by (simp_all add: all_streams_def sample_network_def)

lemma sample_network_run:
  "\<exists>s. rtranclp (ep_step wire_prost 8 sample_net NoAuthAuthenticator ServerConfig_new) (ep_init sample_network) s
     \<and> \<not> (\<exists>u. ep_step wire_prost 8 sample_net NoAuthAuthenticator ServerConfig_new s u)
     \<and> ep_inv wire_prost 8 sample_net NoAuthAuthenticator ServerConfig_new sample_network s
     \<and> length (ep_ids s) = 2"
proof -
  have init: "ep_inv wire_prost 8 sample_net NoAuthAuthenticator ServerConfig_new sample_network (ep_init sample_network)"
    by (rule ep_inv_init) (simp add: default_channel_capacity)
  from server.reaches_stuck [OF init] obtain s where
    s: "rtranclp (ep_step wire_prost 8 sample_net NoAuthAuthenticator ServerConfig_new) (ep_init sample_network) s"
      "\<not> (\<exists>u. ep_step wire_prost 8 sample_net NoAuthAuthenticator ServerConfig_new s u)" by blast
  note f = server.stuck_final [OF s(1) init s(2)]
  then have "size (mset (map task_stream (ep_tasks s))) = 2"
    using ep_final_streams [of wire_prost 8 sample_net NoAuthAuthenticator ServerConfig_new sample_network s]
    by (simp only: sample_streams) simp
  moreover have "length (ep_ids s) = length (ep_tasks s)"
    using f ended_ids [of "ep_tasks s"] by (simp add: ep_final_def)
  ultimately show ?thesis using s f by auto
qed

section \<open>Properties\<close>

text \<open>
  C6: Isolation of the streams of a running server. In every state that any schedule of its tasks
  reaches, with fewer than \<open>2 ^ 64\<close> streams and whatever their transports do: the identifiers of the
  streams are pairwise distinct and none is zero, no task has panicked, the streams being served are among those that arrived, and
  each has been sent nothing but a beginning of the INFO frame with its own identifier and
  has had a frame dispatched only if its own first frame is a CONNECT the authenticator accepts.
\<close>

theorem endpoint_isolation:
  assumes "0 < outbound_channel_capacity (config_quic config)" and "length (all_streams events) < 2 ^ 64"
    and "rtranclp (ep_step P boundary net auth config) (ep_init events) s"
  shows "distinct (ep_ids s) \<and> ClientId 0 \<notin> set (ep_ids s)
    \<and> mset (map task_stream (ep_tasks s)) \<subseteq># mset (all_streams events)
    \<and> (\<forall>t \<in> set (ep_tasks s). case t of Spawned st \<Rightarrow> True | Crashed st cid \<Rightarrow> False
         | Started st cid sys log \<Rightarrow>
             (\<exists>rest. wr_wire (sys_out sys) @ rest = snd (server_encode (Info_codec P) (connection_info cid config) []))
             \<and> ((\<exists>f. Dispatched f \<in> set (sys_trace sys)) \<longrightarrow>
                  (\<exists>m ys. tokio_items P st = Ok (Frame_Connect m) # ys \<and> auth m = Accepted)))"
proof -
  note inv = ep_reachable [OF assms(1,3)]
  have n: "length (ep_ids s) < 2 ^ 64" using ids_le_streams [OF inv] assms(2) by simp
  have ids: "distinct (ep_ids s)" "ClientId 0 \<notin> set (ep_ids s)"
    using ep_ids_allocated [OF inv] allocated_distinct [OF less_imp_le [OF n]] allocated_nonzero [OF n]
    by (metis mset_eq_imp_distinct_iff, metis mset_eq_setD)
  have "mset (map task_stream (ep_tasks s)) \<subseteq># mset (all_streams events)"
    using inv by (metis ep_inv_def mset_append mset_subset_eq_add_left)
  moreover have "case t of Spawned st \<Rightarrow> True | Crashed st cid \<Rightarrow> False
         | Started st cid sys log \<Rightarrow>
             (\<exists>rest. wr_wire (sys_out sys) @ rest = snd (server_encode (Info_codec P) (connection_info cid config) []))
             \<and> ((\<exists>f. Dispatched f \<in> set (sys_trace sys)) \<longrightarrow>
                  (\<exists>m ys. tokio_items P st = Ok (Frame_Connect m) # ys \<and> auth m = Accepted))"
    if "t \<in> set (ep_tasks s)" for t
    using inv that task_wire_and_dispatch [OF assms(1)]
    by (cases t) (fastforce simp: ep_inv_def list_all_iff)+
  ultimately show ?thesis using ids by blast
qed

theorem endpoint_isolation_witness:
  "\<exists>s. rtranclp (ep_step wire_prost 8 sample_net NoAuthAuthenticator ServerConfig_new) (ep_init sample_network) s
     \<and> length (ep_ids s) = 2 \<and> distinct (ep_ids s) \<and> ClientId 0 \<notin> set (ep_ids s)"
proof -
  from sample_network_run obtain s where
    s: "rtranclp (ep_step wire_prost 8 sample_net NoAuthAuthenticator ServerConfig_new) (ep_init sample_network) s"
      "length (ep_ids s) = 2" by blast
  have "distinct (ep_ids s) \<and> ClientId 0 \<notin> set (ep_ids s)"
    using endpoint_isolation [OF _ _ s(1)] by (simp add: default_channel_capacity sample_streams)
  with s show ?thesis by blast
qed



text \<open>
  C8: The running server refines the sequential one. Whatever the schedule, once all tasks have ended their
  outcomes, in the order of their identifiers, and the counter are what \<open>serve_streams\<close> gives for the
  same streams served one after another in that order, with some arrival time for the first frame of each.
\<close>

theorem endpoint_refines_serve_streams:
  assumes "0 < outbound_channel_capacity (config_quic config)" and "0 < connect_timeout (config_quic config)"
    and "\<forall>st \<in> set (all_streams events). tk_receiver_alive st"
    and "rtranclp (ep_step P boundary net auth config) (ep_init events) s"
    and "\<not> (\<exists>u. ep_step P boundary net auth config s u)"
  shows "\<exists>ts sts. mset ts = mset (ep_tasks s)
    \<and> mset (map task_stream ts) = mset (all_streams events)
    \<and> list_all2 (\<lambda>t st. \<exists>latency. st = (task_stream t)\<lparr>tk_latency_ms := latency\<rparr>) ts sts
    \<and> serve_streams (tokio_connection P) (\<lambda>t a b c. t) config auth sts CLIENT_ID_COUNTER_init
        = (map task_outcome ts, ep_counter s)"
proof -
  have inv: "ep_inv P boundary net auth config events s" and "ep_final s"
    using server.stuck_final [OF assms(4) ep_inv_init [OF assms(1)] assms(5)] by blast+
  then have ended: "list_all task_ended (ep_tasks s)" and streams: "mset (map task_stream (ep_tasks s)) = mset (all_streams events)"
    using ep_final_streams by (auto simp: ep_final_def)
  from tasks_in_id_order [OF inv ended] obtain ts where ts: "mset ts = mset (ep_tasks s)"
    and ids: "\<And>k. k < length ts \<Longrightarrow> task_ids (ts ! k) = [ClientId (CLIENT_ID_COUNTER_init + of_nat k)]" by blast
  have each: "\<exists>latency. fst (stream_task (tokio_connection P) (\<lambda>t a b c. t) config auth
      ((task_stream (ts ! k))\<lparr>tk_latency_ms := latency\<rparr>) (CLIENT_ID_COUNTER_init + of_nat k)) = task_outcome (ts ! k)"
    if "k < length ts" for k
  proof (rule task_agrees_with_stream_task [OF assms(1,2) _ _ _ ids [OF that]])
    have t: "ts ! k \<in> set (ep_tasks s)" using ts that by (metis mset_eq_setD nth_mem)
    then show "task_inv P boundary net auth config (ts ! k)" "task_ended (ts ! k)"
      using inv ended by (auto simp: ep_inv_def list_all_iff)
    from t have "task_stream (ts ! k) \<in> set (all_streams events)"
      using streams by (metis image_eqI mset_eq_setD set_map)
    with assms(3) show "tk_receiver_alive (task_stream (ts ! k))" by blast
  qed
  from serve_in_order [OF each] obtain sts where sts:
    "list_all2 (\<lambda>t st. \<exists>latency. st = (task_stream t)\<lparr>tk_latency_ms := latency\<rparr>) ts sts"
    "serve_streams (tokio_connection P) (\<lambda>t a b c. t) config auth sts CLIENT_ID_COUNTER_init
        = (map task_outcome ts, CLIENT_ID_COUNTER_init + of_nat (length ts))" by blast
  have "ep_counter s = CLIENT_ID_COUNTER_init + of_nat (length ts)"
    using inv ended_ids [OF ended] mset_eq_length [OF ts] by (simp add: ep_inv_def allocate_eq)
  with sts ts streams show ?thesis
    by (intro exI [of _ ts] exI [of _ sts]) simp
qed

theorem endpoint_refines_serve_streams_witness:
  "\<exists>s ts sts. rtranclp (ep_step wire_prost 8 sample_net NoAuthAuthenticator ServerConfig_new) (ep_init sample_network) s
     \<and> mset ts = mset (ep_tasks s) \<and> length ts = 2
     \<and> serve_streams (tokio_connection wire_prost) (\<lambda>t a b c. t) ServerConfig_new NoAuthAuthenticator sts CLIENT_ID_COUNTER_init
         = (map task_outcome ts, ep_counter s)"
proof -
  from sample_network_run obtain s where
    s: "rtranclp (ep_step wire_prost 8 sample_net NoAuthAuthenticator ServerConfig_new) (ep_init sample_network) s"
      "\<not> (\<exists>u. ep_step wire_prost 8 sample_net NoAuthAuthenticator ServerConfig_new s u)" by blast
  have cap: "0 < outbound_channel_capacity (config_quic ServerConfig_new)" by (simp add: default_channel_capacity)
  have timeout: "0 < connect_timeout (config_quic ServerConfig_new)"
    by (simp add: ServerConfig_new_def QuicConfig_default_def QUIC_CONNECT_TIMEOUT_MS_def)
  have alive: "\<forall>st \<in> set (all_streams sample_network). tk_receiver_alive st"
    unfolding sample_streams by (simp add: sample_state_def)
  from endpoint_refines_serve_streams [OF cap timeout alive s] obtain ts sts where
    "mset ts = mset (ep_tasks s)" "mset (map task_stream ts) = mset [sample_state, sample_state]"
    "serve_streams (tokio_connection wire_prost) (\<lambda>t a b c. t) ServerConfig_new NoAuthAuthenticator sts CLIENT_ID_COUNTER_init
         = (map task_outcome ts, ep_counter s)" unfolding sample_streams by blast
  moreover from this(2) have "length ts = 2" by (metis length_map mset_eq_length length_Cons list.size(3) numeral_2_eq_2)
  ultimately show ?thesis using s(1) by blast
qed

end
