(* ===== verification/Topic_Tests.thy ===== *)
theory Topic_Tests
  imports Topic
begin

text \<open>
  The unit tests of \<open>crates/server/src/topic.rs\<close>, one predicate per test over the modelled
  constructors: the assertions of the repository as statements about the model. They are evaluated
  through \<open>layers\<close>, by the characterisations of \<open>Topic\<close>.
\<close>

section \<open>Helpers of the tests\<close>

definition test_topic :: "string \<Rightarrow> Topic option" where
  "test_topic s = unwrap (Topic_new (string_bytes s))"

definition test_filter :: "string \<Rightarrow> TopicFilter option" where
  "test_filter s = unwrap (TopicFilter_new (string_bytes s))"

definition parse_pub :: "string \<Rightarrow> TopicError + Topic" where
  "parse_pub s = Topic_new (string_bytes s)"

definition parse_sub :: "string \<Rightarrow> TopicError + TopicFilter" where
  "parse_sub s = TopicFilter_new (string_bytes s)"

text \<open>\<open>f.segments().next()\<close>\<close>

definition first_segment :: "TopicFilter \<Rightarrow> bytes option" where
  "first_segment f = (case TopicFilter_segments f of [] \<Rightarrow> None | s # _ \<Rightarrow> Some s)"

section \<open>The tests\<close>

definition segments_splits_simple_path :: bool where
  "segments_splits_simple_path \<longleftrightarrow>
     asserting (test_topic ''a/b/c'') (\<lambda>t.
       Topic_segments t = [string_bytes ''a'', string_bytes ''b'', string_bytes ''c''])"

definition segments_single_component :: bool where
  "segments_single_component \<longleftrightarrow>
     asserting (test_topic ''single'') (\<lambda>t. Topic_segments t = [string_bytes ''single''])"

definition parse_rejects_empty_topic :: bool where
  "parse_rejects_empty_topic \<longleftrightarrow>
     parse_pub [] = Err Empty"

definition parse_rejects_leading_slash :: bool where
  "parse_rejects_leading_slash \<longleftrightarrow>
     parse_pub ''/a/b'' = Err LeadingSlash"

definition parse_rejects_trailing_slash :: bool where
  "parse_rejects_trailing_slash \<longleftrightarrow>
     parse_pub ''a/b/'' = Err TrailingSlash"

definition parse_rejects_consecutive_slashes :: bool where
  "parse_rejects_consecutive_slashes \<longleftrightarrow>
     parse_pub ''a//b'' = Err EmptyLayer"

definition parse_rejects_topic_exceeding_max_length :: bool where
  "parse_rejects_topic_exceeding_max_length \<longleftrightarrow>
     (let long = replicate (MAX_TOPIC_LENGTH + 1) (CHR ''a'')
      in parse_pub long = Err (TooLong (MAX_TOPIC_LENGTH + 1)))"

definition parse_accepts_topic_at_max_length :: bool where
  "parse_accepts_topic_at_max_length \<longleftrightarrow>
     (let exactly_max = replicate MAX_TOPIC_LENGTH (CHR ''x'') in is_ok (parse_pub exactly_max))"

definition parse_rejects_more_than_8_layers :: bool where
  "parse_rejects_more_than_8_layers \<longleftrightarrow>
     parse_pub ''a/b/c/d/e/f/g/h/i'' = Err (TooManyLayers 9)"

definition parse_accepts_exactly_8_layers :: bool where
  "parse_accepts_exactly_8_layers \<longleftrightarrow>
     is_ok (parse_pub ''a/b/c/d/e/f/g/h'')"

definition parse_rejects_sys_prefix :: bool where
  "parse_rejects_sys_prefix \<longleftrightarrow>
     parse_pub ''$SYS/status'' = Err ReservedSysPrefix \<and> parse_sub ''$SYS/+'' = Err ReservedSysPrefix"

definition parse_accepts_sys_not_at_first_layer :: bool where
  "parse_accepts_sys_not_at_first_layer \<longleftrightarrow>
     is_ok (parse_pub ''device/$SYS/info'')"

definition parse_accepts_global_prefix_publish :: bool where
  "parse_accepts_global_prefix_publish \<longleftrightarrow>
     is_ok (parse_pub ''$G/sensor/data'')"

definition parse_accepts_global_prefix_subscribe_with_wildcard :: bool where
  "parse_accepts_global_prefix_subscribe_with_wildcard \<longleftrightarrow>
     is_ok (parse_sub ''$G/sensor/+/data'') \<and> is_ok (parse_sub ''$G/sensor/#'')"

definition parse_rejects_global_prefix_alone :: bool where
  "parse_rejects_global_prefix_alone \<longleftrightarrow>
     parse_pub ''$G'' = Err GlobalPrefixWithoutTopic \<and> parse_sub ''$G'' = Err GlobalPrefixWithoutTopic"

definition is_global_returns_true_for_global_filter :: bool where
  "is_global_returns_true_for_global_filter \<longleftrightarrow>
     asserting (test_filter ''$G/broadcast/alerts'') (\<lambda>f. first_segment f = Some GLOBAL_PREFIX)"

definition is_global_returns_false_for_normal_filter :: bool where
  "is_global_returns_false_for_normal_filter \<longleftrightarrow>
     asserting (test_filter ''sensor/data'') (\<lambda>f. first_segment f \<noteq> Some GLOBAL_PREFIX)"

definition parse_rejects_single_wildcard_in_publish :: bool where
  "parse_rejects_single_wildcard_in_publish \<longleftrightarrow>
     parse_pub ''sensor/+/data'' = Err WildcardInPublishTopic"

definition parse_rejects_multi_wildcard_in_publish :: bool where
  "parse_rejects_multi_wildcard_in_publish \<longleftrightarrow>
     parse_pub ''sensor/#'' = Err WildcardInPublishTopic"

definition parse_accepts_single_wildcard_in_subscribe :: bool where
  "parse_accepts_single_wildcard_in_subscribe \<longleftrightarrow>
     is_ok (parse_sub ''sensor/+/data'')"

definition parse_accepts_multi_wildcard_terminal_in_subscribe :: bool where
  "parse_accepts_multi_wildcard_terminal_in_subscribe \<longleftrightarrow>
     is_ok (parse_sub ''sensor/data/#'')"

definition parse_accepts_standalone_multi_wildcard :: bool where
  "parse_accepts_standalone_multi_wildcard \<longleftrightarrow>
     is_ok (parse_sub ''#'')"

definition parse_accepts_standalone_single_wildcard :: bool where
  "parse_accepts_standalone_single_wildcard \<longleftrightarrow>
     is_ok (parse_sub ''+'')"

definition parse_accepts_multiple_single_wildcards :: bool where
  "parse_accepts_multiple_single_wildcards \<longleftrightarrow>
     is_ok (parse_sub ''+/+/data'')"

definition parse_rejects_multi_wildcard_not_terminal :: bool where
  "parse_rejects_multi_wildcard_not_terminal \<longleftrightarrow>
     parse_sub ''sensor/#/data'' = Err MultiWildcardNotTerminal"

definition parse_rejects_embedded_wildcard_plus :: bool where
  "parse_rejects_embedded_wildcard_plus \<longleftrightarrow>
     parse_sub ''sensor+/data'' = Err InvalidWildcardUsage"

definition parse_rejects_embedded_wildcard_hash :: bool where
  "parse_rejects_embedded_wildcard_hash \<longleftrightarrow>
     parse_sub ''sensor#/data'' = Err InvalidWildcardUsage"

definition parse_rejects_embedded_wildcard_plus_suffix :: bool where
  "parse_rejects_embedded_wildcard_plus_suffix \<longleftrightarrow>
     parse_sub ''sensor/data+'' = Err InvalidWildcardUsage"

definition display_shows_topic_string :: bool where
  "display_shows_topic_string \<longleftrightarrow>
     asserting (test_topic ''sensor/data/temp'') (\<lambda>t. Topic_fmt t = ''sensor/data/temp'')"

definition filter_segments_splits_simple_path :: bool where
  "filter_segments_splits_simple_path \<longleftrightarrow>
     asserting (test_filter ''a/b/c'') (\<lambda>f.
       TopicFilter_segments f = [string_bytes ''a'', string_bytes ''b'', string_bytes ''c''])"

definition filter_display_shows_filter_string :: bool where
  "filter_display_shows_filter_string \<longleftrightarrow>
     asserting (test_filter ''sensor/+/temp'') (\<lambda>f. TopicFilter_fmt f = ''sensor/+/temp'')"

lemmas topic_test_defs = segments_splits_simple_path_def
  segments_single_component_def
  parse_rejects_empty_topic_def
  parse_rejects_leading_slash_def
  parse_rejects_trailing_slash_def
  parse_rejects_consecutive_slashes_def
  parse_rejects_topic_exceeding_max_length_def
  parse_accepts_topic_at_max_length_def
  parse_rejects_more_than_8_layers_def
  parse_accepts_exactly_8_layers_def
  parse_rejects_sys_prefix_def
  parse_accepts_sys_not_at_first_layer_def
  parse_accepts_global_prefix_publish_def
  parse_accepts_global_prefix_subscribe_with_wildcard_def
  parse_rejects_global_prefix_alone_def
  is_global_returns_true_for_global_filter_def
  is_global_returns_false_for_normal_filter_def
  parse_rejects_single_wildcard_in_publish_def
  parse_rejects_multi_wildcard_in_publish_def
  parse_accepts_single_wildcard_in_subscribe_def
  parse_accepts_multi_wildcard_terminal_in_subscribe_def
  parse_accepts_standalone_multi_wildcard_def
  parse_accepts_standalone_single_wildcard_def
  parse_accepts_multiple_single_wildcards_def
  parse_rejects_multi_wildcard_not_terminal_def
  parse_rejects_embedded_wildcard_plus_def
  parse_rejects_embedded_wildcard_hash_def
  parse_rejects_embedded_wildcard_plus_suffix_def
  display_shows_topic_string_def
  filter_segments_splits_simple_path_def
  filter_display_shows_filter_string_def

lemmas topic_test_evals = test_topic_def test_filter_def parse_pub_def parse_sub_def first_segment_def name_evals

section \<open>Long names\<close>

lemma plain_name_accepted:
  assumes "0 < n" and "n \<le> MAX_TOPIC_LENGTH" and "b \<notin> {SEP_BYTE, WILDCARD_SINGLE_BYTE, WILDCARD_MULTI_BYTE, 0x24}"
  shows "Topic_new (replicate n b) = Ok (Topic (replicate n b))"
proof -
  have "layers (replicate n b) = [replicate n b]"
    using assms(3) by (auto simp: layers_def intro!: slice_split_single)
  moreover have "replicate n b \<noteq> SYS_PREFIX" "replicate n b \<noteq> GLOBAL_PREFIX"
    using assms(1,3) by (cases n; auto simp: topic_consts)+
  ultimately show ?thesis
    using assms by (auto simp: Topic_new_Ok_iff topic_spec_def layered_def MAX_LAYERS_def)
qed

lemma name_too_long: "MAX_TOPIC_LENGTH < length bs \<Longrightarrow> Topic_new bs = Err (TooLong (length bs))"
  by (cases bs) (auto simp: Topic_new_def validate_segments_def validate_raw_def MAX_TOPIC_LENGTH_def)

lemma display_ascii: "\<forall>b \<in> set (string_bytes s). b \<le> 0x7F \<Longrightarrow> display_bytes (string_bytes s) = s"
  by (simp add: display_bytes_def utf8_valid_ascii)

lemma display_names:
  "display_bytes (string_bytes ''sensor/data/temp'') = ''sensor/data/temp''"
  "display_bytes (string_bytes ''sensor/+/temp'') = ''sensor/+/temp''"
  by (rule display_ascii, simp add: string_bytes_def)+

lemma shown_names_accepted:
  "test_topic ''sensor/data/temp'' = Some (Topic (string_bytes ''sensor/data/temp''))"
  "test_filter ''sensor/+/temp'' = Some (TopicFilter (string_bytes ''sensor/+/temp''))"
  by (simp_all add: topic_test_evals del: slice_split.simps)

lemma boundary_tests: "parse_rejects_topic_exceeding_max_length" "parse_accepts_topic_at_max_length"
  using plain_name_accepted [of MAX_TOPIC_LENGTH "0x78"]
    name_too_long [where bs = "replicate 257 0x61"]
  by (simp_all add: topic_test_defs parse_pub_def Let_def string_bytes_def map_replicate topic_consts)

lemma display_tests: "display_shows_topic_string" "filter_display_shows_filter_string"
  by (simp_all add: topic_test_defs shown_names_accepted Topic_fmt_def TopicFilter_fmt_def display_names)

lemma evaluated_tests:
  "segments_splits_simple_path" "segments_single_component"
  "parse_rejects_empty_topic" "parse_rejects_leading_slash"
  "parse_rejects_trailing_slash" "parse_rejects_consecutive_slashes"
  "parse_rejects_more_than_8_layers" "parse_accepts_exactly_8_layers"
  "parse_rejects_sys_prefix" "parse_accepts_sys_not_at_first_layer"
  "parse_accepts_global_prefix_publish" "parse_accepts_global_prefix_subscribe_with_wildcard"
  "parse_rejects_global_prefix_alone" "is_global_returns_true_for_global_filter"
  "is_global_returns_false_for_normal_filter" "parse_rejects_single_wildcard_in_publish"
  "parse_rejects_multi_wildcard_in_publish" "parse_accepts_single_wildcard_in_subscribe"
  "parse_accepts_multi_wildcard_terminal_in_subscribe" "parse_accepts_standalone_multi_wildcard"
  "parse_accepts_standalone_single_wildcard" "parse_accepts_multiple_single_wildcards"
  "parse_rejects_multi_wildcard_not_terminal" "parse_rejects_embedded_wildcard_plus"
  "parse_rejects_embedded_wildcard_hash" "parse_rejects_embedded_wildcard_plus_suffix"
  "filter_segments_splits_simple_path"
  by (simp_all add: topic_test_defs topic_test_evals del: slice_split.simps)

section \<open>Properties\<close>

text \<open>
  Every unit test of \<open>topic.rs\<close> passes on the modelled constructors, segment iterators and
  formatters: no \<open>unwrap\<close> panics and every assertion holds, the two boundary tests at 256 and 257 bytes
  and at 8 and 9 layers included.
\<close>

theorem topic_tests_pass:
  "segments_splits_simple_path \<and> segments_single_component
    \<and> parse_rejects_empty_topic \<and> parse_rejects_leading_slash
    \<and> parse_rejects_trailing_slash \<and> parse_rejects_consecutive_slashes
    \<and> parse_rejects_topic_exceeding_max_length \<and> parse_accepts_topic_at_max_length
    \<and> parse_rejects_more_than_8_layers \<and> parse_accepts_exactly_8_layers
    \<and> parse_rejects_sys_prefix \<and> parse_accepts_sys_not_at_first_layer
    \<and> parse_accepts_global_prefix_publish \<and> parse_accepts_global_prefix_subscribe_with_wildcard
    \<and> parse_rejects_global_prefix_alone \<and> is_global_returns_true_for_global_filter
    \<and> is_global_returns_false_for_normal_filter \<and> parse_rejects_single_wildcard_in_publish
    \<and> parse_rejects_multi_wildcard_in_publish \<and> parse_accepts_single_wildcard_in_subscribe
    \<and> parse_accepts_multi_wildcard_terminal_in_subscribe \<and> parse_accepts_standalone_multi_wildcard
    \<and> parse_accepts_standalone_single_wildcard \<and> parse_accepts_multiple_single_wildcards
    \<and> parse_rejects_multi_wildcard_not_terminal \<and> parse_rejects_embedded_wildcard_plus
    \<and> parse_rejects_embedded_wildcard_hash \<and> parse_rejects_embedded_wildcard_plus_suffix
    \<and> display_shows_topic_string \<and> filter_segments_splits_simple_path
    \<and> filter_display_shows_filter_string"
  by (intro conjI boundary_tests display_tests evaluated_tests)

end
