(* ===== verification/Router_Tests.thy ===== *)
theory Router_Tests
  imports Router
begin

text \<open>
  The unit tests of \<open>crates/server/src/router.rs\<close>, one predicate per test. The identifiers come from the
  process-wide counter, whose value at the start of a test depends on the tests that ran before: it is
  an argument, as are the senders \<open>dummy_tx\<close> creates.
\<close>

section \<open>Helpers of the tests\<close>

definition make_filter :: "string \<Rightarrow> TopicFilter option" where
  "make_filter s = unwrap (TopicFilter_new (string_bytes s))"

definition make_topic :: "string \<Rightarrow> Topic option" where
  "make_topic s = unwrap (Topic_new (string_bytes s))"

text \<open>\<open>node.children.as_ref().unwrap()[i]\<close>\<close>

definition child_at :: "nat \<Rightarrow> 'tx Node \<Rightarrow> 'tx Node option" where
  "child_at i node = Option.bind (children node) (\<lambda>cs. if i < length cs then Some (cs ! i) else None)"

text \<open>The two assertions of a search that finds one subscriber.\<close>

definition found_only :: "ClientId \<Rightarrow> 'tx SubscriptionResponse \<Rightarrow> bool" where
  "found_only client_id result \<longleftrightarrow> length (subscription_list result) = 1
     \<and> fst (subscription_list result ! 0) = client_id"

section \<open>The tests\<close>

definition insert_single_segment_creates_child :: "'tx \<Rightarrow> u64 \<Rightarrow> bool" where
  "insert_single_segment_creates_child tx n \<longleftrightarrow>
     (let (client_id, m) = ClientId_new n in
       asserting (make_filter ''a'') (\<lambda>frouter. let router = router_insert tx client_id 1 frouter Router_new in
       asserting (children (root router)) (\<lambda>cs. length cs = 1)))"

definition insert_multi_segment_creates_nested_children :: "'tx \<Rightarrow> u64 \<Rightarrow> bool" where
  "insert_multi_segment_creates_nested_children tx n \<longleftrightarrow>
     (let (client_id, m) = ClientId_new n in
       asserting (make_filter ''a/b/c'') (\<lambda>frouter. let router = router_insert tx client_id 1 frouter Router_new in
       asserting (child_at 0 (root router)) (\<lambda>level1.
       asserting (child_at 0 level1) (\<lambda>level2.
       asserting (child_at 0 level2) (\<lambda>level3.
         level level1 = string_bytes ''a'' \<and> level level2 = string_bytes ''b'' \<and> level level3 = string_bytes ''c'')))))"

definition insert_leaf_node_contains_subscription :: "'tx \<Rightarrow> u64 \<Rightarrow> bool" where
  "insert_leaf_node_contains_subscription tx n \<longleftrightarrow>
     (let (client_id, m) = ClientId_new n in
       asserting (make_filter ''a/b'') (\<lambda>frouter. let router = router_insert tx client_id 7 frouter Router_new in
       asserting (Option.bind (child_at 0 (root router)) (child_at 0)) (\<lambda>leaf.
         map_of (subscription_map leaf) (SubscriptionKey_new client_id 7) \<noteq> None)))"

definition insert_wildcard_single_wildcard_sets_flag_on_parent :: "'tx \<Rightarrow> u64 \<Rightarrow> bool" where
  "insert_wildcard_single_wildcard_sets_flag_on_parent tx n \<longleftrightarrow>
     (let (client_id, m) = ClientId_new n in
       asserting (make_filter ''a/+/c'') (\<lambda>frouter. let router = router_insert tx client_id 1 frouter Router_new in
       asserting (child_at 0 (root router)) has_wildcard_single))"

definition insert_wildcard_multi_sets_flag_on_parent :: "'tx \<Rightarrow> u64 \<Rightarrow> bool" where
  "insert_wildcard_multi_sets_flag_on_parent tx n \<longleftrightarrow>
     (let (client_id, m) = ClientId_new n in
       asserting (make_filter ''a/#'') (\<lambda>frouter. let router = router_insert tx client_id 1 frouter Router_new in
       asserting (child_at 0 (root router)) has_wildcard_multi))"

definition insert_two_subscribers_same_topic :: "'tx \<Rightarrow> 'tx \<Rightarrow> u64 \<Rightarrow> bool" where
  "insert_two_subscribers_same_topic tx1 tx2 n \<longleftrightarrow>
     (let (client_id_1, m1) = ClientId_new n; (client_id_2, m2) = ClientId_new m1 in
       asserting (make_filter ''a/b'') (\<lambda>fr1. let r1 = router_insert tx1 client_id_1 1 fr1 Router_new in
       asserting (make_filter ''a/b'') (\<lambda>fr2. let r2 = router_insert tx2 client_id_2 2 fr2 r1 in
       asserting (Option.bind (child_at 0 (root r2)) (child_at 0)) (\<lambda>leaf. length (subscription_map leaf) = 2))))"

definition insert_shares_common_prefix_nodes :: "'tx \<Rightarrow> 'tx \<Rightarrow> u64 \<Rightarrow> bool" where
  "insert_shares_common_prefix_nodes tx1 tx2 n \<longleftrightarrow>
     (let (client_id_1, m1) = ClientId_new n; (client_id_2, m2) = ClientId_new m1 in
       asserting (make_filter ''a/b/c'') (\<lambda>fr1. let r1 = router_insert tx1 client_id_1 1 fr1 Router_new in
       asserting (make_filter ''a/b/d'') (\<lambda>fr2. let r2 = router_insert tx2 client_id_2 2 fr2 r1 in
       asserting (child_at 0 (root r2)) (\<lambda>level1.
       asserting (child_at 0 level1) (\<lambda>level2.
       asserting (children (root r2)) (\<lambda>cs. length cs = 1)
         \<and> asserting (children level1) (\<lambda>cs. length cs = 1)
         \<and> asserting (children level2) (\<lambda>cs. length cs = 2))))))"

definition search_exact_match_returns_subscriber :: "'tx \<Rightarrow> u64 \<Rightarrow> bool" where
  "search_exact_match_returns_subscriber tx n \<longleftrightarrow>
     (let (client_id, m) = ClientId_new n in
       asserting (make_filter ''a/b'') (\<lambda>frouter. let router = router_insert tx client_id 1 frouter Router_new in
       asserting (make_topic ''a/b'') (\<lambda>t. found_only client_id (router_search t router))))"

definition search_no_match_returns_empty :: "'tx \<Rightarrow> u64 \<Rightarrow> bool" where
  "search_no_match_returns_empty tx n \<longleftrightarrow>
     (let (client_id, m) = ClientId_new n in
       asserting (make_filter ''a/b'') (\<lambda>frouter. let router = router_insert tx client_id 1 frouter Router_new in
       asserting (make_topic ''a/c'') (\<lambda>t. subscription_list (router_search t router) = [])))"

definition search_single_wildcard_matches_one_segment :: "'tx \<Rightarrow> u64 \<Rightarrow> bool" where
  "search_single_wildcard_matches_one_segment tx n \<longleftrightarrow>
     (let (client_id, m) = ClientId_new n in
       asserting (make_filter ''a/+/c'') (\<lambda>frouter. let router = router_insert tx client_id 1 frouter Router_new in
       asserting (make_topic ''a/b/c'') (\<lambda>t. found_only client_id (router_search t router))))"

definition search_single_wildcard_does_not_match_wrong_depth :: "'tx \<Rightarrow> u64 \<Rightarrow> bool" where
  "search_single_wildcard_does_not_match_wrong_depth tx n \<longleftrightarrow>
     (let (client_id, m) = ClientId_new n in
       asserting (make_filter ''a/+/c'') (\<lambda>frouter. let router = router_insert tx client_id 1 frouter Router_new in
       asserting (make_topic ''a/c'') (\<lambda>t. subscription_list (router_search t router) = [])))"

definition search_multi_wildcard_matches_remaining_segments :: "'tx \<Rightarrow> u64 \<Rightarrow> bool" where
  "search_multi_wildcard_matches_remaining_segments tx n \<longleftrightarrow>
     (let (client_id, m) = ClientId_new n in
       asserting (make_filter ''a/#'') (\<lambda>frouter. let router = router_insert tx client_id 1 frouter Router_new in
       asserting (make_topic ''a/b/c'') (\<lambda>t. found_only client_id (router_search t router))))"

definition search_multi_wildcard_matches_zero_remaining_segments :: "'tx \<Rightarrow> u64 \<Rightarrow> bool" where
  "search_multi_wildcard_matches_zero_remaining_segments tx n \<longleftrightarrow>
     (let (client_id, m) = ClientId_new n in
       asserting (make_filter ''a/#'') (\<lambda>frouter. let router = router_insert tx client_id 1 frouter Router_new in
       asserting (make_topic ''a'') (\<lambda>t. found_only client_id (router_search t router))))"

definition search_root_multi_wildcard_matches_any_topic :: "'tx \<Rightarrow> u64 \<Rightarrow> bool" where
  "search_root_multi_wildcard_matches_any_topic tx n \<longleftrightarrow>
     (let (client_id, m) = ClientId_new n in
       asserting (make_filter ''#'') (\<lambda>frouter. let router = router_insert tx client_id 1 frouter Router_new in
       asserting (make_topic ''a/b/c'') (\<lambda>t. found_only client_id (router_search t router))))"

definition search_returns_all_matching_subscribers :: "'tx \<Rightarrow> 'tx \<Rightarrow> 'tx \<Rightarrow> u64 \<Rightarrow> bool" where
  "search_returns_all_matching_subscribers tx1 tx2 tx3 n \<longleftrightarrow>
     (let (client_id_1, m1) = ClientId_new n; (client_id_2, m2) = ClientId_new m1;
          (client_id_3, m3) = ClientId_new m2 in
       asserting (make_filter ''a/b'') (\<lambda>fr1. let r1 = router_insert tx1 client_id_1 1 fr1 Router_new in
       asserting (make_filter ''a/+'') (\<lambda>fr2. let r2 = router_insert tx2 client_id_2 2 fr2 r1 in
       asserting (make_filter ''a/#'') (\<lambda>fr3. let r3 = router_insert tx3 client_id_3 3 fr3 r2 in
       asserting (make_topic ''a/b'') (\<lambda>t. length (subscription_list (router_search t r3)) = 3)))))"

definition search_non_matching_sibling_not_returned :: "'tx \<Rightarrow> 'tx \<Rightarrow> u64 \<Rightarrow> bool" where
  "search_non_matching_sibling_not_returned tx1 tx2 n \<longleftrightarrow>
     (let (client_id_1, m1) = ClientId_new n; (client_id_2, m2) = ClientId_new m1 in
       asserting (make_filter ''x/y'') (\<lambda>fr1. let r1 = router_insert tx1 client_id_1 1 fr1 Router_new in
       asserting (make_filter ''a/b'') (\<lambda>fr2. let r2 = router_insert tx2 client_id_2 2 fr2 r1 in
       asserting (make_topic ''a/b'') (\<lambda>t. found_only client_id_2 (router_search t r2)))))"

definition delete_removes_subscription_from_leaf :: "'tx \<Rightarrow> 'tx \<Rightarrow> u64 \<Rightarrow> bool" where
  "delete_removes_subscription_from_leaf tx1 tx2 n \<longleftrightarrow>
     (let (client_id_1, m1) = ClientId_new n; (client_id_2, m2) = ClientId_new m1 in
       asserting (make_filter ''a/b'') (\<lambda>fr1. let r1 = router_insert tx1 client_id_1 1 fr1 Router_new in
       asserting (make_filter ''a/b'') (\<lambda>fr2. let r2 = router_insert tx2 client_id_2 2 fr2 r1 in
       asserting (router_delete (SubscriptionKey_new client_id_1 1) r2) (\<lambda>router.
       asserting (Option.bind (child_at 0 (root router)) (child_at 0)) (\<lambda>leaf.
         map_of (subscription_map leaf) (SubscriptionKey_new client_id_1 1) = None
         \<and> length (subscription_map leaf) = 1)))))"

definition delete_cleans_up_empty_leaf_node :: "'tx \<Rightarrow> u64 \<Rightarrow> bool" where
  "delete_cleans_up_empty_leaf_node tx n \<longleftrightarrow>
     (let (client_id, m) = ClientId_new n in
       asserting (make_filter ''a'') (\<lambda>fr1. let r1 = router_insert tx client_id 1 fr1 Router_new in
       asserting (router_delete (SubscriptionKey_new client_id 1) r1) (\<lambda>router. children (root router) = None)))"

definition delete_cleans_up_empty_intermediate_nodes :: "'tx \<Rightarrow> u64 \<Rightarrow> bool" where
  "delete_cleans_up_empty_intermediate_nodes tx n \<longleftrightarrow>
     (let (client_id, m) = ClientId_new n in
       asserting (make_filter ''a/b/c'') (\<lambda>fr1. let r1 = router_insert tx client_id 1 fr1 Router_new in
       asserting (router_delete (SubscriptionKey_new client_id 1) r1) (\<lambda>router. children (root router) = None)))"

definition delete_updates_wildcard_single_flag_on_parent :: "'tx \<Rightarrow> u64 \<Rightarrow> bool" where
  "delete_updates_wildcard_single_flag_on_parent tx n \<longleftrightarrow>
     (let (client_id, m) = ClientId_new n in
       asserting (make_filter ''a/+/c'') (\<lambda>fr1. let r1 = router_insert tx client_id 1 fr1 Router_new in
       asserting (child_at 0 (root r1)) has_wildcard_single
       \<and> asserting (router_delete (SubscriptionKey_new client_id 1) r1) (\<lambda>router. children (root router) = None)))"

definition delete_updates_wildcard_multi_flag_on_parent :: "'tx \<Rightarrow> u64 \<Rightarrow> bool" where
  "delete_updates_wildcard_multi_flag_on_parent tx n \<longleftrightarrow>
     (let (client_id, m) = ClientId_new n in
       asserting (make_filter ''a/#'') (\<lambda>fr1. let r1 = router_insert tx client_id 1 fr1 Router_new in
       asserting (child_at 0 (root r1)) has_wildcard_multi
       \<and> asserting (router_delete (SubscriptionKey_new client_id 1) r1) (\<lambda>router. children (root router) = None)))"

definition delete_of_nonexistent_key_is_noop :: "'tx \<Rightarrow> u64 \<Rightarrow> bool" where
  "delete_of_nonexistent_key_is_noop tx n \<longleftrightarrow>
     (let (client_id_1, m1) = ClientId_new n; (client_id_2, m2) = ClientId_new m1 in
       asserting (make_filter ''a/b'') (\<lambda>fr1. let r1 = router_insert tx client_id_1 1 fr1 Router_new in
       asserting (children (root r1)) (\<lambda>children_before.
       asserting (router_delete (SubscriptionKey_new client_id_2 99) r1) (\<lambda>router.
       asserting (children (root router)) (\<lambda>cs. length cs = length children_before)))))"

definition delete_leaves_sibling_intact :: "'tx \<Rightarrow> 'tx \<Rightarrow> u64 \<Rightarrow> bool" where
  "delete_leaves_sibling_intact tx1 tx2 n \<longleftrightarrow>
     (let (client_id_1, m1) = ClientId_new n; (client_id_2, m2) = ClientId_new m1 in
       asserting (make_filter ''a/b'') (\<lambda>fr1. let r1 = router_insert tx1 client_id_1 1 fr1 Router_new in
       asserting (make_filter ''a/c'') (\<lambda>fr2. let r2 = router_insert tx2 client_id_2 2 fr2 r1 in
       asserting (router_delete (SubscriptionKey_new client_id_1 1) r2) (\<lambda>router.
       asserting (child_at 0 (root router)) (\<lambda>level1.
         asserting (children level1) (\<lambda>cs. length cs = 1)
         \<and> asserting (child_at 0 level1) (\<lambda>child. level child = string_bytes ''c''))))))"

lemmas router_test_defs = insert_single_segment_creates_child_def
  insert_multi_segment_creates_nested_children_def
  insert_leaf_node_contains_subscription_def
  insert_wildcard_single_wildcard_sets_flag_on_parent_def
  insert_wildcard_multi_sets_flag_on_parent_def
  insert_two_subscribers_same_topic_def
  insert_shares_common_prefix_nodes_def
  search_exact_match_returns_subscriber_def
  search_no_match_returns_empty_def
  search_single_wildcard_matches_one_segment_def
  search_single_wildcard_does_not_match_wrong_depth_def
  search_multi_wildcard_matches_remaining_segments_def
  search_multi_wildcard_matches_zero_remaining_segments_def
  search_root_multi_wildcard_matches_any_topic_def
  search_returns_all_matching_subscribers_def
  search_non_matching_sibling_not_returned_def
  delete_removes_subscription_from_leaf_def
  delete_cleans_up_empty_leaf_node_def
  delete_cleans_up_empty_intermediate_nodes_def
  delete_updates_wildcard_single_flag_on_parent_def
  delete_updates_wildcard_multi_flag_on_parent_def
  delete_of_nonexistent_key_is_noop_def
  delete_leaves_sibling_intact_def

section \<open>Evaluation\<close>

lemma test_filters:
  "make_filter ''a'' = Some (TopicFilter (string_bytes ''a''))"
  "make_filter ''a/b'' = Some (TopicFilter (string_bytes ''a/b''))"
  "make_filter ''a/b/c'' = Some (TopicFilter (string_bytes ''a/b/c''))"
  "make_filter ''a/b/d'' = Some (TopicFilter (string_bytes ''a/b/d''))"
  "make_filter ''a/c'' = Some (TopicFilter (string_bytes ''a/c''))"
  "make_filter ''a/+'' = Some (TopicFilter (string_bytes ''a/+''))"
  "make_filter ''a/+/c'' = Some (TopicFilter (string_bytes ''a/+/c''))"
  "make_filter ''a/#'' = Some (TopicFilter (string_bytes ''a/#''))"
  "make_filter ''#'' = Some (TopicFilter (string_bytes ''#''))"
  "make_filter ''x/y'' = Some (TopicFilter (string_bytes ''x/y''))"
  by (simp_all add: make_filter_def name_evals del: slice_split.simps)

lemma test_filter_segments:
  "TopicFilter_segments (TopicFilter (string_bytes ''a'')) = [[0x61]]"
  "TopicFilter_segments (TopicFilter (string_bytes ''a/b'')) = [[0x61], [0x62]]"
  "TopicFilter_segments (TopicFilter (string_bytes ''a/b/c'')) = [[0x61], [0x62], [0x63]]"
  "TopicFilter_segments (TopicFilter (string_bytes ''a/b/d'')) = [[0x61], [0x62], [0x64]]"
  "TopicFilter_segments (TopicFilter (string_bytes ''a/c'')) = [[0x61], [0x63]]"
  "TopicFilter_segments (TopicFilter (string_bytes ''a/+'')) = [[0x61], [0x2b]]"
  "TopicFilter_segments (TopicFilter (string_bytes ''a/+/c'')) = [[0x61], [0x2b], [0x63]]"
  "TopicFilter_segments (TopicFilter (string_bytes ''a/#'')) = [[0x61], [0x23]]"
  "TopicFilter_segments (TopicFilter (string_bytes ''#'')) = [[0x23]]"
  "TopicFilter_segments (TopicFilter (string_bytes ''x/y'')) = [[0x78], [0x79]]"
  by (simp_all add: name_evals del: slice_split.simps)

lemma test_topics:
  "make_topic ''a'' = Some (Topic (string_bytes ''a''))"
  "make_topic ''a/b'' = Some (Topic (string_bytes ''a/b''))"
  "make_topic ''a/c'' = Some (Topic (string_bytes ''a/c''))"
  "make_topic ''a/b/c'' = Some (Topic (string_bytes ''a/b/c''))"
  by (simp_all add: make_topic_def name_evals del: slice_split.simps)

lemma test_topic_segments:
  "Topic_segments (Topic (string_bytes ''a'')) = [[0x61]]"
  "Topic_segments (Topic (string_bytes ''a/b'')) = [[0x61], [0x62]]"
  "Topic_segments (Topic (string_bytes ''a/c'')) = [[0x61], [0x63]]"
  "Topic_segments (Topic (string_bytes ''a/b/c'')) = [[0x61], [0x62], [0x63]]"
  by (simp_all add: name_evals del: slice_split.simps)

lemma test_levels:
  "string_bytes ''a'' = [0x61]" "string_bytes ''b'' = [0x62]" "string_bytes ''c'' = [0x63]"
  "TopicFilter_segments (TopicFilter [0x61]) = [[0x61]]" "Topic_segments (Topic [0x61]) = [[0x61]]"
  by (simp_all add: name_evals del: slice_split.simps)

lemmas router_test_evals = test_levels test_filters test_filter_segments test_topics test_topic_segments
  router_insert_def router_search_def router_delete_def Router_new_def Node_default_def Node_at_level_def
  ClientId_new_def SubscriptionKey_new_def child_at_def found_only_def multi_child_def collect_node_def
  to_subscription_def remove_subscription_def set_children_def prune_child_def prunable_def vec_remove_def
  WILDCARD_SINGLE_def WILDCARD_MULTI_def

lemma insert_tests_pass:
  "insert_single_segment_creates_child tx1 n"
  "insert_multi_segment_creates_nested_children tx1 n"
  "insert_leaf_node_contains_subscription tx1 n"
  "insert_wildcard_single_wildcard_sets_flag_on_parent tx1 n"
  "insert_wildcard_multi_sets_flag_on_parent tx1 n"
  "insert_two_subscribers_same_topic tx1 tx2 n"
  "insert_shares_common_prefix_nodes tx1 tx2 n"
  by (simp_all add: router_test_defs router_test_evals Let_def)

lemma search_tests_pass:
  "search_exact_match_returns_subscriber tx1 n"
  "search_no_match_returns_empty tx1 n"
  "search_single_wildcard_matches_one_segment tx1 n"
  "search_single_wildcard_does_not_match_wrong_depth tx1 n"
  "search_multi_wildcard_matches_remaining_segments tx1 n"
  "search_multi_wildcard_matches_zero_remaining_segments tx1 n"
  "search_root_multi_wildcard_matches_any_topic tx1 n"
  "search_returns_all_matching_subscribers tx1 tx2 tx3 n"
  "search_non_matching_sibling_not_returned tx1 tx2 n"
  by (simp_all add: router_test_defs router_test_evals Let_def)

lemma delete_tests_pass:
  "delete_removes_subscription_from_leaf tx1 tx2 n"
  "delete_cleans_up_empty_leaf_node tx1 n"
  "delete_cleans_up_empty_intermediate_nodes tx1 n"
  "delete_updates_wildcard_single_flag_on_parent tx1 n"
  "delete_updates_wildcard_multi_flag_on_parent tx1 n"
  "delete_of_nonexistent_key_is_noop tx1 n"
  "delete_leaves_sibling_intact tx1 tx2 n"
  by (simp_all add: router_test_defs router_test_evals Let_def)

section \<open>Properties\<close>

text \<open>
  Every unit test of \<open>router.rs\<close> passes on the modelled trie, whatever senders the test creates and
  whatever value the process-wide identifier counter has when the test starts, the wrap-around
  included: no \<open>unwrap\<close> and no index panics, and every assertion on nodes, flags and results holds.
\<close>

theorem router_tests_pass:
  "insert_single_segment_creates_child tx1 n
    \<and> insert_multi_segment_creates_nested_children tx1 n
    \<and> insert_leaf_node_contains_subscription tx1 n
    \<and> insert_wildcard_single_wildcard_sets_flag_on_parent tx1 n
    \<and> insert_wildcard_multi_sets_flag_on_parent tx1 n
    \<and> insert_two_subscribers_same_topic tx1 tx2 n
    \<and> insert_shares_common_prefix_nodes tx1 tx2 n
    \<and> search_exact_match_returns_subscriber tx1 n
    \<and> search_no_match_returns_empty tx1 n
    \<and> search_single_wildcard_matches_one_segment tx1 n
    \<and> search_single_wildcard_does_not_match_wrong_depth tx1 n
    \<and> search_multi_wildcard_matches_remaining_segments tx1 n
    \<and> search_multi_wildcard_matches_zero_remaining_segments tx1 n
    \<and> search_root_multi_wildcard_matches_any_topic tx1 n
    \<and> search_returns_all_matching_subscribers tx1 tx2 tx3 n
    \<and> search_non_matching_sibling_not_returned tx1 tx2 n
    \<and> delete_removes_subscription_from_leaf tx1 tx2 n
    \<and> delete_cleans_up_empty_leaf_node tx1 n
    \<and> delete_cleans_up_empty_intermediate_nodes tx1 n
    \<and> delete_updates_wildcard_single_flag_on_parent tx1 n
    \<and> delete_updates_wildcard_multi_flag_on_parent tx1 n
    \<and> delete_of_nonexistent_key_is_noop tx1 n
    \<and> delete_leaves_sibling_intact tx1 tx2 n"
  by (intro conjI insert_tests_pass search_tests_pass delete_tests_pass)

end
