(* ===== verification/Codec_Tests.thy ===== *)
theory Codec_Tests
  imports Session_Properties
begin

text \<open>
  The unit tests of \<open>crates/server/src/parser.rs\<close>, one predicate per test, for any generated protobuf code
  \<open>P\<close>. The tests over \<open>FramedRead\<close> read from a cursor; \<open>cursor\<close> says in which chunks it delivers its bytes.
\<close>

section \<open>Helpers of the tests\<close>

text \<open>\<open>codec.encode(item, &mut output_buffer).unwrap()\<close>: the buffer after it.\<close>

fun encoded :: "('e + unit) \<times> bytes \<Rightarrow> bytes option" where
  "encoded (Err e, output_buffer) = None"
| "encoded (Ok _, output_buffer) = Some output_buffer"

text \<open>\<open>codec.decode(&mut buffer).unwrap().unwrap()\<close>: the frame and the buffer after it.\<close>

fun decoded :: "('e + 'f option) \<times> bytes \<Rightarrow> ('f \<times> bytes) option" where
  "decoded (Ok (Some frame), buffer) = Some (frame, buffer)"
| "decoded (_, buffer) = None"

text \<open>
  The assertions on the header of an encoded frame: a full header, the command byte, and the length of
  the rest of the buffer.
\<close>

definition has_header :: "Command \<Rightarrow> bytes \<Rightarrow> bool" where
  "has_header command output_buffer \<longleftrightarrow>
     (let header_bytes = drop COMMAND_BYTE_LEN (take HEADER_LENGTH output_buffer);
          payload_length = unat (get_u32 header_bytes);
          payload_bytes = drop HEADER_LENGTH output_buffer
      in HEADER_LENGTH \<le> length output_buffer \<and> output_buffer ! 0 = Command_as_u8 command
        \<and> payload_length = length payload_bytes)"

text \<open>An invalid command byte and a frame behind it.\<close>

definition bad_prefix :: "Command \<Rightarrow> bytes \<Rightarrow> bytes" where
  "bad_prefix command payload =
     [0xFF] @ [Command_as_u8 command] @ put_u32 (of_nat (length payload)) @ payload"

text \<open>\<open>FramedRead::with_capacity(cursor, ServerCodec, 32 * 1024)\<close>\<close>

definition framed_over :: "(io_error + bytes) list \<Rightarrow> tokio_state" where
  "framed_over reads = \<lparr>tk_buffer = [], tk_reads = reads, tk_ended = False, tk_queue = [],
     tk_receiver_alive = True, tk_latency_ms = 0\<rparr>"

text \<open>
  \<open>framed.next().await.unwrap().unwrap()\<close> matches the pattern, for each pattern in turn, and then
  \<open>framed.next().await.is_none()\<close>.
\<close>

fun nexts_match :: "prost \<Rightarrow> (Frame \<Rightarrow> bool) list \<Rightarrow> tokio_state \<Rightarrow> bool" where
  "nexts_match P [] framed \<longleftrightarrow> fst (tokio_next P framed) = None"
| "nexts_match P (is_expected # rest) framed \<longleftrightarrow>
     (case tokio_next P framed of
        (Some (Ok frame), framed1) \<Rightarrow> is_expected frame \<and> nexts_match P rest framed1
      | _ \<Rightarrow> False)"

text \<open>\<open>matches!(frame, Frame::X(_))\<close>\<close>

fun is_Connect :: "Frame \<Rightarrow> bool" where
  "is_Connect (Frame_Connect m) \<longleftrightarrow> True" | "is_Connect _ \<longleftrightarrow> False"

fun is_Publish :: "Frame \<Rightarrow> bool" where
  "is_Publish (Frame_Publish m) \<longleftrightarrow> True" | "is_Publish _ \<longleftrightarrow> False"

fun is_Subscribe :: "Frame \<Rightarrow> bool" where
  "is_Subscribe (Frame_Subscribe m) \<longleftrightarrow> True" | "is_Subscribe _ \<longleftrightarrow> False"

fun is_UnSubscribe :: "Frame \<Rightarrow> bool" where
  "is_UnSubscribe (Frame_UnSubscribe m) \<longleftrightarrow> True" | "is_UnSubscribe _ \<longleftrightarrow> False"

section \<open>The messages of the tests\<close>

definition test_info :: "u32 \<Rightarrow> string \<Rightarrow> u32 \<Rightarrow> pb_Info" where
  "test_info version server_id max_payload =
     \<lparr>info_version = version, info_server_id = server_id, info_server_name = ''ocypode'',
      info_max_payload = max_payload, info_client_id = 0, info_requires_auth = False, info_tls_verify = False\<rparr>"

definition test_connect :: "bool \<Rightarrow> pb_Connect" where
  "test_connect verbose =
     \<lparr>connect_version = 1, connect_verbose = verbose, connect_auth_method = AuthMethod_as_i32 NoAuth,
      connect_credentials = None\<rparr>"

definition test_publish :: "string \<Rightarrow> string \<Rightarrow> string \<Rightarrow> pb_Publish" where
  "test_publish topic payload header =
     \<lparr>publish_topic = string_bytes topic, publish_payload = string_bytes payload,
      publish_header = string_bytes header\<rparr>"

definition test_subscribe :: "string \<Rightarrow> u32 \<Rightarrow> string \<Rightarrow> pb_Subscribe" where
  "test_subscribe topic subscription_id queue_group =
     \<lparr>subscribe_topic = string_bytes topic, subscribe_subscription_id = subscription_id,
      subscribe_queue_group = queue_group\<rparr>"

definition test_unsubscribe :: "u32 \<Rightarrow> pb_UnSubscribe" where
  "test_unsubscribe subscription_id = \<lparr>unsubscribe_subscription_id = subscription_id\<rparr>"

definition test_message :: "string \<Rightarrow> u32 \<Rightarrow> string \<Rightarrow> string \<Rightarrow> pb_Message" where
  "test_message topic subscription_id payload header =
     \<lparr>message_topic = string_bytes topic, message_subscription_id = subscription_id,
      message_payload = string_bytes payload, message_header = string_bytes header\<rparr>"

section \<open>The tests\<close>

definition encode_info_frame_has_header_and_payload :: "prost \<Rightarrow> bool" where
  "encode_info_frame_has_header_and_payload P \<longleftrightarrow>
     (let info = test_info 1 ''srv-1'' 1024 in
      asserting (encoded (server_encode (Info_codec P) info [])) (\<lambda>output_buffer.
        has_header Command_Info output_buffer
        \<and> asserting (unwrap (Info_decode P (drop HEADER_LENGTH output_buffer))) (\<lambda>message.
            info_version message = info_version info \<and> info_server_id message = info_server_id info)))"

definition decode_conn_frame_recovers_from_bad_prefix :: "prost \<Rightarrow> bool" where
  "decode_conn_frame_recovers_from_bad_prefix P \<longleftrightarrow>
     (let conn = test_connect True in
      asserting (unwrap (Connect_encode P conn)) (\<lambda>payload.
      asserting (decoded (server_decode P (bad_prefix Command_Connect payload))) (\<lambda>(frame, incoming_bytes).
        is_Connect frame \<and> incoming_bytes = [])))"

definition encode_and_decode_info_frame :: "prost \<Rightarrow> bool" where
  "encode_and_decode_info_frame P \<longleftrightarrow>
     (let info = test_info 1 ''srv-2'' 2048 in
      asserting (encoded (server_encode (Info_codec P) info [])) (\<lambda>output_buffer.
      asserting (decoded (client_decode P output_buffer)) (\<lambda>(frame, rest).
        (case frame of
           ClientFrame_Info message \<Rightarrow> info_server_id message = info_server_id info
             \<and> info_max_payload message = info_max_payload info
         | ClientFrame_Message _ \<Rightarrow> False) \<and> rest = [])))"

definition client_encode_connect_frame_has_header_and_payload :: "prost \<Rightarrow> bool" where
  "client_encode_connect_frame_has_header_and_payload P \<longleftrightarrow>
     (let conn = test_connect True in
      asserting (encoded (client_encode (Connect_codec P) conn [])) (\<lambda>output_buffer.
        has_header Command_Connect output_buffer
        \<and> asserting (unwrap (Connect_decode P (drop HEADER_LENGTH output_buffer))) (\<lambda>message.
            connect_version message = connect_version conn)))"

definition client_decode_info_frame_recovers_from_bad_prefix :: "prost \<Rightarrow> bool" where
  "client_decode_info_frame_recovers_from_bad_prefix P \<longleftrightarrow>
     (let info = test_info 1 ''srv-3'' 512 in
      asserting (unwrap (Info_encode P info)) (\<lambda>payload.
      asserting (decoded (client_decode P (bad_prefix Command_Info payload))) (\<lambda>(frame, incoming_bytes).
        (case frame of
           ClientFrame_Info message \<Rightarrow> info_server_id message = info_server_id info
         | ClientFrame_Message _ \<Rightarrow> False) \<and> incoming_bytes = [])))"

definition client_encode_and_decode_info_frame :: "prost \<Rightarrow> bool" where
  "client_encode_and_decode_info_frame P \<longleftrightarrow>
     (let info = test_info 2 ''srv-4'' 4096 in
      asserting (encoded (server_encode (Info_codec P) info [])) (\<lambda>output_buffer.
      asserting (decoded (client_decode P output_buffer)) (\<lambda>(frame, rest).
        (case frame of
           ClientFrame_Info message \<Rightarrow> info_server_id message = info_server_id info
             \<and> info_max_payload message = info_max_payload info
         | ClientFrame_Message _ \<Rightarrow> False) \<and> rest = [])))"

definition build_connect_frame :: "prost \<Rightarrow> bytes option" where
  "build_connect_frame P = encoded (client_encode (Connect_codec P) (test_connect False) [])"

definition framed_read_decodes_single_connect_frame :: "prost \<Rightarrow> (bytes \<Rightarrow> (io_error + bytes) list) \<Rightarrow> bool" where
  "framed_read_decodes_single_connect_frame P cursor \<longleftrightarrow>
     asserting (build_connect_frame P) (\<lambda>data. nexts_match P [is_Connect] (framed_over (cursor data)))"

definition framed_read_decodes_multiple_frames_in_sequence :: "prost \<Rightarrow> (bytes \<Rightarrow> (io_error + bytes) list) \<Rightarrow> bool" where
  "framed_read_decodes_multiple_frames_in_sequence P cursor \<longleftrightarrow>
     asserting (build_connect_frame P) (\<lambda>data1.
     asserting (build_connect_frame P) (\<lambda>data2.
       nexts_match P [is_Connect, is_Connect] (framed_over (cursor (data1 @ data2)))))"

definition framed_read_recovers_from_bad_prefix_byte :: "prost \<Rightarrow> (bytes \<Rightarrow> (io_error + bytes) list) \<Rightarrow> bool" where
  "framed_read_recovers_from_bad_prefix_byte P cursor \<longleftrightarrow>
     asserting (build_connect_frame P) (\<lambda>conn_data.
       nexts_match P [is_Connect] (framed_over (cursor ([0xFF] @ conn_data))))"

definition encode_and_decode_publish_frame :: "prost \<Rightarrow> bool" where
  "encode_and_decode_publish_frame P \<longleftrightarrow>
     (let publish = test_publish ''sensors/temperature'' ''42.5'' ''content-type:text/plain'' in
      asserting (encoded (server_encode (Publish_codec P) publish [])) (\<lambda>output_buffer.
      asserting (decoded (server_decode P output_buffer)) (\<lambda>(frame, rest).
        (case frame of
           Frame_Publish message \<Rightarrow> publish_topic message = publish_topic publish
             \<and> publish_payload message = publish_payload publish
             \<and> publish_header message = publish_header publish
         | _ \<Rightarrow> False) \<and> rest = [])))"

definition encode_publish_frame_has_correct_header :: "prost \<Rightarrow> bool" where
  "encode_publish_frame_has_correct_header P \<longleftrightarrow>
     asserting (encoded (server_encode (Publish_codec P) (test_publish ''test/topic'' ''hello'' []) []))
       (has_header Command_Publish)"

definition encode_and_decode_subscribe_frame :: "prost \<Rightarrow> bool" where
  "encode_and_decode_subscribe_frame P \<longleftrightarrow>
     (let subscribe = test_subscribe ''sensors/#'' 7 ''workers'' in
      asserting (encoded (server_encode (Subscribe_codec P) subscribe [])) (\<lambda>output_buffer.
      asserting (decoded (server_decode P output_buffer)) (\<lambda>(frame, rest).
        (case frame of
           Frame_Subscribe message \<Rightarrow> subscribe_topic message = subscribe_topic subscribe
             \<and> subscribe_subscription_id message = subscribe_subscription_id subscribe
             \<and> subscribe_queue_group message = subscribe_queue_group subscribe
         | _ \<Rightarrow> False) \<and> rest = [])))"

definition subscribe_without_queue_group_roundtrips :: "prost \<Rightarrow> bool" where
  "subscribe_without_queue_group_roundtrips P \<longleftrightarrow>
     (let subscribe = test_subscribe ''events/+/status'' 1 [] in
      asserting (encoded (server_encode (Subscribe_codec P) subscribe [])) (\<lambda>output_buffer.
      asserting (decoded (server_decode P output_buffer)) (\<lambda>(frame, rest).
        (case frame of
           Frame_Subscribe message \<Rightarrow> subscribe_subscription_id message = subscribe_subscription_id subscribe
             \<and> subscribe_queue_group message = []
         | _ \<Rightarrow> False))))"

definition encode_and_decode_unsubscribe_frame :: "prost \<Rightarrow> bool" where
  "encode_and_decode_unsubscribe_frame P \<longleftrightarrow>
     (let unsubscribe = test_unsubscribe 42 in
      asserting (encoded (server_encode (UnSubscribe_codec P) unsubscribe [])) (\<lambda>output_buffer.
      asserting (decoded (server_decode P output_buffer)) (\<lambda>(frame, rest).
        (case frame of
           Frame_UnSubscribe message \<Rightarrow>
             unsubscribe_subscription_id message = unsubscribe_subscription_id unsubscribe
         | _ \<Rightarrow> False) \<and> rest = [])))"

definition encode_and_decode_message_frame :: "prost \<Rightarrow> bool" where
  "encode_and_decode_message_frame P \<longleftrightarrow>
     (let message = test_message ''sensors/temperature'' 3 ''23.1'' ''encoding:utf-8'' in
      asserting (encoded (server_encode (Message_codec P) message [])) (\<lambda>output_buffer.
      asserting (decoded (client_decode P output_buffer)) (\<lambda>(frame, rest).
        (case frame of
           ClientFrame_Message delivered \<Rightarrow> message_topic delivered = message_topic message
             \<and> message_subscription_id delivered = message_subscription_id message
             \<and> message_payload delivered = message_payload message
             \<and> message_header delivered = message_header message
         | ClientFrame_Info _ \<Rightarrow> False) \<and> rest = [])))"

definition client_decode_message_frame_recovers_from_bad_prefix :: "prost \<Rightarrow> bool" where
  "client_decode_message_frame_recovers_from_bad_prefix P \<longleftrightarrow>
     (let message = test_message ''test/topic'' 5 ''data'' [] in
      asserting (unwrap (Message_encode P message)) (\<lambda>payload.
      asserting (decoded (client_decode P (bad_prefix Command_Message payload))) (\<lambda>(frame, incoming_bytes).
        (case frame of
           ClientFrame_Message delivered \<Rightarrow> message_subscription_id delivered = message_subscription_id message
         | ClientFrame_Info _ \<Rightarrow> False) \<and> incoming_bytes = [])))"

definition framed_read_decodes_publish_subscribe_unsubscribe_sequence :: "prost \<Rightarrow> (bytes \<Rightarrow> (io_error + bytes) list) \<Rightarrow> bool" where
  "framed_read_decodes_publish_subscribe_unsubscribe_sequence P cursor \<longleftrightarrow>
     asserting (encoded (client_encode (Publish_codec P) (test_publish ''a/b'' ''payload'' []) [])) (\<lambda>buf1.
     asserting (encoded (client_encode (Subscribe_codec P) (test_subscribe ''a/#'' 1 []) buf1)) (\<lambda>buf2.
     asserting (encoded (client_encode (UnSubscribe_codec P) (test_unsubscribe 1) buf2)) (\<lambda>buf3.
       nexts_match P [is_Publish, is_Subscribe, is_UnSubscribe] (framed_over (cursor buf3)))))"

lemmas codec_test_defs = encode_info_frame_has_header_and_payload_def
  decode_conn_frame_recovers_from_bad_prefix_def
  encode_and_decode_info_frame_def
  client_encode_connect_frame_has_header_and_payload_def
  client_decode_info_frame_recovers_from_bad_prefix_def
  client_encode_and_decode_info_frame_def
  framed_read_decodes_single_connect_frame_def
  framed_read_decodes_multiple_frames_in_sequence_def
  framed_read_recovers_from_bad_prefix_byte_def
  encode_and_decode_publish_frame_def
  encode_publish_frame_has_correct_header_def
  encode_and_decode_subscribe_frame_def
  subscribe_without_queue_group_roundtrips_def
  encode_and_decode_unsubscribe_frame_def
  encode_and_decode_message_frame_def
  client_decode_message_frame_recovers_from_bad_prefix_def
  framed_read_decodes_publish_subscribe_unsubscribe_sequence_def

section \<open>Lemmas\<close>

definition client_deliverable :: "prost \<Rightarrow> ClientFrame \<Rightarrow> bool" where
  "client_deliverable P f \<longleftrightarrow> (\<exists>payload. client_frame_law P f payload \<and> length payload \<le> MAXIMUM_PAYLOAD_BYTES)"

text \<open>The frames the tests send, from the client's side and from the server's.\<close>

definition tested_frames :: "Frame list" where
  "tested_frames =
     [Frame_Connect (test_connect True), Frame_Connect (test_connect False),
      Frame_Publish (test_publish ''sensors/temperature'' ''42.5'' ''content-type:text/plain''),
      Frame_Publish (test_publish ''test/topic'' ''hello'' []), Frame_Publish (test_publish ''a/b'' ''payload'' []),
      Frame_Subscribe (test_subscribe ''sensors/#'' 7 ''workers''),
      Frame_Subscribe (test_subscribe ''events/+/status'' 1 []), Frame_Subscribe (test_subscribe ''a/#'' 1 []),
      Frame_UnSubscribe (test_unsubscribe 42), Frame_UnSubscribe (test_unsubscribe 1)]"

definition tested_client_frames :: "ClientFrame list" where
  "tested_client_frames =
     [ClientFrame_Info (test_info 1 ''srv-1'' 1024), ClientFrame_Info (test_info 1 ''srv-2'' 2048),
      ClientFrame_Info (test_info 1 ''srv-3'' 512), ClientFrame_Info (test_info 2 ''srv-4'' 4096),
      ClientFrame_Message (test_message ''sensors/temperature'' 3 ''23.1'' ''encoding:utf-8''),
      ClientFrame_Message (test_message ''test/topic'' 5 ''data'' [])]"

lemma has_header_frame:
  "length payload < 2 ^ 32 \<Longrightarrow> has_header c (frame_bytes (Command_as_u8 c) payload)"
proof -
  assume l: "length payload < 2 ^ 32"
  have "drop 1 (take 5 (frame_bytes (Command_as_u8 c) payload)) = put_u32 (of_nat (length payload))"
    "drop 5 (frame_bytes (Command_as_u8 c) payload) = payload" "frame_bytes (Command_as_u8 c) payload ! 0 = Command_as_u8 c"
    by (simp_all add: frame_bytes_def put_u32_def)
  with l show ?thesis by (simp add: has_header_def COMMAND_BYTE_LEN_def Let_def unat_of_nat)
qed

lemma drop_header: "drop 5 (frame_bytes c payload) = payload"
  by (simp add: frame_bytes_def put_u32_def)

lemma bad_prefix_frame: "bad_prefix c payload = 0xFF # frame_bytes (Command_as_u8 c) payload"
  by (simp add: bad_prefix_def frame_bytes_def)

lemma server_decode_bad_prefix:
  assumes "frame_law P f payload" and "length payload \<le> MAXIMUM_PAYLOAD_BYTES"
  shows "server_decode P (0xFF # frame_bytes (frame_command f) payload @ rest) = (Ok (Some f), rest)"
  using server_decode_frame [OF assms, of rest] decode_loop_skip [of "server_pick P" "0xFF"]
  by (simp add: server_decode_loop server_pick_None_iff)

lemma client_decode_bad_prefix:
  assumes "client_frame_law P f payload" and "length payload \<le> MAXIMUM_PAYLOAD_BYTES"
  shows "client_decode P (0xFF # frame_bytes (client_frame_command f) payload @ rest) = (Ok (Some f), rest)"
  using client_decode_frame [OF assms, of rest] decode_loop_skip [of "client_pick P" "0xFF"]
  by (simp add: client_decode_loop client_pick_None_iff)

text \<open>What a frame that can be delivered does on each path the tests take.\<close>

lemma frame_paths:
  assumes "deliverable P f"
  shows "\<exists>payload. frame_law P f payload \<and> length payload < 2 ^ 32
    \<and> (\<forall>rest. server_decode P (frame_bytes (frame_command f) payload @ rest) = (Ok (Some f), rest))
    \<and> (\<forall>rest. server_decode P (0xFF # frame_bytes (frame_command f) payload @ rest) = (Ok (Some f), rest))
    \<and> server_decode P (frame_bytes (frame_command f) payload) = (Ok (Some f), [])
    \<and> server_decode P (0xFF # frame_bytes (frame_command f) payload) = (Ok (Some f), [])"
  using assms server_decode_frame [of P f] server_decode_bad_prefix [of P f] max_payload_u32
  unfolding deliverable_def by (metis append_Nil2)

lemma client_frame_paths:
  assumes "client_deliverable P f"
  shows "\<exists>payload. client_frame_law P f payload \<and> length payload < 2 ^ 32
    \<and> client_decode P (frame_bytes (client_frame_command f) payload) = (Ok (Some f), [])
    \<and> client_decode P (0xFF # frame_bytes (client_frame_command f) payload) = (Ok (Some f), [])"
  using assms client_decode_frame [of P f] client_decode_bad_prefix [of P f] max_payload_u32
  unfolding client_deliverable_def by (metis append_Nil2)

lemmas header_frames = has_header_frame [of _ Command_Info, simplified] has_header_frame [of _ Command_Connect, simplified]
  has_header_frame [of _ Command_Publish, simplified]

lemmas codec_test_evals = codec_test_defs build_connect_frame_def server_encode_ok client_encode_ok codec_defs
  header_frames drop_header bad_prefix_frame Let_def

lemma tokio_next_items:
  "tokio_next P s = (x, s') \<Longrightarrow> tokio_items P s = (case x of None \<Rightarrow> [] | Some y \<Rightarrow> y # tokio_items P s')"
  using tokio.next_items [of P s x s'] by (simp add: tokio_connection_def)

lemma nexts_match_items:
  "tokio_items P s = map Ok fs \<Longrightarrow> list_all2 (\<lambda>Q f. Q f) Qs fs \<Longrightarrow> nexts_match P Qs s"
proof (induction Qs arbitrary: fs s)
  case Nil
  obtain x s' where x: "tokio_next P s = (x, s')" by fastforce
  with tokio_next_items [OF x] Nil show ?case by (cases x) auto
next
  case (Cons Q Qs)
  obtain x s' where x: "tokio_next P s = (x, s')" by fastforce
  from tokio_next_items [OF x] Cons.prems x show ?case
    by (cases x) (auto simp: list_all2_Cons1 intro: Cons.IH [OF sym])
qed

lemma framed_over_items:
  "reads_bytes reads = w \<Longrightarrow> reads_error reads = None \<Longrightarrow>
     tokio_items P (framed_over reads) = stream_items (server_decode P) (framed_fin ServerCodecError_Io None) w"
  by (simp add: tokio_items_def framed_over_def)

lemma connect_tests_pass:
  assumes "deliverable P (Frame_Connect (test_connect True))"
  shows "decode_conn_frame_recovers_from_bad_prefix P" "client_encode_connect_frame_has_header_and_payload P"
  using frame_paths [OF assms] by (auto simp: codec_test_evals)

lemma info_tests_pass:
  "client_deliverable P (ClientFrame_Info (test_info 1 ''srv-1'' 1024)) \<Longrightarrow> encode_info_frame_has_header_and_payload P"
  "client_deliverable P (ClientFrame_Info (test_info 1 ''srv-2'' 2048)) \<Longrightarrow> encode_and_decode_info_frame P"
  "client_deliverable P (ClientFrame_Info (test_info 1 ''srv-3'' 512)) \<Longrightarrow> client_decode_info_frame_recovers_from_bad_prefix P"
  "client_deliverable P (ClientFrame_Info (test_info 2 ''srv-4'' 4096)) \<Longrightarrow> client_encode_and_decode_info_frame P"
  by (drule client_frame_paths, auto simp: codec_test_evals)+

lemma message_tests_pass:
  "client_deliverable P (ClientFrame_Message (test_message ''sensors/temperature'' 3 ''23.1'' ''encoding:utf-8''))
     \<Longrightarrow> encode_and_decode_message_frame P"
  "client_deliverable P (ClientFrame_Message (test_message ''test/topic'' 5 ''data'' []))
     \<Longrightarrow> client_decode_message_frame_recovers_from_bad_prefix P"
  by (drule client_frame_paths, auto simp: codec_test_evals)+

lemma publish_tests_pass:
  "deliverable P (Frame_Publish (test_publish ''sensors/temperature'' ''42.5'' ''content-type:text/plain''))
     \<Longrightarrow> encode_and_decode_publish_frame P"
  "deliverable P (Frame_Publish (test_publish ''test/topic'' ''hello'' [])) \<Longrightarrow> encode_publish_frame_has_correct_header P"
  by (drule frame_paths, auto simp: codec_test_evals)+

lemma subscribe_tests_pass:
  "deliverable P (Frame_Subscribe (test_subscribe ''sensors/#'' 7 ''workers'')) \<Longrightarrow> encode_and_decode_subscribe_frame P"
  "deliverable P (Frame_Subscribe (test_subscribe ''events/+/status'' 1 [])) \<Longrightarrow> subscribe_without_queue_group_roundtrips P"
  "deliverable P (Frame_UnSubscribe (test_unsubscribe 42)) \<Longrightarrow> encode_and_decode_unsubscribe_frame P"
  by (drule frame_paths, auto simp: codec_test_evals test_subscribe_def)+

text \<open>The frames of a stream that holds nothing but frames, one of them perhaps behind a bad byte.\<close>

lemma framed_items_frame:
  "server_decode P bs = (Ok (Some f), rest) \<Longrightarrow>
     stream_items (server_decode P) fin bs = Ok f # stream_items (server_decode P) fin rest"
  by (subst server_stream.stream_items_unfold) simp

lemma framed_items_end: "stream_items (server_decode P) (framed_fin ioe None) [] = []"
  by (subst server_stream.stream_items_unfold) (simp add: framed_fin_def)

lemma framed_connect_tests_pass:
  assumes "deliverable P (Frame_Connect (test_connect False))"
    and "\<And>b. reads_bytes (cursor b) = b" and "\<And>b. reads_error (cursor b) = None"
  shows "framed_read_decodes_single_connect_frame P cursor" "framed_read_decodes_multiple_frames_in_sequence P cursor"
    "framed_read_recovers_from_bad_prefix_byte P cursor"
proof -
  let ?f = "Frame_Connect (test_connect False)"
  obtain payload where p: "frame_law P ?f payload" "length payload < 2 ^ 32"
    "\<And>rest. server_decode P (frame_bytes 0x01 payload @ rest) = (Ok (Some ?f), rest)"
    "\<And>rest. server_decode P (0xFF # frame_bytes 0x01 payload @ rest) = (Ok (Some ?f), rest)"
    using frame_paths [OF assms(1)] by auto
  let ?w = "frame_bytes 0x01 payload"
  have b: "build_connect_frame P = Some ?w"
    using p(1,2) by (simp add: build_connect_frame_def client_encode_ok codec_defs)
  note items = framed_over_items [OF assms(2,3)] framed_items_end framed_items_frame
  have "tokio_items P (framed_over (cursor ?w)) = map Ok [?f]"
    "tokio_items P (framed_over (cursor (?w @ ?w))) = map Ok [?f, ?f]"
    "tokio_items P (framed_over (cursor (0xFF # ?w))) = map Ok [?f]"
    using p(3) [of "[]"] p(3) [of ?w] p(4) [of "[]"] by (simp_all add: items)
  from this [THEN nexts_match_items] show "framed_read_decodes_single_connect_frame P cursor"
    "framed_read_decodes_multiple_frames_in_sequence P cursor" "framed_read_recovers_from_bad_prefix_byte P cursor"
    by (simp_all add: codec_test_defs b del: nexts_match.simps)
qed

lemma framed_sequence_test_passes:
  assumes "deliverable P (Frame_Publish (test_publish ''a/b'' ''payload'' []))"
    and "deliverable P (Frame_Subscribe (test_subscribe ''a/#'' 1 []))"
    and "deliverable P (Frame_UnSubscribe (test_unsubscribe 1))"
    and "\<And>b. reads_bytes (cursor b) = b" and "\<And>b. reads_error (cursor b) = None"
  shows "framed_read_decodes_publish_subscribe_unsubscribe_sequence P cursor"
proof -
  let ?fs = "[Frame_Publish (test_publish ''a/b'' ''payload'' []), Frame_Subscribe (test_subscribe ''a/#'' 1 []),
    Frame_UnSubscribe (test_unsubscribe 1)]"
  have "\<forall>f \<in> set ?fs. deliverable P f" using assms(1-3) by simp
  then obtain w where w: "client_send_all P ?fs [] = (Ok (), w)"
    "stream_items (server_decode P) (framed_fin ServerCodecError_Io None) w = map Ok ?fs"
    using client_send_all_ok [of ?fs P] framed_items_end by (metis append_Nil append_Nil2)
  then have "tokio_items P (framed_over (cursor w)) = map Ok ?fs"
    using framed_over_items [OF assms(4,5), of P w] by simp
  then have "nexts_match P [is_Publish, is_Subscribe, is_UnSubscribe] (framed_over (cursor w))"
    by (rule nexts_match_items) simp
  with w(1) show ?thesis
    by (auto simp: codec_test_defs split: prod.splits sum.splits)
qed

section \<open>Sizes in the wire format\<close>

lemma length_opt_varint: "t < 16 \<Longrightarrow> n < 2 ^ 64 \<Longrightarrow> length (encode_fields (opt_varint t n)) \<le> 12"
proof -
  assume t: "t < 16" and n: "n < 2 ^ 64"
  have "length (encode_varint (8 * t)) \<le> 2" using t by (intro length_encode_varint) auto
  moreover have "length (encode_varint n) \<le> 10" using n by (intro length_encode_varint) auto
  ultimately show ?thesis by (simp add: encode_fields_def opt_varint_def)
qed

lemmas field_lengths = length_opt_len [of 1] length_opt_len [of 2] length_opt_len [of 3] length_opt_len [of 4]

lemmas varint_lengths = length_opt_varint [OF _ unat_bounds(1)] length_opt_varint [OF _ unat_bounds(2)]
  length_opt_varint [OF _ unat_bounds(3)] length_opt_varint [OF _ unat_bounds(4)]

lemma small_Publish_deliverable:
  assumes "length (publish_topic m) + length (publish_payload m) + length (publish_header m) \<le> 1000"
  shows "deliverable wire_prost (Frame_Publish m)"
proof -
  have "Publish_valid m" using assms by (simp add: Publish_valid_def data_ok_def)
  moreover have "length (encode_fields (Publish_fields m)) \<le> 1021"
    using assms field_lengths(1) [of "publish_topic m"] field_lengths(2) [of "publish_payload m"]
      field_lengths(3) [of "publish_header m"] by (simp add: Publish_fields_def encode_fields_append)
  moreover have "Publish_encode wire_prost m = Ok (encode_fields (Publish_fields m))"
    by (simp add: wire_prost_def wire_encode_def)
  ultimately show ?thesis
    using wire_Publish.encoded_decodes unfolding deliverable_def by (fastforce simp: MAXIMUM_PAYLOAD_BYTES_def)
qed

lemma small_Subscribe_deliverable:
  assumes "length (subscribe_topic m) + length (subscribe_queue_group m) \<le> 1000"
    and "utf8_valid (string_bytes (subscribe_queue_group m))"
  shows "deliverable wire_prost (Frame_Subscribe m)"
proof -
  have "Subscribe_valid m" using assms by (simp add: Subscribe_valid_def data_ok_def text_ok_def)
  moreover have "length (encode_fields (Subscribe_fields m)) \<le> 1026"
    using assms(1) field_lengths(1) [of "subscribe_topic m"] field_lengths(3) [of "string_bytes (subscribe_queue_group m)"]
      varint_lengths(1) [of 2 "subscribe_subscription_id m"] by (simp add: Subscribe_fields_def encode_fields_append)
  moreover have "Subscribe_encode wire_prost m = Ok (encode_fields (Subscribe_fields m))"
    by (simp add: wire_prost_def wire_encode_def)
  ultimately show ?thesis
    using wire_Subscribe.encoded_decodes unfolding deliverable_def by (fastforce simp: MAXIMUM_PAYLOAD_BYTES_def)
qed

lemma UnSubscribe_deliverable: "deliverable wire_prost (Frame_UnSubscribe m)"
proof -
  have "length (encode_fields (UnSubscribe_fields m)) \<le> 12"
    using varint_lengths(1) [of 2 "unsubscribe_subscription_id m"] by (simp add: UnSubscribe_fields_def)
  moreover have "UnSubscribe_encode wire_prost m = Ok (encode_fields (UnSubscribe_fields m))"
    by (simp add: wire_prost_def wire_encode_def)
  ultimately show ?thesis
    using wire_UnSubscribe.encoded_decodes unfolding deliverable_def by (fastforce simp: MAXIMUM_PAYLOAD_BYTES_def)
qed

lemma anonymous_Connect_deliverable:
  assumes "connect_credentials m = None"
  shows "deliverable wire_prost (Frame_Connect m)"
proof -
  have "Connect_valid m" using assms by (simp add: Connect_valid_def credentials_ok_def)
  moreover have "length (encode_fields (Connect_fields m)) \<le> 36"
    using assms varint_lengths(1) [of 1 "connect_version m"] varint_lengths(3) [of 2 "connect_verbose m"]
      varint_lengths(4) [of 6 "connect_auth_method m"]
    by (simp add: Connect_fields_def encode_fields_append Credentials_fields_def encode_fields_def [of "[]"])
  moreover have "Connect_encode wire_prost m = Ok (encode_fields (Connect_fields m))"
    by (simp add: wire_prost_def wire_encode_def)
  ultimately show ?thesis
    using wire_Connect.encoded_decodes unfolding deliverable_def by (fastforce simp: MAXIMUM_PAYLOAD_BYTES_def)
qed

lemma small_Info_deliverable:
  assumes "length (info_server_id m) + length (info_server_name m) \<le> 1000"
    and "utf8_valid (string_bytes (info_server_id m))" and "utf8_valid (string_bytes (info_server_name m))"
  shows "client_deliverable wire_prost (ClientFrame_Info m)"
proof -
  have "Info_valid m" using assms by (simp add: Info_valid_def text_ok_def)
  moreover have "length (encode_fields (Info_fields m)) \<le> 1074"
    using assms(1) field_lengths(3) [of "string_bytes (info_server_id m)"]
      field_lengths(4) [of "string_bytes (info_server_name m)"] varint_lengths(1) [of 1 "info_version m"]
      varint_lengths(1) [of 5 "info_max_payload m"] varint_lengths(2) [of 6 "info_client_id m"]
      varint_lengths(3) [of 7 "info_requires_auth m"] varint_lengths(3) [of 8 "info_tls_verify m"]
    by (simp add: Info_fields_def encode_fields_append)
  moreover have "Info_encode wire_prost m = Ok (encode_fields (Info_fields m))"
    by (simp add: wire_prost_def wire_encode_def)
  ultimately show ?thesis
    using wire_Info.encoded_decodes unfolding client_deliverable_def by (fastforce simp: MAXIMUM_PAYLOAD_BYTES_def)
qed

lemma small_Message_deliverable:
  assumes "length (message_topic m) + length (message_payload m) + length (message_header m) \<le> 1000"
  shows "client_deliverable wire_prost (ClientFrame_Message m)"
proof -
  have "Message_valid m" using assms by (simp add: Message_valid_def data_ok_def)
  moreover have "length (encode_fields (Message_fields m)) \<le> 1033"
    using assms field_lengths(1) [of "message_topic m"] field_lengths(3) [of "message_payload m"]
      field_lengths(4) [of "message_header m"] varint_lengths(1) [of 2 "message_subscription_id m"]
    by (simp add: Message_fields_def encode_fields_append)
  moreover have "Message_encode wire_prost m = Ok (encode_fields (Message_fields m))"
    by (simp add: wire_prost_def wire_encode_def)
  ultimately show ?thesis
    using wire_Message.encoded_decodes unfolding client_deliverable_def by (fastforce simp: MAXIMUM_PAYLOAD_BYTES_def)
qed

lemma test_texts:
  "utf8_valid (string_bytes ''srv-1'')" "utf8_valid (string_bytes ''srv-2'')" "utf8_valid (string_bytes ''srv-3'')"
  "utf8_valid (string_bytes ''srv-4'')" "utf8_valid (string_bytes ''ocypode'')" "utf8_valid (string_bytes ''workers'')"
  "utf8_valid (string_bytes [])"
  by (rule utf8_valid_ascii, simp add: string_bytes_def)+

lemma tested_frames_deliverable:
  "list_all (deliverable wire_prost) tested_frames" "list_all (client_deliverable wire_prost) tested_client_frames"
  by (simp_all add: tested_frames_def tested_client_frames_def test_connect_def test_publish_def test_subscribe_def
      test_unsubscribe_def test_info_def test_message_def anonymous_Connect_deliverable small_Publish_deliverable
      small_Subscribe_deliverable UnSubscribe_deliverable small_Info_deliverable small_Message_deliverable test_texts)

section \<open>Properties\<close>

text \<open>
  Every unit test of \<open>parser.rs\<close> passes on the modelled codecs, for all generated protobuf code that
  gives back the messages of the tests and encodes each in at most 1 MiB, and however the cursor of
  the \<open>FramedRead\<close> tests cuts its bytes into chunks.
\<close>

theorem codec_tests_pass:
  assumes "list_all (deliverable P) tested_frames" and "list_all (client_deliverable P) tested_client_frames"
    and "\<And>b. reads_bytes (cursor b) = b" and "\<And>b. reads_error (cursor b) = None"
  shows "encode_info_frame_has_header_and_payload P
    \<and> decode_conn_frame_recovers_from_bad_prefix P
    \<and> encode_and_decode_info_frame P
    \<and> client_encode_connect_frame_has_header_and_payload P
    \<and> client_decode_info_frame_recovers_from_bad_prefix P
    \<and> client_encode_and_decode_info_frame P
    \<and> framed_read_decodes_single_connect_frame P cursor
    \<and> framed_read_decodes_multiple_frames_in_sequence P cursor
    \<and> framed_read_recovers_from_bad_prefix_byte P cursor
    \<and> encode_and_decode_publish_frame P
    \<and> encode_publish_frame_has_correct_header P
    \<and> encode_and_decode_subscribe_frame P
    \<and> subscribe_without_queue_group_roundtrips P
    \<and> encode_and_decode_unsubscribe_frame P
    \<and> encode_and_decode_message_frame P
    \<and> client_decode_message_frame_recovers_from_bad_prefix P
    \<and> framed_read_decodes_publish_subscribe_unsubscribe_sequence P cursor"
  using assms(1,2) framed_connect_tests_pass [OF _ assms(3,4), of P] framed_sequence_test_passes [OF _ _ _ assms(3,4), of P]
  by (simp add: tested_frames_def tested_client_frames_def info_tests_pass connect_tests_pass message_tests_pass
      publish_tests_pass subscribe_tests_pass)

theorem codec_tests_pass_witness:
  "framed_read_decodes_publish_subscribe_unsubscribe_sequence wire_prost (\<lambda>b. if b = [] then [] else [Ok b])
   \<and> encode_and_decode_message_frame wire_prost"
  using codec_tests_pass [OF tested_frames_deliverable, of "\<lambda>b. if b = [] then [] else [Ok b]"] by simp

end
