(* ===== verification/Protocol_Tests.thy ===== *)
theory Protocol_Tests
  imports Quic Codec_Tests
begin

text \<open>
  The tests that talk to a server: the integration tests of \<open>crates/server/tests/protocol.rs\<close> as functions
  of what the network delivers (a client that connects and sends a second CONNECT, and a client that
  stays silent), and the unit tests of \<open>handshake.rs\<close> and \<open>client.rs\<close>. The theorems put these clients
  together with the server's model, in both directions.
\<close>

section \<open>The client of the tests\<close>

definition default_info_message :: pb_Info where
  "default_info_message = ServerOutbound_default_info"

definition sample_connect_message :: pb_Connect where
  "sample_connect_message = ClientOutbound_connect 1 True"

text \<open>
  \<open>write_all\<close> is the result of writing to the stream; \<open>sent\<close> are the bytes the stream has taken so far.
\<close>

definition write_client_frame ::
    "'m CommandCodec \<Rightarrow> (bytes \<Rightarrow> io_error + unit) \<Rightarrow> 'm \<Rightarrow> bytes \<Rightarrow> (ClientCodecError + unit) \<times> bytes" where
  "write_client_frame C write_all message sent =
     (case client_encode C message [] of
        (Err e, output_buffer) \<Rightarrow> (Err e, sent)
      | (Ok _, output_buffer) \<Rightarrow>
          (case write_all output_buffer of
             Err e \<Rightarrow> (Err (ClientCodecError_Io e), sent)
           | Ok _ \<Rightarrow> (Ok (), sent @ output_buffer)))"

text \<open>The configuration \<open>setup_server_and_client\<close> starts the server with.\<close>

definition test_server_config :: "u64 \<Rightarrow> ServerConfig" where
  "test_server_config timeout_ms =
     ServerConfig_new\<lparr>config_quic := (config_quic ServerConfig_new)
       \<lparr>enable_gso := False, enable_gro := False, quic_listen_addr := ''127.0.0.1:0'',
        connect_timeout := timeout_ms,
        quic_tls := \<lparr>tls_cert_file_path = ''../certs/server.crt'', tls_key_file_path = ''../certs/key.pem''\<rparr>\<rparr>\<rparr>"

datatype test_error = Test_Codec ClientCodecError | Test_Io string string | Test_Stream string

datatype test_result = Passed | Failed test_error | Assertion_failed

text \<open>The match both tests make on the first frame.\<close>

definition expect_info ::
    "(ClientCodecError + ClientFrame option) \<Rightarrow> (pb_Info \<Rightarrow> test_result \<times> bytes) \<Rightarrow> test_result \<times> bytes" where
  "expect_info received continue =
     (case received of
        Err e \<Rightarrow> (Failed (Test_Codec e), [])
      | Ok (Some (ClientFrame_Info message)) \<Rightarrow> continue message
      | Ok (Some _) \<Rightarrow> (Failed (Test_Io ''InvalidData'' ''expected INFO, got unexpected frame''), [])
      | Ok None \<Rightarrow> (Failed (Test_Io ''UnexpectedEof'' ''missing INFO''), []))"

text \<open>
  The first test from the point where its stream is open, as a function of the reads of the receiving
  half and of the results of writing to and closing the sending half; it returns the bytes the server
  gets.
\<close>

definition info_then_connect_over_quic ::
    "prost \<Rightarrow> (io_error + bytes) list \<Rightarrow> (bytes \<Rightarrow> io_error + unit) \<Rightarrow> string + unit \<Rightarrow> test_result \<times> bytes" where
  "info_then_connect_over_quic P receive_stream write_all close_stream =
     (let (received, incoming, rest) = read_next_client_frame P receive_stream [];
          expected_info = default_info_message
      in expect_info received (\<lambda>info_message.
        if \<not> (info_version info_message = info_version expected_info
             \<and> info_requires_auth info_message = info_requires_auth expected_info
             \<and> info_tls_verify info_message = info_tls_verify expected_info
             \<and> info_server_id info_message = info_server_id expected_info
             \<and> info_server_name info_message = info_server_name expected_info
             \<and> info_max_payload info_message = info_max_payload expected_info
             \<and> 0 < info_client_id info_message)
        then (Assertion_failed, [])
        else
          (case write_client_frame (Connect_codec P) write_all sample_connect_message [] of
             (Err e, sent) \<Rightarrow> (Failed (Test_Codec e), sent)
           | (Ok _, sent) \<Rightarrow>
               (case write_client_frame (Connect_codec P) write_all sample_connect_message sent of
                  (Err e, sent2) \<Rightarrow> (Failed (Test_Codec e), sent2)
                | (Ok _, sent2) \<Rightarrow>
                    (case close_stream of
                       Err e \<Rightarrow> (Failed (Test_Stream e), sent2)
                     | Ok _ \<Rightarrow> (Passed, sent2))))))"

text \<open>\<open>AsyncReadExt::read_buf\<close>: the number of bytes read, 0 at the end of the stream.\<close>

fun read_buf_count :: "(io_error + bytes) list \<Rightarrow> io_error + nat" where
  "read_buf_count [] = Ok 0"
| "read_buf_count (Err e # rs) = Err e"
| "read_buf_count (Ok chunk # rs) = Ok (length chunk)"

definition connect_timeout_when_no_connect_message ::
    "prost \<Rightarrow> (io_error + bytes) list \<Rightarrow> test_result \<times> bytes" where
  "connect_timeout_when_no_connect_message P receive_stream =
     (let (received, incoming, rest) = read_next_client_frame P receive_stream []
      in expect_info received (\<lambda>info_message.
        (case read_buf_count rest of
           Err e \<Rightarrow> (Failed (Test_Codec (ClientCodecError_Io e)), [])
         | Ok bytes_read \<Rightarrow> (if bytes_read = 0 then Passed else Assertion_failed, []))))"

section \<open>The unit tests of the handshake and of the connection\<close>

definition on_connect_transitions_to_completed_with_no_auth :: "u64 \<Rightarrow> bool" where
  "on_connect_transitions_to_completed_with_no_auth n \<longleftrightarrow>
     (let (client_id, m) = ClientId_new n;
          pending = PendingHandshake_new client_id;
          connect = \<lparr>connect_version = 1, connect_verbose = False,
            connect_auth_method = AuthMethod_as_i32 NoAuth, connect_credentials = None\<rparr>
      in asserting (unwrap (on_connect pending connect NoAuthAuthenticator)) (\<lambda>completed.
           completed_client_id completed = client_id))"

text \<open>The transport of the unit test: the two halves of the server's end of a duplex stream.\<close>

record ('r, 'w) DuplexTransport =
  duplex_reader :: 'r
  duplex_writer :: 'w

definition DuplexTransport_transport :: "(('r, 'w) DuplexTransport, 'r, 'w) Transport" where
  "DuplexTransport_transport = \<lparr>into_split = (\<lambda>t. (duplex_reader t, duplex_writer t))\<rparr>"

text \<open>
  \<open>client_rx\<close> is what the client's end of the duplex stream delivers, \<open>server\<close> the result of the spawned
  \<open>Client::run\<close> when the client has sent the given bytes and closed its end (\<open>None\<close> if it never ends).
\<close>

definition client_run_sends_info_and_accepts_connect ::
    "prost \<Rightarrow> (io_error + bytes) list \<Rightarrow> (bytes \<Rightarrow> (ClientError + unit) option) \<Rightarrow> bool" where
  "client_run_sends_info_and_accepts_connect P client_rx server \<longleftrightarrow>
     (case framed_poll (client_decode P) ClientCodecError_Io [] client_rx of
        (Some (Ok (ClientFrame_Info info_msg)), _) \<Rightarrow>
          0 < info_client_id info_msg
          \<and> asserting (encoded (client_encode (Connect_codec P) (ClientOutbound_connect 1 False) [])) (\<lambda>sent.
              asserting (server sent) is_ok)
      | _ \<Rightarrow> False)"

section \<open>Lemmas\<close>

lemma read_next_client_frame_error:
  "read_next_client_frame P rs buf = (Ok (Some f), buf', rs') \<Longrightarrow> reads_error rs' = reads_error rs"
proof (induction P rs buf rule: read_next_client_frame.induct)
  case (1 P rs buf)
  then show ?case
    by (auto simp: read_next_client_frame.simps [of P rs buf] split: prod.splits sum.splits option.splits
        list.splits if_splits)
qed

lemma reads_at_end: "reads_bytes rs = [] \<Longrightarrow> reads_error rs = None \<Longrightarrow> read_buf_count rs = Ok 0"
  by (induction rs rule: read_buf_count.induct) (auto split: if_splits)

lemma write_client_frame_ok:
  assumes "frame_law P (Frame_Connect m) payload" and "length payload \<le> MAXIMUM_PAYLOAD_BYTES"
    and "\<And>b. write_all b = Ok ()"
  shows "write_client_frame (Connect_codec P) write_all m sent = (Ok (), sent @ frame_bytes 0x01 payload)"
  using client_encode_frame_bytes [OF assms(1) max_payload_u32 [OF assms(2)], of "[]"] assms(3)
  by (simp add: write_client_frame_def)

text \<open>What the server writes for its greeting, and what the clients of the tests make of it.\<close>

lemma greeting_received:
  assumes "client_frame_law P (ClientFrame_Info i) payload" and "length payload \<le> MAXIMUM_PAYLOAD_BYTES"
    and "reads_bytes reads = info_frame P i"
  shows "\<exists>rs. read_next_client_frame P reads [] = (Ok (Some (ClientFrame_Info i)), [], rs)
    \<and> reads_bytes rs = [] \<and> reads_error rs = reads_error reads"
proof -
  have "info_frame P i = frame_bytes 0x00 payload"
    using server_encode_frame_bytes [OF assms(1) max_payload_u32 [OF assms(2)], of "[]"]
    by (simp add: info_frame_def)
  with client_decode_frame [OF assms(1,2), of "[]"] assms(3)
  have "client_decode P ([] @ reads_bytes reads) = (Ok (Some (ClientFrame_Info i)), [])" by simp
  from read_next_client_frame_decodes [OF this] read_next_client_frame_error show ?thesis by fastforce
qed

lemma test_info_expected:
  "n \<noteq> 0 \<Longrightarrow> let i = connection_info (ClientId n) (test_server_config ms); e = default_info_message in
     info_version i = info_version e \<and> info_requires_auth i = info_requires_auth e
     \<and> info_tls_verify i = info_tls_verify e \<and> info_server_id i = info_server_id e
     \<and> info_server_name i = info_server_name e \<and> info_max_payload i = info_max_payload e
     \<and> 0 < info_client_id i"
  by (simp add: Let_def connection_info_def ServerOutbound_info_def default_info_message_def
      ServerOutbound_default_info_def test_server_config_def ServerConfig_new_def SERVER_ID_def SERVER_NAME_def
      PROTOCOL_VERSION_def word_gt_0)

lemma stream_client:
  assumes "0 < outbound_channel_capacity (config_quic config)"
  shows "fst (handle_bidirectional_stream io (\<lambda>t a b c. t) st config auth n) =
    (case Client_run io \<lparr>client_id = ClientId n, client_io = st, authenticator = auth, client_config = config\<rparr> of
       None \<Rightarrow> Running | Some (r, ev, s) \<Rightarrow> Finished r ev)"
  using assms
  by (simp add: handle_bidirectional_stream_def Client_new_def ClientId_new_def Let_def split: option.splits)

lemma test_config_simps [simp]:
  "outbound_channel_capacity (config_quic (test_server_config ms)) = 1024"
  "connect_timeout (config_quic (test_server_config ms)) = ms"
  by (simp_all add: test_server_config_def ServerConfig_new_def QuicConfig_default_def
      QUIC_OUTBOUND_CHANNEL_CAPACITY_def)

lemma test_connection_info [simp]:
  "connection_info cid (test_server_config ms) = connection_info cid ServerConfig_new"
  by (simp add: connection_info_def test_server_config_def ServerConfig_new_def)

text \<open>The messages of the tests in the wire format, and a run of each test over it.\<close>

lemma sample_connect_law:
  "frame_law wire_prost (Frame_Connect sample_connect_message) [0x08, 0x01, 0x10, 0x01]"
proof -
  have e: "Connect_encode wire_prost sample_connect_message = Ok [0x08, 0x01, 0x10, 0x01]"
    by (simp add: wire_prost_def wire_encode_def Connect_fields_def Credentials_fields_def opt_defs
        sample_connect_message_def ClientOutbound_connect_def encode_fields_def encode_varint.simps bool_varint_def)
  then show ?thesis
    using wire_Connect.encoded_decodes [OF _ e]
    by (simp add: Connect_valid_def credentials_ok_def sample_connect_message_def ClientOutbound_connect_def)
qed

abbreviation greeting_writer :: writer_state where
  "greeting_writer \<equiv> \<lparr>wr_arrivals = [[OutboundMessage_Info (connection_info (ClientId 7) ServerConfig_new)]],
     wr_buffer = [], wr_wire = []\<rparr>"

abbreviation stream_of :: "(io_error + bytes) list \<Rightarrow> nat \<Rightarrow> tokio_state" where
  "stream_of reads latency \<equiv> \<lparr>tk_buffer = [], tk_reads = reads, tk_ended = False, tk_queue = [],
     tk_receiver_alive = True, tk_latency_ms = latency\<rparr>"

lemma greeting_written: "\<exists>w. run_outbound_writer (tokio_writer P boundary) greeting_writer = Some w"
  using tokio_out.run_outbound_writer_total [of P boundary greeting_writer] by auto

lemma one_read: "reads_bytes [Ok b] = b" "reads_error [Ok b] = None"
  by simp_all

lemma greeting_polled:
  assumes "client_deliverable P (ClientFrame_Info i)" and "reads_bytes reads = info_frame P i" and "reads_error reads = None"
  shows "\<exists>y. framed_poll (client_decode P) ClientCodecError_Io [] reads = (Some (Ok (ClientFrame_Info i)), y)"
proof -
  obtain payload where p: "client_frame_law P (ClientFrame_Info i) payload" "length payload < 2 ^ 32"
    "client_decode P (frame_bytes 0x00 payload) = (Ok (Some (ClientFrame_Info i)), [])"
    using client_frame_paths [OF assms(1)] by auto
  have "info_frame P i = frame_bytes 0x00 payload"
    using server_encode_frame_bytes [OF p(1,2), of "[]"] by (simp add: info_frame_def)
  moreover obtain x buf rs ended where x:
    "framed_poll (client_decode P) ClientCodecError_Io [] reads = (x, buf, rs, ended)"
    by (rule prod_cases4)
  ultimately show ?thesis
    using client_stream.framed_poll_items [OF x] p(3) assms(2,3)
    by (auto simp: client_stream.stream_items_unfold [of P _ "frame_bytes 0x00 payload"] split: option.splits)
qed

lemma info_test_client:
  assumes "n \<noteq> 0" and "\<And>b. write_all b = Ok ()"
    and "client_frame_law P (ClientFrame_Info (connection_info (ClientId n) ServerConfig_new)) ip"
    and "length ip \<le> MAXIMUM_PAYLOAD_BYTES"
    and "frame_law P (Frame_Connect sample_connect_message) cp" and "length cp \<le> MAXIMUM_PAYLOAD_BYTES"
    and "reads_bytes reads = info_frame P (connection_info (ClientId n) ServerConfig_new)"
  shows "info_then_connect_over_quic P reads write_all (Ok ())
      = (Passed, frame_bytes 0x01 cp @ frame_bytes 0x01 cp)"
proof -
  let ?i = "connection_info (ClientId n) ServerConfig_new"
  obtain rs where r: "read_next_client_frame P reads [] = (Ok (Some (ClientFrame_Info ?i)), [], rs)"
    using greeting_received [OF assms(3,4,7)] by auto
  show ?thesis
    using test_info_expected [OF assms(1), of 5] write_client_frame_ok [OF assms(5,6), of write_all] assms(2)
    by (simp add: info_then_connect_over_quic_def r expect_info_def Let_def)
qed

lemma timeout_test_client:
  assumes "client_frame_law P (ClientFrame_Info i) ip" and "length ip \<le> MAXIMUM_PAYLOAD_BYTES"
    and "reads_bytes reads = info_frame P i" and "reads_error reads = None"
  shows "connect_timeout_when_no_connect_message P reads = (Passed, [])"
proof -
  obtain rs where r: "read_next_client_frame P reads [] = (Ok (Some (ClientFrame_Info i)), [], rs)"
    "reads_bytes rs = []" "reads_error rs = None"
    using greeting_received [OF assms(1-3)] assms(4) by auto
  then show ?thesis
    using reads_at_end [OF r(2,3)] by (simp add: connect_timeout_when_no_connect_message_def r(1) expect_info_def)
qed

lemma duplex_client:
  "Client_new (open_split DuplexTransport_transport (\<lambda>r a w b c. r)) \<lparr>duplex_reader = st, duplex_writer = w\<rparr> auth config n
     = Client_new (\<lambda>t a b c. t) st auth config n"
  by (simp add: Client_new_def open_split_def DuplexTransport_transport_def ClientId_new_def Let_def)

section \<open>Properties\<close>

text \<open>
  C26: The integration test \<open>info_then_connect_over_quic\<close> passes against the server, in both directions:
  whatever the chunks, the client finds in the server's bytes the INFO it expects, with a non-zero
  identifier, and the bytes it then sends make the server accept the first CONNECT, log the second as
  unexpected and end without an error.
\<close>

theorem info_then_connect_test_passes:
  assumes "n \<noteq> 0" and "write_all = (\<lambda>b. Ok ())"
    and "client_frame_law P (ClientFrame_Info (connection_info (ClientId n) (test_server_config 5))) ip"
    and "length ip \<le> MAXIMUM_PAYLOAD_BYTES"
    and "frame_law P (Frame_Connect sample_connect_message) cp" and "length cp \<le> MAXIMUM_PAYLOAD_BYTES"
    and "run_outbound_writer (tokio_writer P boundary) \<lparr>wr_arrivals = [[OutboundMessage_Info
        (connection_info (ClientId n) (test_server_config 5))]], wr_buffer = [], wr_wire = []\<rparr> = Some w"
    and "reads_bytes reads = wr_wire w"
    and "tk_buffer st = []" and "\<not> tk_ended st" and "tk_receiver_alive st" and "tk_latency_ms st < 5"
    and "reads_bytes (tk_reads st) = snd (info_then_connect_over_quic P reads write_all (Ok ()))"
    and "reads_error (tk_reads st) = None"
  shows "fst (info_then_connect_over_quic P reads write_all (Ok ())) = Passed
    \<and> fst (handle_bidirectional_stream (tokio_connection P) (\<lambda>t a b c. t) st (test_server_config 5)
          NoAuthAuthenticator n)
      = Finished (Ok ()) [Sent (OutboundMessage_Info (connection_info (ClientId n) (test_server_config 5))),
          Logged (established_line (ClientId n)), Dispatched (Frame_Connect sample_connect_message),
          Logged (''client_id='' @ ClientId_fmt (ClientId n) @ '' received unexpected CONNECT after handshake'')]"
proof -
  let ?i = "connection_info (ClientId n) (test_server_config 5)"
  let ?c = "\<lparr>client_id = ClientId n, client_io = st, authenticator = NoAuthAuthenticator,
      client_config = test_server_config 5\<rparr>"
  have "wr_wire w = info_frame P ?i"
    using tokio_out.run_outbound_writer_total [of P boundary "\<lparr>wr_arrivals = [[OutboundMessage_Info ?i]],
        wr_buffer = [], wr_wire = []\<rparr>"] assms(7) by auto
  then have test: "info_then_connect_over_quic P reads write_all (Ok ())
      = (Passed, frame_bytes 0x01 cp @ frame_bytes 0x01 cp)"
    using info_test_client [OF assms(1) _ _ assms(4-6)] assms(2,3,8) by simp
  have "client_send_all P [Frame_Connect sample_connect_message, Frame_Connect sample_connect_message] []
      = (Ok (), frame_bytes 0x01 cp @ frame_bytes 0x01 cp)"
    using client_encode_frame_bytes [OF assms(5) max_payload_u32 [OF assms(6)]]
    by (simp del: client_encode_frame.simps)
  moreover have "deliverable P (Frame_Connect sample_connect_message)"
    using assms(5,6) unfolding deliverable_def by blast
  ultimately obtain s where "Client_run (tokio_connection P) ?c = Some (Ok (),
      [Sent (OutboundMessage_Info ?i), Logged (established_line (ClientId n))]
        @ dispatch_log (ClientId n) [Frame_Connect sample_connect_message], s)"
    using client_served [of ?c sample_connect_message "[Frame_Connect sample_connect_message]" P "Ok ()"
        "frame_bytes 0x01 cp @ frame_bytes 0x01 cp"] assms(9-14) test
    by (auto simp: NoAuthAuthenticator_def)
  then show ?thesis using test by (simp add: stream_client)
qed

theorem info_then_connect_test_passes_witness:
  "\<exists>reads st s. fst (info_then_connect_over_quic wire_prost reads (\<lambda>b. Ok ()) (Ok ())) = Passed
    \<and> fst (handle_bidirectional_stream (tokio_connection wire_prost) (\<lambda>t a b c. t) st (test_server_config 5)
        NoAuthAuthenticator 7) = Finished (Ok ()) s"
proof -
  obtain w where w: "run_outbound_writer (tokio_writer wire_prost 8) greeting_writer = Some w"
    using greeting_written by blast
  let ?st = "stream_of [Ok (snd (info_then_connect_over_quic wire_prost [Ok (wr_wire w)] (\<lambda>b. Ok ()) (Ok ())))] 3"
  show ?thesis
    using info_then_connect_test_passes [of 7 "\<lambda>b. Ok ()" wire_prost _ _ 8 w "[Ok (wr_wire w)]" ?st,
        OF _ _ _ _ sample_connect_law] sample_info_law w one_read
    by (fastforce simp: MAXIMUM_PAYLOAD_BYTES_def simp del: reads_bytes.simps reads_error.simps)
qed

text \<open>
  The integration test \<open>connect_timeout_when_no_connect_message\<close> passes against the server: a client
  that sends nothing within the configured millisecond ends the server's task with the timeout
  error, which is logged, and finds the INFO message and then the end of the stream.
\<close>

theorem connect_timeout_test_passes:
  assumes "client_frame_law P (ClientFrame_Info (connection_info (ClientId n) (test_server_config 1))) ip"
    and "length ip \<le> MAXIMUM_PAYLOAD_BYTES"
    and "run_outbound_writer (tokio_writer P boundary) \<lparr>wr_arrivals = [[OutboundMessage_Info
        (connection_info (ClientId n) (test_server_config 1))]], wr_buffer = [], wr_wire = []\<rparr> = Some w"
    and "reads_bytes reads = wr_wire w" and "reads_error reads = None"
    and "tk_receiver_alive st" and "1 \<le> tk_latency_ms st"
  shows "fst (connect_timeout_when_no_connect_message P reads) = Passed
    \<and> fst (stream_task (tokio_connection P) (\<lambda>t a b c. t) (test_server_config 1) NoAuthAuthenticator st n)
      = Finished (Err (ClientError_Handshake ConnectTimeout))
          [Sent (OutboundMessage_Info (connection_info (ClientId n) (test_server_config 1))),
           Logged ''QUIC stream error: CONNECT timeout'']"
proof -
  let ?i = "connection_info (ClientId n) (test_server_config 1)"
  let ?c = "\<lparr>client_id = ClientId n, client_io = st, authenticator = NoAuthAuthenticator,
      client_config = test_server_config 1\<rparr>"
  have "wr_wire w = info_frame P ?i"
    using tokio_out.run_outbound_writer_total [of P boundary "\<lparr>wr_arrivals = [[OutboundMessage_Info ?i]],
        wr_buffer = [], wr_wire = []\<rparr>"] assms(3) by auto
  then have "fst (connect_timeout_when_no_connect_message P reads) = Passed"
    using timeout_test_client [OF assms(1,2)] assms(4,5) by simp
  moreover have "tokio_outcome P ?c = (Err (ClientError_Handshake ConnectTimeout), [Sent (OutboundMessage_Info ?i)])"
    using assms(6,7) by (simp add: tokio_outcome_def)
  then obtain s where "Client_run (tokio_connection P) ?c
      = Some (Err (ClientError_Handshake ConnectTimeout), [Sent (OutboundMessage_Info ?i)], s)"
    using Client_run_tokio [of P ?c] by auto
  then have "fst (handle_bidirectional_stream (tokio_connection P) (\<lambda>t a b c. t) st (test_server_config 1)
      NoAuthAuthenticator n) = Finished (Err (ClientError_Handshake ConnectTimeout)) [Sent (OutboundMessage_Info ?i)]"
    by (simp add: stream_client)
  then have "fst (stream_task (tokio_connection P) (\<lambda>t a b c. t) (test_server_config 1) NoAuthAuthenticator st n)
      = Finished (Err (ClientError_Handshake ConnectTimeout))
          [Sent (OutboundMessage_Info ?i), Logged ''QUIC stream error: CONNECT timeout'']"
    by (auto simp: stream_task_def split: prod.splits)
  ultimately show ?thesis by blast
qed

theorem connect_timeout_test_passes_witness:
  "\<exists>reads. fst (connect_timeout_when_no_connect_message wire_prost reads) = Passed"
proof -
  obtain w where w: "run_outbound_writer (tokio_writer wire_prost 8) greeting_writer = Some w"
    using greeting_written by blast
  show ?thesis
    using connect_timeout_test_passes [of wire_prost 7 _ 8 w "[Ok (wr_wire w)]" "stream_of [] 1"]
      sample_info_law w one_read
    by (fastforce simp: MAXIMUM_PAYLOAD_BYTES_def simp del: reads_bytes.simps reads_error.simps)
qed

text \<open>
  The unit tests of \<open>handshake.rs\<close> and \<open>client.rs\<close> pass. A default server whose bytes reach the client in
  any chunks greets it with a non-zero identifier, and when the client's CONNECT arrives within the
  configured two seconds and the client closes its end, the server's task ends without an error.
\<close>

theorem connection_unit_tests_pass:
  assumes "n \<noteq> 0"
    and "client_deliverable P (ClientFrame_Info (connection_info (ClientId n) ServerConfig_new))"
    and "deliverable P (Frame_Connect (ClientOutbound_connect 1 False))"
    and "run_outbound_writer (tokio_writer P boundary) \<lparr>wr_arrivals = [[OutboundMessage_Info
        (connection_info (ClientId n) ServerConfig_new)]], wr_buffer = [], wr_wire = []\<rparr> = Some w"
    and "reads_bytes client_rx = wr_wire w" and "reads_error client_rx = None"
    and "\<And>b. reads_bytes (cursor b) = b" and "\<And>b. reads_error (cursor b) = None" and "latency < 2000"
  shows "on_connect_transitions_to_completed_with_no_auth n
    \<and> client_run_sends_info_and_accepts_connect P client_rx (\<lambda>sent. map_option fst (Client_run (tokio_connection P)
        \<lparr>client_id = ClientId n, client_io = stream_of (cursor sent) latency, authenticator = NoAuthAuthenticator,
         client_config = ServerConfig_new\<rparr>))"
proof -
  let ?i = "connection_info (ClientId n) ServerConfig_new"
  let ?m = "ClientOutbound_connect 1 False"
  have "wr_wire w = info_frame P ?i"
    using tokio_out.run_outbound_writer_total [of P boundary "\<lparr>wr_arrivals = [[OutboundMessage_Info ?i]],
        wr_buffer = [], wr_wire = []\<rparr>"] assms(4) by auto
  with assms(2,5,6) obtain y where first: "framed_poll (client_decode P) ClientCodecError_Io [] client_rx
      = (Some (Ok (ClientFrame_Info ?i)), y)"
    using greeting_polled [of P ?i client_rx] by auto
  obtain v where v: "\<And>out. client_encode_frame P (Frame_Connect ?m) out = (Ok (), out @ v)"
    using deliverable_bytes [OF assms(3)] by metis
  let ?c = "\<lparr>client_id = ClientId n, client_io = stream_of (cursor v) latency, authenticator = NoAuthAuthenticator,
    client_config = ServerConfig_new\<rparr>"
  have "client_send_all P [Frame_Connect ?m] [] = (Ok (), v)" using v by simp
  then obtain ev s where "Client_run (tokio_connection P) ?c = Some (Ok (), ev, s)"
    using client_served [of ?c ?m "[]" P "Ok ()" v] assms(3,7-9)
    by (auto simp: NoAuthAuthenticator_def default_connect_timeout)
  then show ?thesis
    using first v [of "[]"] assms(1)
    by (simp add: client_run_sends_info_and_accepts_connect_def on_connect_transitions_to_completed_with_no_auth_def
        connection_info_def ServerOutbound_info_def word_gt_0 ClientId_new_def on_connect_def
        PendingHandshake_new_def NoAuthAuthenticator_def)
qed

theorem connection_unit_tests_pass_witness:
  "\<exists>client_rx server. client_run_sends_info_and_accepts_connect wire_prost client_rx server"
proof -
  obtain w where w: "run_outbound_writer (tokio_writer wire_prost 8) greeting_writer = Some w"
    using greeting_written by blast
  have "client_deliverable wire_prost (ClientFrame_Info (connection_info (ClientId 7) ServerConfig_new))"
    using sample_info_law unfolding client_deliverable_def by (fastforce simp: MAXIMUM_PAYLOAD_BYTES_def)
  moreover have "deliverable wire_prost (Frame_Connect (ClientOutbound_connect 1 False))"
    by (simp add: anonymous_Connect_deliverable ClientOutbound_connect_def)
  ultimately show ?thesis
    using connection_unit_tests_pass [of 7 wire_prost 8 w "[Ok (wr_wire w)]" "\<lambda>b. [Ok b]" 3] w one_read by auto
qed

end
