(* ===== verification/Dev_Certs.thy ===== *)
theory Dev_Certs
  imports Protocol_Tests
begin

text \<open>
  \<open>tools/src/bin/gen_dev_certs.rs\<close>: the generator of the certificates that the server and its integration
  tests load. The file system is a map from absolute paths, lists of components, to directories and
  files; there are no symbolic links, so a path with \<open>..\<close> is resolved by its components. \<open>denied\<close> tells
  where the operating system refuses to create or write. A panic is an error with the message of the
  failed \<open>expect\<close>, beside the lines printed before it and the file system it leaves.
\<close>

section \<open>Paths and files\<close>

type_synonym path = "string list"

datatype entry = Directory | File string

type_synonym file_system = "path \<rightharpoonup> entry"

text \<open>The components of a path given as text, and a path relative to a directory.\<close>

definition components :: "string \<Rightarrow> path" where
  "components s = slice_split (\<lambda>c. c = CHR ''/'') s"

fun resolve_rev :: "path \<Rightarrow> path \<Rightarrow> path" where
  "resolve_rev acc [] = rev acc"
| "resolve_rev acc (c # cs) = (if c = ''..'' then resolve_rev (tl acc) cs else resolve_rev (c # acc) cs)"

definition resolve :: "path \<Rightarrow> string \<Rightarrow> path" where
  "resolve dir relative = resolve_rev (rev dir) (components relative)"

text \<open>\<open>Path::try_exists\<close> and \<open>Path::exists\<close>\<close>

definition try_exists_in :: "file_system \<Rightarrow> path \<Rightarrow> string \<Rightarrow> io_error + bool" where
  "try_exists_in fs cwd p = Ok (fs (resolve cwd p) \<noteq> None)"

text \<open>\<open>fs::create_dir_all\<close>: the missing ancestors first; a file in the way is an error.\<close>

fun create_dirs :: "(path \<Rightarrow> bool) \<Rightarrow> path list \<Rightarrow> file_system \<Rightarrow> (unit + unit) \<times> file_system" where
  "create_dirs denied [] fs = (Ok (), fs)"
| "create_dirs denied (p # ps) fs =
     (case fs p of
        Some Directory \<Rightarrow> create_dirs denied ps fs
      | Some (File _) \<Rightarrow> (Err (), fs)
      | None \<Rightarrow> if denied p then (Err (), fs) else create_dirs denied ps (fs(p \<mapsto> Directory)))"

definition create_dir_all :: "(path \<Rightarrow> bool) \<Rightarrow> path \<Rightarrow> file_system \<Rightarrow> (unit + unit) \<times> file_system" where
  "create_dir_all denied p fs = create_dirs denied (map (\<lambda>n. take n p) [1..<Suc (length p)]) fs"

text \<open>\<open>fs::write\<close> creates or replaces a file in an existing directory.\<close>

definition fs_write :: "(path \<Rightarrow> bool) \<Rightarrow> path \<Rightarrow> string \<Rightarrow> file_system \<Rightarrow> (unit + unit) \<times> file_system" where
  "fs_write denied p contents fs =
     (if denied p \<or> fs (butlast p) \<noteq> Some Directory \<or> fs p = Some Directory then (Err (), fs)
      else (Ok (), fs(p \<mapsto> File contents)))"

section \<open>The generator\<close>

text \<open>\<open>rcgen\<close> is the result of \<open>generate_simple_self_signed\<close>: the certificate and the key as PEM text.\<close>

definition gen_dev_certs ::
    "(path \<Rightarrow> bool) \<Rightarrow> (string list \<Rightarrow> string + string \<times> string) \<Rightarrow> path \<Rightarrow> file_system
      \<Rightarrow> (string + unit) \<times> string list \<times> file_system" where
  "gen_dev_certs denied rcgen manifest_dir fs =
     (let certs_dir = resolve manifest_dir ''../crates/certs'';
          shown_dir = concat (map ((@) ''/'') manifest_dir) @ ''/../crates/certs''
      in case (if fs certs_dir = None then create_dir_all denied certs_dir fs else (Ok (), fs)) of
           (Err _, fs1) \<Rightarrow> (Err ''failed to create certs directory'', [], fs1)
         | (Ok _, fs1) \<Rightarrow>
             (let cert_path = certs_dir @ [''server.crt'']; key_path = certs_dir @ [''key.pem''];
                  out = [''Generating dev certificates...'']
              in case rcgen [''localhost'', ''127.0.0.1''] of
                   Err e \<Rightarrow> (Err e, out, fs1)
                 | Ok (cert_pem, key_pem) \<Rightarrow>
                     (case fs_write denied cert_path cert_pem fs1 of
                        (Err _, fs2) \<Rightarrow> (Err ''failed to write server.crt'', out, fs2)
                      | (Ok _, fs2) \<Rightarrow>
                          (case fs_write denied key_path key_pem fs2 of
                             (Err _, fs3) \<Rightarrow> (Err ''failed to write key.pem'', out, fs3)
                           | (Ok _, fs3) \<Rightarrow>
                               (Ok (), out @ [''Generated:'', ''  cert: '' @ shown_dir @ ''/server.crt'',
                                  ''  key:  '' @ shown_dir @ ''/key.pem''], fs3)))))"

section \<open>Lemmas\<close>

lemma resolve_examples:
  "resolve (root @ [''tools'']) ''../crates/certs'' = root @ [''crates'', ''certs'']"
  "resolve root ''crates/certs/server.crt'' = root @ [''crates'', ''certs'', ''server.crt'']"
  "resolve root ''crates/certs/key.pem'' = root @ [''crates'', ''certs'', ''key.pem'']"
  "resolve (root @ [''crates'', ''server'']) ''../certs/server.crt'' = root @ [''crates'', ''certs'', ''server.crt'']"
  "resolve (root @ [''crates'', ''server'']) ''../certs/key.pem'' = root @ [''crates'', ''certs'', ''key.pem'']"
  by (simp_all add: resolve_def components_def slice_split_eval del: slice_split.simps)

lemma fs_write_ok:
  "fs_write denied p c fs = (Ok (), fs') \<longleftrightarrow> \<not> denied p \<and> fs (butlast p) = Some Directory
     \<and> fs p \<noteq> Some Directory \<and> fs' = fs(p \<mapsto> File c)"
  by (auto simp: fs_write_def)

text \<open>A step of the generator only adds directories.\<close>

lemma create_dirs_adds:
  "create_dirs denied ps fs = (r, fs') \<Longrightarrow> fs' p = fs p \<or> fs p = None \<and> fs' p = Some Directory"
proof (induction ps arbitrary: fs)
  case (Cons q ps)
  show ?case
  proof (cases "fs q")
    case None
    show ?thesis
    proof (cases "denied q")
      case False
      with None Cons.prems have "create_dirs denied ps (fs(q \<mapsto> Directory)) = (r, fs')" by simp
      from Cons.IH [OF this] None show ?thesis by (cases "p = q") simp_all
    qed (use None Cons.prems in simp)
  next
    case (Some e)
    with Cons.prems Cons.IH [of fs] show ?thesis by (cases e) auto
  qed
qed simp

lemma create_dir_all_adds:
  "create_dir_all denied q fs = (r, fs') \<Longrightarrow> fs' p = fs p \<or> fs p = None \<and> fs' p = Some Directory"
  unfolding create_dir_all_def by (rule create_dirs_adds)

section \<open>Properties\<close>

text \<open>
  The certificate generator does what the server and its tests need. When it succeeds in the
  workspace at \<open>root\<close>, the default configuration finds certificate and key from the workspace root, the
  configuration of the integration tests finds them from the package of the server, both files hold
  what the generator made for \<open>localhost\<close> and \<open>127.0.0.1\<close>, and apart from directories it created
  nothing else in the file system has changed.
\<close>

theorem dev_certs_enable_tls:
  assumes "gen_dev_certs denied rcgen (root @ [''tools'']) fs = (Ok (), out, fs')"
  shows "cert_file_path (try_exists_in fs' root) TLSConfig_default = Ok ''crates/certs/server.crt''
    \<and> key_file_path (try_exists_in fs' root) TLSConfig_default = Ok ''crates/certs/key.pem''
    \<and> cert_file_path (try_exists_in fs' (root @ [''crates'', ''server''])) (quic_tls (config_quic (test_server_config ms)))
        = Ok ''../certs/server.crt''
    \<and> key_file_path (try_exists_in fs' (root @ [''crates'', ''server''])) (quic_tls (config_quic (test_server_config ms)))
        = Ok ''../certs/key.pem''
    \<and> (\<exists>cert key. rcgen [''localhost'', ''127.0.0.1''] = Ok (cert, key)
         \<and> fs' (root @ [''crates'', ''certs'', ''server.crt'']) = Some (File cert)
         \<and> fs' (root @ [''crates'', ''certs'', ''key.pem'']) = Some (File key))
    \<and> (\<forall>p. p = root @ [''crates'', ''certs'', ''server.crt''] \<or> p = root @ [''crates'', ''certs'', ''key.pem'']
         \<or> fs' p = fs p \<or> fs p = None \<and> fs' p = Some Directory)"
proof -
  let ?dir = "root @ [''crates'', ''certs'']"
  obtain fs1 cert key where s: "(if fs ?dir = None then create_dir_all denied ?dir fs else (Ok (), fs)) = (Ok (), fs1)"
    "rcgen [''localhost'', ''127.0.0.1''] = Ok (cert, key)"
    "fs' = fs1(?dir @ [''server.crt''] \<mapsto> File cert, ?dir @ [''key.pem''] \<mapsto> File key)"
    using assms by (auto simp: gen_dev_certs_def resolve_examples fs_write_def Let_def
        split: prod.splits sum.splits if_splits)
  have "fs1 p = fs p \<or> fs p = None \<and> fs1 p = Some Directory" for p
    using s(1) create_dir_all_adds [of denied ?dir fs "Ok ()" fs1 p] by (auto split: if_splits)
  with s(2,3) show ?thesis
    by (auto simp: cert_file_path_ok_iff key_file_path_ok_iff TLSConfig_default_def test_server_config_def
        try_exists_in_def resolve_examples)
qed

theorem dev_certs_enable_tls_witness:
  "\<exists>out fs'. gen_dev_certs (\<lambda>p. False) (\<lambda>names. Ok (''CERT'', ''KEY'')) [''ws'', ''tools'']
      [[] \<mapsto> Directory, [''ws''] \<mapsto> Directory, [''ws'', ''crates''] \<mapsto> Directory] = (Ok (), out, fs')
    \<and> fs' [''ws'', ''crates'', ''certs'', ''key.pem''] = Some (File ''KEY'')"
proof -
  let ?fs = "[[] \<mapsto> Directory, [''ws''] \<mapsto> Directory, [''ws'', ''crates''] \<mapsto> Directory] :: file_system"
  have "\<exists>out fs'. gen_dev_certs (\<lambda>p. False) (\<lambda>names. Ok (''CERT'', ''KEY'')) ([''ws''] @ [''tools'']) ?fs = (Ok (), out, fs')"
    unfolding gen_dev_certs_def resolve_examples
    by (simp add: create_dir_all_def fs_write_def upt_rec Let_def)
  then obtain out fs' where
    "gen_dev_certs (\<lambda>p. False) (\<lambda>names. Ok (''CERT'', ''KEY'')) ([''ws''] @ [''tools'']) ?fs = (Ok (), out, fs')" by blast
  with dev_certs_enable_tls [OF this] show ?thesis by auto
qed

end
