(* ===== verification/Workspace.thy ===== *)
theory Workspace
  imports Dev_Certs Server_Properties
begin

text \<open>
  The code around the server in the workspace: the build script \<open>crates/server/build.rs\<close>, and the set-up that
  the integration tests of \<open>crates/server/tests/protocol.rs\<close> share, which starts the endpoint with the generated
  certificates and connects a client of the QUIC library to it.
\<close>

section \<open>The build script\<close>

text \<open>
  \<open>env\<close> are the environment variables, \<open>compile_protos\<close> is the code generator applied to the proto files and the
  include directories. A missing variable is a panic, the value \<open>None\<close>.
\<close>

definition build_script ::
    "(string \<Rightarrow> path option) \<Rightarrow> (bool \<Rightarrow> path list \<Rightarrow> path list \<Rightarrow> io_error + unit) \<Rightarrow> (io_error + unit) option" where
  "build_script env compile_protos =
     (case env ''CARGO_MANIFEST_DIR'' of
        None \<Rightarrow> None
      | Some manifest_dir \<Rightarrow>
          (let proto_root = resolve manifest_dir ''../../proto'';
               proto_file = resolve proto_root ''ocypode/pubsub/v1/pubsub.proto''
           in Some (and_then (compile_protos False [proto_file] [proto_root]) Ok)))"

section \<open>The set-up of the integration tests\<close>

text \<open>\<open>reserve_udp_port\<close>, which no test calls; \<open>bind\<close>, \<open>local_addr\<close> and \<open>port\<close> are those of a UDP socket.\<close>

definition reserve_udp_port ::
    "(string \<Rightarrow> io_error + 's) \<Rightarrow> ('s \<Rightarrow> io_error + 'a) \<Rightarrow> ('a \<Rightarrow> nat) \<Rightarrow> io_error + nat" where
  "reserve_udp_port bind local_addr port =
     and_then (bind ''127.0.0.1:0'') (\<lambda>socket. and_then (local_addr socket) (\<lambda>addr. Ok (port addr)))"

text \<open>
  The client half of the QUIC library: the builder, a connection, and the two halves of a stream.
\<close>

record ('a, 'h) s2n_client =
  client_with_tls :: "string \<Rightarrow> string + 'h"
  client_with_io :: "string \<Rightarrow> 'h \<Rightarrow> string + 'h"
  client_start :: "'h \<Rightarrow> string + 'h"
  client_connect :: "'h \<Rightarrow> 'a \<Rightarrow> string \<Rightarrow> string + 'h"
  connection_keep_alive :: "bool \<Rightarrow> 'h \<Rightarrow> string + 'h"
  connection_open_bidirectional_stream :: "'h \<Rightarrow> string + 'h"
  receive_stream_reads :: "'h \<Rightarrow> (io_error + bytes) list"
  send_stream_write_all :: "'h \<Rightarrow> bytes \<Rightarrow> io_error + unit"
  send_stream_close :: "'h \<Rightarrow> string + unit"

definition setup_server_and_client ::
    "('a, 'h) s2n_quic \<Rightarrow> ('a, 'h) s2n_client \<Rightarrow> (string \<Rightarrow> 'a option) \<Rightarrow> (string \<Rightarrow> io_error + bool) \<Rightarrow> u64
      \<Rightarrow> (start_error + ServerConfig \<times> 'h \<times> 'a) option" where
  "setup_server_and_client q cl parse try_exists connect_timeout_ms =
     (let server_config = test_server_config connect_timeout_ms
      in case quic_start q parse try_exists server_config of
           None \<Rightarrow> None
         | Some r \<Rightarrow> Some (
             and_then r (\<lambda>(server_address, server, auth).
             and_then (boxed (client_with_tls cl ''../certs/server.crt'')) (\<lambda>b1.
             and_then (boxed (client_with_io cl ''0.0.0.0:0'' b1)) (\<lambda>b2.
             and_then (boxed (client_start cl b2)) (\<lambda>client.
             Ok (server_config, client, server_address)))))))"

definition open_test_stream :: "('a, 'h) s2n_client \<Rightarrow> 'h \<Rightarrow> 'a \<Rightarrow> start_error + 'h" where
  "open_test_stream cl client server_address =
     and_then (boxed (client_connect cl client server_address ''localhost'')) (\<lambda>connection.
     and_then (boxed (connection_keep_alive cl True connection)) (\<lambda>connection1.
     boxed (connection_open_bidirectional_stream cl connection1)))"

text \<open>The two tests from their first line; \<open>body\<close> is the part that has the stream.\<close>

definition over_test_stream ::
    "('a, 'h) s2n_quic \<Rightarrow> ('a, 'h) s2n_client \<Rightarrow> (string \<Rightarrow> 'a option) \<Rightarrow> (string \<Rightarrow> io_error + bool) \<Rightarrow> u64
      \<Rightarrow> ('h \<Rightarrow> test_result \<times> bytes) \<Rightarrow> (start_error + test_result) option" where
  "over_test_stream q cl parse try_exists connect_timeout_ms body =
     map_option (\<lambda>r. and_then r (\<lambda>(server_config, client, server_address).
         and_then (open_test_stream cl client server_address) (\<lambda>stream. Ok (fst (body stream)))))
       (setup_server_and_client q cl parse try_exists connect_timeout_ms)"

definition test_info_then_connect ::
    "prost \<Rightarrow> ('a, 'h) s2n_quic \<Rightarrow> ('a, 'h) s2n_client \<Rightarrow> (string \<Rightarrow> 'a option) \<Rightarrow> (string \<Rightarrow> io_error + bool)
      \<Rightarrow> (start_error + test_result) option" where
  "test_info_then_connect P q cl parse try_exists =
     over_test_stream q cl parse try_exists 5 (\<lambda>stream.
       info_then_connect_over_quic P (receive_stream_reads cl stream) (send_stream_write_all cl stream)
         (send_stream_close cl stream))"

definition test_connect_timeout ::
    "prost \<Rightarrow> ('a, 'h) s2n_quic \<Rightarrow> ('a, 'h) s2n_client \<Rightarrow> (string \<Rightarrow> 'a option) \<Rightarrow> (string \<Rightarrow> io_error + bool)
      \<Rightarrow> (start_error + test_result) option" where
  "test_connect_timeout P q cl parse try_exists =
     over_test_stream q cl parse try_exists 1 (\<lambda>stream.
       connect_timeout_when_no_connect_message P (receive_stream_reads cl stream))"

section \<open>Lemmas\<close>

lemma and_then_return: "and_then r Ok = r"
  by (cases r) simp_all

lemma is_ok_and_then: "is_ok (and_then r f) \<longleftrightarrow> is_ok r \<and> is_ok (f (projr r))"
  by (cases r) simp_all

lemma is_ok_boxed: "is_ok (boxed r) \<longleftrightarrow> is_ok r"
  by (cases r) (simp_all add: boxed_def)

lemma build_script_paths:
  "build_script env compile_protos = None \<longleftrightarrow> env ''CARGO_MANIFEST_DIR'' = None"
  "env ''CARGO_MANIFEST_DIR'' = Some (root @ [''crates'', ''server'']) \<Longrightarrow> build_script env compile_protos
     = Some (compile_protos False [root @ [''proto'', ''ocypode'', ''pubsub'', ''v1'', ''pubsub.proto'']] [root @ [''proto'']])"
  by (simp_all add: build_script_def resolve_def components_def slice_split_eval Let_def and_then_return
      split: option.splits del: slice_split.simps)

text \<open>Every call of the library succeeds, as on a machine with a network and an acceptable certificate.\<close>

definition quic_available :: "('a, 'h) s2n_quic \<Rightarrow> bool" where
  "quic_available q \<longleftrightarrow>
     (\<forall>a. is_ok (io_with_receive_address q a)) \<and> (\<forall>b h. is_ok (io_with_gso q b h)) \<and> (\<forall>b h. is_ok (io_with_gro q b h))
     \<and> (\<forall>h. is_ok (io_build q h)) \<and> (\<forall>c k. is_ok (tls_with_certificate q c k)) \<and> (\<forall>h. is_ok (tls_build q h))
     \<and> (\<forall>h. is_ok (server_with_tls q h)) \<and> (\<forall>i h. is_ok (server_with_io q i h))
     \<and> (\<forall>l h. is_ok (server_with_endpoint_limits q l h)) \<and> (\<forall>h. is_ok (server_start q h))
     \<and> (\<forall>h. is_ok (server_local_addr q h))"

definition client_available :: "('a, 'h) s2n_client \<Rightarrow> bool" where
  "client_available cl \<longleftrightarrow>
     (\<forall>c. is_ok (client_with_tls cl c)) \<and> (\<forall>a h. is_ok (client_with_io cl a h)) \<and> (\<forall>h. is_ok (client_start cl h))
     \<and> (\<forall>h a n. is_ok (client_connect cl h a n)) \<and> (\<forall>b h. is_ok (connection_keep_alive cl b h))
     \<and> (\<forall>h. is_ok (connection_open_bidirectional_stream cl h))"

lemma quic_start_available:
  assumes "quic_available q" and "parse (quic_listen_addr (config_quic config)) = Some a"
    and "endpoint_limits (config_quic config) = None" and "\<not> config_tls_verify config"
    and "is_ok (cert_file_path ex (quic_tls (config_quic config)))" and "is_ok (key_file_path ex (quic_tls (config_quic config)))"
  shows "\<exists>addr server. quic_start q parse ex config = Some (Ok (addr, server, NoAuthAuthenticator))"
proof -
  obtain r where r: "quic_start q parse ex config = Some r"
    using assms(2) by (simp add: quic_start_def QuicConfig_socket_addr_def)
  moreover have "is_ok (map_err Boxed_io x) \<longleftrightarrow> is_ok x" for x :: "io_error + string" by (cases x) simp_all
  ultimately have "is_ok r"
    using assms by (auto simp: quic_start_def QuicConfig_socket_addr_def start_io_def start_limits_def start_tls_def
        is_ok_and_then is_ok_boxed quic_available_def)
  with r show ?thesis
    by (cases r) (auto simp: quic_start_def result_simps split: option.splits)
qed

lemma over_test_stream_passes:
  assumes "quic_available q" and "client_available cl" and "parse ''127.0.0.1:0'' = Some a"
    and "is_ok (cert_file_path ex (quic_tls (config_quic (test_server_config ms))))"
    and "is_ok (key_file_path ex (quic_tls (config_quic (test_server_config ms))))"
    and "\<And>stream. fst (body stream) = Passed"
  shows "over_test_stream q cl parse ex ms body = Some (Ok Passed)"
proof -
  have "endpoint_limits (config_quic (test_server_config ms)) = None" "\<not> config_tls_verify (test_server_config ms)"
    "parse (quic_listen_addr (config_quic (test_server_config ms))) = Some a"
    using assms(3) by (simp_all add: test_server_config_def ServerConfig_new_def QuicConfig_default_def)
  then obtain addr server where "quic_start q parse ex (test_server_config ms) = Some (Ok (addr, server, NoAuthAuthenticator))"
    using quic_start_available [OF assms(1), of parse "test_server_config ms" a ex] assms(4,5) by blast
  moreover obtain b1 b2 client where "client_with_tls cl ''../certs/server.crt'' = Ok b1"
    "client_with_io cl ''0.0.0.0:0'' b1 = Ok b2" "client_start cl b2 = Ok client"
    using assms(2) unfolding client_available_def is_ok_iff by metis
  moreover have "is_ok (open_test_stream cl client addr)"
    using assms(2) by (simp add: client_available_def open_test_stream_def is_ok_and_then is_ok_boxed)
  then obtain stream where "open_test_stream cl client addr = Ok stream" by (auto simp: is_ok_iff)
  ultimately show ?thesis
    by (simp add: over_test_stream_def setup_server_and_client_def boxed_def assms(6))
qed

section \<open>Properties\<close>


text \<open>A client library whose streams all deliver the given bytes.\<close>

definition sample_quic_client :: "bytes \<Rightarrow> (string, string) s2n_client" where
  "sample_quic_client greeting = \<lparr>client_with_tls = Ok, client_with_io = (\<lambda>a. Ok), client_start = Ok,
     client_connect = (\<lambda>h a n. Ok (a @ n)), connection_keep_alive = (\<lambda>b. Ok),
     connection_open_bidirectional_stream = Ok, receive_stream_reads = (\<lambda>h. [Ok greeting]),
     send_stream_write_all = (\<lambda>h b. Ok ()), send_stream_close = (\<lambda>h. Ok ())\<rparr>"


end
