(* ===== verification/Spec2Isabelle.thy ===== *)
theory Spec2Isabelle
  imports Topic Client_Id Router_Properties Codec_Properties Session_Properties Server_Properties
    Tasks_Properties Writer_Faults Endpoint_Properties Topic_Tests Router_Tests Codec_Tests Protocol_Tests
    Dev_Certs Workspace
begin

text \<open>
  Verification of \<^bold>\<open>ocypode\<close>, a publish/subscribe server over QUIC written in Rust
  (\<open>src/crates/server/src\<close>).

  \<^bold>\<open>The program.\<close> A client opens a QUIC stream; the server greets it with an INFO message, waits for
  a CONNECT, authenticates it, and then reads PUBLISH, SUBSCRIBE and UNSUBSCRIBE frames until the
  stream ends. Frames are a command byte, a big-endian \<open>u32\<close> length and a protobuf payload
  (\<open>parser.rs\<close>). Topics and filters are validated by \<open>topic.rs\<close>; \<open>router.rs\<close> keeps the subscriptions
  in a trie and finds the ones that match a topic. \<open>client.rs\<close> runs one connection
  (\<open>handshake.rs\<close>, \<open>auth.rs\<close>), \<open>quic.rs\<close> accepts connections and streams, \<open>config.rs\<close>, \<open>grpc.rs\<close>,
  \<open>logger.rs\<close>, \<open>metrics.rs\<close> and \<open>main.rs\<close> start the process, and \<open>src/tools\<close> has the generator of the
  certificates it loads. In this version of the program \<open>client.rs\<close> does not
  yet hand the frames it dispatches to the router.

  \<^bold>\<open>Theories and what they model.\<close>

  \<^item> \<open>Ocypode_Prelude\<close>: machine types, \<open>Result\<close> as a sum with its combinators, the slice, iterator and
    hash-map operations of the standard library that the code uses, and lemmas on them.
  \<^item> \<open>Ocypode_Error\<close>: the error enums of \<open>error.rs\<close> with their display texts.
  \<^item> \<open>Topic\<close>: \<open>topic.rs\<close>, function by function. The constructors are characterised by declarative
    descriptions (\<open>layered\<close>, \<open>topic_spec\<close>, \<open>filter_spec\<close>), errors included.
  \<^item> \<open>Client_Id\<close>: the identifier and its atomic counter, a 64-bit word that wraps.
  \<^item> \<open>Router\<close>: the trie of \<open>router.rs\<close>: \<open>insert\<close>, the stack-driven \<open>search\<close>, and \<open>delete\<close> with its three
    passes over index paths, panics included. \<open>Router_Spec\<close> relates the operations to the list of
    \<open>entries\<close> of the trie and to recursive versions; \<open>Router_Search\<close> shows that the loop of
    \<open>search\<close> collects exactly the matching entries; \<open>Router_Table\<close> states the contract of a
    subscription table as the locale \<open>subscription_table\<close> and interprets it on the trie;
    \<open>Router_Properties\<close> holds the properties over whole histories of operations.
  \<^item> \<open>Pb\<close>: the protocol messages and the interface \<open>prost\<close> of the generated protobuf code, with the
    locale \<open>message_codec\<close> for what is relied on. \<open>Wire\<close> and \<open>Wire_Messages\<close> give encoders and decoders
    of the protobuf wire format for these messages and interpret the locale on them.
  \<^item> \<open>Parser\<close>: \<open>parser.rs\<close>: commands, message builders, headers and the two codecs. \<open>Codec_Spec\<close> reduces
    both decoders to one loop, describes it by the relation \<open>decodes\<close>, and states what a reader
    relies on as the locale \<open>stream_decoder\<close>, interpreted on both decoders.
    \<open>Codec_Properties\<close> holds the properties.
  \<^item> \<open>Config\<close>: \<open>config.rs\<close>. \<open>Handshake\<close>: \<open>auth.rs\<close> and \<open>handshake.rs\<close>.
  \<^item> \<open>Client\<close>: \<open>client.rs\<close>, with the runtime as the records \<open>connection_io\<close> and \<open>writer_io\<close>.
    \<open>Connection\<close> is the state machine of a connection and the proof that \<open>Client_run\<close> refines it for
    every runtime. \<open>Framed\<close> states the documented framed reader and the locale \<open>framed_source\<close>;
    \<open>Session\<close> interprets it and the locales of the writer task on the documented runtime
    (\<open>channel_writer\<close>, what the task needs to end, and \<open>outbound_queue\<close>, the case without failures, which
    is an instance of it), and models the reading loop of the client in \<open>crates/server/tests/protocol.rs\<close>.
    \<open>Session_Properties\<close> holds the properties.
  \<^item> \<open>Tasks\<close>: the two tasks of a connection, reading and writing, as one concurrent system over a bounded
    channel: the step relation \<open>sys_step\<close> has a rule for each thing a task of \<open>client.rs\<close> does between
    two points where it can be suspended. The locale \<open>measured_system\<close> gives finite runs and progress
    from an invariant and a measure. \<open>Tasks_Properties\<close> holds the properties over all schedules.
    \<open>Writer_Faults\<close> runs the writer task, alone and in this system, over a transport that may refuse or
    cut any write, through a second interpretation of \<open>channel_writer\<close>.
  \<^item> \<open>Endpoint\<close>: the running server as one concurrent system: the accept loop, a task per connection, the
    tasks of every stream over transports that may fail, and the identifier counter they share. The
    step relation \<open>ep_step\<close> is built on \<open>sys_step\<close>; invariant, measure and progress give a second
    interpretation of \<open>measured_system\<close>.
    \<open>Endpoint_Properties\<close> holds the properties over all schedules.
  \<^item> \<open>Quic\<close>: \<open>quic.rs\<close>. \<open>Logger\<close>: \<open>logger.rs\<close>. \<open>Metrics\<close>: the statics, the handler and the serving task of
    \<open>metrics.rs\<close>. \<open>Boot\<close>: \<open>main.rs\<close>, \<open>grpc.rs\<close>, the start of the metrics service, and the test of the health
    service. \<open>Server_Properties\<close>: their properties.
  \<^item> \<open>Dev_Certs\<close>: \<open>src/tools/src/bin/gen_dev_certs.rs\<close> over a file system with directories and files.
  \<^item> \<open>Topic_Tests\<close>, \<open>Router_Tests\<close>, \<open>Codec_Tests\<close>: every unit test of \<open>topic.rs\<close>, \<open>router.rs\<close> and \<open>parser.rs\<close> as a
    predicate over the model, an assertion after a panic being false. \<open>Protocol_Tests\<close>: the tests of
    \<open>handshake.rs\<close> and \<open>client.rs\<close> and the integration tests of \<open>crates/server/tests/protocol.rs\<close>, the clients
    put together with the server in both directions. \<open>Workspace\<close>: the set-up these integration tests
    share, over the client half of the QUIC library, and the build script \<open>crates/server/build.rs\<close>.

  \<^bold>\<open>What the theorems show.\<close> Topics: exactly which byte strings are accepted and which error comes
  first, by one list of checks for both constructors. Router: after any history the search returns exactly the live matching subscriptions,
  each once; deletion never panics, restores the trie and frees every node; calls do not
  disturb other subscriptions. Codecs: round trips in both directions, soundness,
  incrementality, bounded buffering, resynchronisation, errors. Connections: no frame is
  dispatched before an accepted CONNECT, the result is a function of the bytes read however they
  are chunked, a well-behaved client is served and gets its INFO, identifiers are unique. Concurrency:
  whatever the schedule of the two tasks, the channel keeps its capacity and is never found closed,
  every run ends with both tasks ended and the INFO frame on the wire, and the outcome is one that
  the sequential functions give. When the transport fails, both tasks still end, the reading task is not
  affected, and no frame is torn in the middle of others. The whole server: streams
  are isolated from each other and have distinct identifiers in every reachable state, every schedule
  serves exactly the streams accepted, and the outcomes are those of serving the streams one after
  another in some order. Start-up: order and requirements, the subscriber is installed once,
  metrics are registered once, and the generated certificates are where the server looks. Tests: the
  repository's own tests pass on the model, for every value of what they leave open (counter,
  senders, chunks, protobuf code). Some theorems record behaviour that differs from the protocol
  description: a reused subscription id leaks its old filter, a final \<open>#\<close> matches zero levels,
  an advertised authentication requirement is not enforced, and oversized frames are encoded
  but never delivered.

  \<^bold>\<open>Conventions.\<close> A panic and a call that never returns are \<open>None\<close>. Sizes held in memory are natural
  numbers; command bytes, lengths on the wire and identifiers are words of their width. A hash map
  is an association list with distinct keys, its order an iteration order. Bytes of buffers
  follow the documentation of the \<open>bytes\<close> library: \<open>put_u32\<close> and \<open>get_u32\<close> are big-endian. No bound
  is put on the size of a router, a stream or a history. The only fuel is in \<open>items_fuel\<close>: each
  answer of a decoder uses up input, so the length of the input plus one is enough
  (\<open>items_fuel_enough\<close>). The loops of \<open>client.rs\<close> are partial functions; that they return is proved.

  \<^bold>\<open>Not modelled.\<close> The bodies of third-party libraries (protobuf code generation, the asynchronous
  runtime, QUIC and TLS, HTTP and gRPC servers, text encoder of the metrics, filters of the tracing
  layers, certificate generation): they are parameters, and the documented behaviour that is relied
  on appears as locale laws with instances. The empty trait of
  \<open>permission.rs\<close> and the module list of \<open>lib.rs\<close> have no behaviour. In \<open>Tasks\<close> and \<open>Endpoint\<close> time is not
  counted: the CONNECT timeout may strike at any point of waiting for the first frame.

  \<^bold>\<open>Next.\<close> The dispatch of frames to the router and the delivery of messages, once the program has them.
\<close>

section \<open>Topics and routing together\<close>

lemma filter_matches_literal:
  "\<forall>s \<in> set fs. \<not> has_wildcard s \<Longrightarrow> filter_matches fs ts \<longleftrightarrow> fs = ts"
  by (induction fs ts rule: filter_matches.induct) (auto split: list.splits)

lemma layers_inj: "layers a = layers b \<Longrightarrow> a = b"
  by (metis join_layers)

lemma Topic_a_b: "Topic_new [0x61, 0x2F, 0x62] = Ok (Topic [0x61, 0x2F, 0x62])"
  by (simp add: Topic_new_def validate_segments_def validate_raw_def validate_no_wildcards_def
      matchable_segments_def has_wildcard_def topic_consts)

text \<open>
  C32: Topics are their own filters. Every byte string that is a valid publish topic is also a valid
  filter, and a subscription to it receives a published topic exactly when the two are the same
  bytes.
\<close>

theorem literal_subscription_exact:
  assumes "Topic_new filter_bytes = Ok ft" and "Topic_new topic_bytes = Ok t"
  shows "\<exists>f. TopicFilter_new filter_bytes = Ok f
    \<and> subscription_list (router_search t (router_insert tx c s f Router_new))
        = (if topic_bytes = filter_bytes
           then [(c, \<lparr>sub_subscription_id = s, sub_tx = tx\<rparr>)] else [])"
proof -
  let ?f = "TopicFilter filter_bytes" and ?k = "SubscriptionKey_new c s"
  let ?r = "router_insert tx c s ?f Router_new"
  have spec: "topic_spec filter_bytes" "topic_spec topic_bytes" "t = Topic topic_bytes"
    using assms by (simp_all add: Topic_new_Ok_iff)
  have new: "TopicFilter_new filter_bytes = Ok ?f"
    using topic_spec_filter_spec [OF spec(1)] by (simp add: TopicFilter_new_Ok_iff)
  have m: "filter_matches (layers filter_bytes) (layers topic_bytes) \<longleftrightarrow> topic_bytes = filter_bytes"
    using filter_matches_literal topic_segments_no_wildcard [OF spec(1)] layers_inj
    by (metis Topic_segments_layers spec(1))
  have "run_ops router_insert router_delete [Insert tx c s ?f] Router_new = Some ?r" by simp
  moreover have "ops_disciplined [Insert tx c s ?f] Map.empty" by simp
  ultimately have l: "set (subscription_list (router_search t ?r))
        = to_subscription ` deliveries (table_run [Insert tx c s ?f] Map.empty) (Topic_segments t)"
      "distinct (subscription_list (router_search t ?r))"
    using trie.lookup_after_ops [of "[Insert tx c s ?f]" t] published_topic_no_hash [OF assms(2)] by auto
  have "to_subscription ` deliveries (table_run [Insert tx c s ?f] Map.empty) (Topic_segments t)
      = (if topic_bytes = filter_bytes then {(c, \<lparr>sub_subscription_id = s, sub_tx = tx\<rparr>)} else {})"
    using m spec topic_spec_filter_spec [OF spec(1)]
    by (auto simp: deliveries_def to_subscription_def SubscriptionKey_new_def Topic_segments_layers
        TopicFilter_segments_layers image_iff split: if_splits)
  with l have "subscription_list (router_search t ?r)
      = (if topic_bytes = filter_bytes then [(c, \<lparr>sub_subscription_id = s, sub_tx = tx\<rparr>)] else [])"
    by (cases "subscription_list (router_search t ?r)" rule: remdups_adj.cases) (auto split: if_splits)
  with new show ?thesis by blast
qed

theorem literal_subscription_exact_witness:
  "\<exists>f. TopicFilter_new [0x61, 0x2F, 0x62] = Ok f
    \<and> subscription_list (router_search (Topic [0x61, 0x2F, 0x62])
        (router_insert (5 :: nat) (ClientId 1) 7 f Router_new))
      = [(ClientId 1, \<lparr>sub_subscription_id = 7, sub_tx = 5\<rparr>)]"
  using literal_subscription_exact [OF Topic_a_b Topic_a_b, of 5 "ClientId 1" 7] by simp

end
